(* ===== verification/Prelude.thy ===== *)
theory Prelude
  imports Main "HOL-Library.Word" "HOL-Library.Monad_Syntax"
begin

text \<open>
  Shared vocabulary of the development: the machine types of the C sources, pointers
  that may be NULL, checked accesses to C arrays, and the generic lemmas on lists and
  words that the component theories use.

  Results of type \<^typ>\<open>'a option\<close> carry the meaning "the C code has a defined result".
  An access outside an array is undefined behaviour in C and is \<^term>\<open>None\<close> here, and a loop
  that never ends is \<^term>\<open>None\<close> as well. A theorem that concludes with
  \<^term>\<open>Some\<close> therefore states memory safety and termination together with the result.
\<close>

unbundle bit_operations_syntax

section \<open>Types\<close>

type_synonym u8 = "8 word"
type_synonym u16 = "16 word"
type_synonym u32 = "32 word"

text \<open>A pointer: \<^term>\<open>None\<close> is NULL, \<^term>\<open>Some\<close> holds what it points at.\<close>

type_synonym 'a ptr = "'a option"

named_theorems mem_simps \<open>evaluation of checked array accesses\<close>
named_theorems wire_simps \<open>constants of the wire format\<close>
named_theorems code_simps \<open>named status codes and errno values\<close>

section \<open>Checked array accesses\<close>

definition peek :: "'a list \<Rightarrow> nat \<Rightarrow> 'a option" where
  "peek xs i = (if i < length xs then Some (xs ! i) else None)"

definition poke :: "'a list \<Rightarrow> nat \<Rightarrow> 'a \<Rightarrow> 'a list option" where
  "poke xs i x = (if i < length xs then Some (xs[i := x]) else None)"

definition poke_all :: "'a list \<Rightarrow> nat \<Rightarrow> 'a list \<Rightarrow> 'a list option" where
  "poke_all xs i ys =
     (if i + length ys \<le> length xs
      then Some (take i xs @ ys @ drop (i + length ys) xs) else None)"

text \<open>Dereferencing a pointer to an array: NULL has no element.\<close>

definition peek_ptr :: "'a list ptr \<Rightarrow> nat \<Rightarrow> 'a option" where
  "peek_ptr p i = (case p of None \<Rightarrow> None | Some xs \<Rightarrow> peek xs i)"

lemma peek_in [mem_simps]: "i < length xs \<Longrightarrow> peek xs i = Some (xs ! i)"
  by (simp add: peek_def)

lemma poke_in [mem_simps]: "i < length xs \<Longrightarrow> poke xs i x = Some (xs[i := x])"
  by (simp add: poke_def)

lemma peek_ptr_Some [mem_simps]: "peek_ptr (Some xs) i = peek xs i"
  by (simp add: peek_ptr_def)

lemma poke_all_in [mem_simps]:
  "i + length ys \<le> length xs
   \<Longrightarrow> poke_all xs i ys = Some (take i xs @ ys @ drop (i + length ys) xs)"
  by (simp add: poke_all_def)

lemma poke_mid: "length xs = i \<Longrightarrow> poke (xs @ y # ys) i z = Some (xs @ z # ys)"
  by (auto simp: poke_def list_update_append)

lemma poke_all_length: "poke_all xs i ys = Some zs \<Longrightarrow> length zs = length xs"
  by (auto simp: poke_all_def split: if_splits)

lemma poke_all_Nil: "i \<le> length xs \<Longrightarrow> poke_all xs i [] = Some xs"
  by (simp add: poke_all_def)

lemma poke_all_append:
  "poke_all xs i ys = Some zs \<Longrightarrow> poke_all zs (i + length ys) us = Some vs
   \<Longrightarrow> poke_all xs i (ys @ us) = Some vs"
proof -
  assume 1: "poke_all xs i ys = Some zs" and 2: "poke_all zs (i + length ys) us = Some vs"
  from 1 have le: "i + length ys \<le> length xs" and zs: "zs = take i xs @ ys @ drop (i + length ys) xs"
    by (auto simp: poke_all_def split: if_splits)
  from 2 have le2: "i + length ys + length us \<le> length xs"
    and vs: "vs = take (i + length ys) zs @ us @ drop (i + length ys + length us) zs"
    using poke_all_length [OF 1] by (auto simp: poke_all_def split: if_splits)
  from le have i: "length (take i xs) = i" by simp
  have "take (i + length ys) zs = take i xs @ ys"
    unfolding zs using le by simp
  moreover have "drop (i + length ys + length us) zs = drop (i + length ys + length us) xs"
    unfolding zs using le by (simp add: add_ac)
  ultimately show ?thesis using le2 vs by (simp add: poke_all_def add.assoc)
qed

section \<open>C integer conversions\<close>

text \<open>The conversion of a \<open>long\<close> to a 32-bit \<open>int\<close>.\<close>

definition c_int :: "int \<Rightarrow> int" where
  "c_int x = signed_take_bit 31 x"

lemma c_int_id: "- (2 ^ 31) \<le> x \<Longrightarrow> x < 2 ^ 31 \<Longrightarrow> c_int x = x"
  by (simp add: c_int_def signed_take_bit_int_eq_self)

section \<open>Words\<close>

lemma xor_eq_0_iff_eq: "(a XOR b = 0) = (a = (b :: 'a::len word))"
  by (metis xor.assoc xor_self_eq xor.left_neutral xor.right_neutral)

lemma xor_left_inj: "(a XOR b = a XOR c) = (b = (c :: 'a::len word))"
  by (metis xor.assoc xor_self_eq xor.left_neutral)

lemma xor_right_inj: "(b XOR a = c XOR a) = (b = (c :: 'a::len word))"
  by (metis xor.assoc xor_self_eq xor.right_neutral)

lemma bit_u8_high: "8 \<le> n \<Longrightarrow> \<not> bit (b :: u8) n"
  using bit_imp_le_length [of b n] by auto

lemma unat_u8_of_nat [simp]: "n < 256 \<Longrightarrow> unat (word_of_nat n :: u8) = n"
  by (simp add: unat_of_nat)

text \<open>A length as a byte of the wire.\<close>

definition byte_of :: "nat \<Rightarrow> u8" where
  "byte_of n = word_of_nat n"

lemma unat_byte_of [simp]: "n < 256 \<Longrightarrow> unat (byte_of n) = n"
  by (simp add: byte_of_def)

lemma byte_of_unat [simp]: "byte_of (unat b) = b"
  by (simp add: byte_of_def)

lemma byte_of_inj: "m < 256 \<Longrightarrow> n < 256 \<Longrightarrow> byte_of m = byte_of n \<longleftrightarrow> m = n"
  by (metis unat_byte_of)

lemma u8_of_nat_inj: "m < 256 \<Longrightarrow> n < 256 \<Longrightarrow> (word_of_nat m :: u8) = word_of_nat n \<longleftrightarrow> m = n"
  by (metis unat_u8_of_nat)

lemma ucast_u8_u32: "d \<le> 255 \<Longrightarrow> ucast (ucast (d :: u32) :: u8) = d"
proof -
  assume "d \<le> 255"
  then have "unat d < 2 ^ 8" by (simp add: word_le_nat_alt)
  then show ?thesis
    by (simp add: unsigned_ucast_eq word_unat_eq_iff unsigned_take_bit_eq take_bit_nat_eq_self)
qed

lemma word_le_1: "(d :: 'a::len word) \<le> 1 \<longleftrightarrow> d = 0 \<or> d = 1"
  by (auto simp: le_less)

lemma word_1_le: "1 \<le> (d :: 'a::len word) \<longleftrightarrow> d \<noteq> 0"
  by (auto simp: not_less [symmetric])

section \<open>Lists\<close>

lemma take_2_drop: "Suc k < length xs \<Longrightarrow> take 2 (drop k xs) = [xs ! k, xs ! Suc k]"
  by (simp add: Cons_nth_drop_Suc [symmetric] eval_nat_numeral)

lemma list_split_at:
  assumes "n \<le> length xs"
  obtains ys zs where "xs = ys @ zs" and "length ys = n"
  using assms by (metis append_take_drop_id length_take min.absorb2)

lemma list_update_append_len [mem_simps]:
  "(xs @ y # ys)[length xs := z] = xs @ z # ys"
  by (simp add: list_update_append)

lemma list_four:
  assumes "4 \<le> length xs"
  obtains a b c d r where "xs = a # b # c # d # r"
  using assms by (auto simp: numeral_eq_Suc Suc_le_length_iff)

end
