(* ===== verification/Posix.thy ===== *)
theory Posix
  imports Prelude "HOL-Library.Signed_Division"
begin

text \<open>
  The operating system under the library. It is not code of the repository, so it is a
  parameter: a record \<open>'k os\<close> of the calls the library makes, each a function of an
  explicit world. What the library relies on is stated as the named hypothesis \<open>posix\<close>
  (documented behaviour of the calls), \<open>finite_interrupts\<close> (only finitely many calls are
  interrupted), \<open>delivers_by\<close> (the line delivers its bytes before a deadline) and
  \<open>accepts_by\<close> (writes go through before it). The kernel \<open>demo_os\<close> at the end satisfies them and is what the witnesses run on.
\<close>

section \<open>The world\<close>

record timespec =
  tv_sec :: int
  tv_nsec :: int

record termios =
  c_iflag :: u32
  c_oflag :: u32
  c_cflag :: u32
  c_lflag :: u32
  c_vmin :: u8
  c_vtime :: u8
  c_ispeed :: u32
  c_ospeed :: u32

text \<open>
  \<open>rx\<close> is every byte the line will still deliver, in order; \<open>tx\<close> every byte the kernel has
  accepted; \<open>clk\<close> the last reading of the monotonic clock in milliseconds; \<open>fds\<close> the open
  descriptors; \<open>port_tty\<close>, \<open>excl\<close> and \<open>nonblock\<close> the settings of the port that is open; \<open>heap\<close>
  the number of live allocations; \<open>kern\<close> the kernel's private state.
\<close>

record 'k world =
  rx :: "u8 list"
  tx :: "u8 list"
  clk :: int
  fds :: "int set"
  port_tty :: termios
  excl :: bool
  nonblock :: bool
  heap :: nat
  errno :: int
  kern :: 'k

text \<open>A call returns \<^term>\<open>Inl e\<close> when it fails with errno \<open>e\<close>.\<close>

type_synonym 'a sys = "int + 'a"

record 'k os =
  sys_clock_gettime :: "'k world \<Rightarrow> timespec \<times> 'k world"
  sys_poll :: "int \<Rightarrow> int \<Rightarrow> 'k world \<Rightarrow> (int \<times> u16) sys \<times> 'k world"
  sys_read :: "int \<Rightarrow> nat \<Rightarrow> 'k world \<Rightarrow> u8 list sys \<times> 'k world"
  sys_write :: "int \<Rightarrow> u8 list \<Rightarrow> 'k world \<Rightarrow> nat sys \<times> 'k world"
  sys_open :: "string \<Rightarrow> u32 \<Rightarrow> 'k world \<Rightarrow> int sys \<times> 'k world"
  sys_close :: "int \<Rightarrow> 'k world \<Rightarrow> 'k world"
  sys_tcgetattr :: "int \<Rightarrow> 'k world \<Rightarrow> termios sys \<times> 'k world"
  sys_tcsetattr :: "int \<Rightarrow> termios \<Rightarrow> 'k world \<Rightarrow> unit sys \<times> 'k world"
  sys_ioctl_excl :: "int \<Rightarrow> 'k world \<Rightarrow> unit sys \<times> 'k world"
  sys_tcflush :: "int \<Rightarrow> 'k world \<Rightarrow> 'k world"
  sys_fcntl_setfl :: "int \<Rightarrow> u32 \<Rightarrow> 'k world \<Rightarrow> unit sys \<times> 'k world"
  sys_malloc :: "'k world \<Rightarrow> bool \<times> 'k world"
  sys_free :: "'k world \<Rightarrow> 'k world"
  lib_cfsetispeed :: "termios \<Rightarrow> u32 \<Rightarrow> termios sys"
  lib_cfsetospeed :: "termios \<Rightarrow> u32 \<Rightarrow> termios sys"

section \<open>Constants of the platform headers (Linux)\<close>

definition EINTR :: int where [simp]: "EINTR = 4"
definition EIO :: int where [simp]: "EIO = 5"
definition EAGAIN :: int where [simp]: "EAGAIN = 11"
definition ENOMEM :: int where [simp]: "ENOMEM = 12"
definition EBUSY :: int where [simp]: "EBUSY = 16"
definition EINVAL :: int where [simp]: "EINVAL = 22"
definition EMFILE :: int where [simp]: "EMFILE = 24"
definition EPROTO :: int where [simp]: "EPROTO = 71"
definition ENOTCONN :: int where [simp]: "ENOTCONN = 107"
definition ETIMEDOUT :: int where [simp]: "ETIMEDOUT = 110"

definition POLLIN :: u16 where [simp]: "POLLIN = 1"

definition O_RDWR :: u32 where [simp]: "O_RDWR = 0x2"
definition O_NOCTTY :: u32 where [simp]: "O_NOCTTY = 0x100"
definition O_NONBLOCK :: u32 where [simp]: "O_NONBLOCK = 0x800"

definition CSIZE :: u32 where [simp]: "CSIZE = 0x30"
definition CS8 :: u32 where [simp]: "CS8 = 0x30"
definition CSTOPB :: u32 where [simp]: "CSTOPB = 0x40"
definition CREAD :: u32 where [simp]: "CREAD = 0x80"
definition PARENB :: u32 where [simp]: "PARENB = 0x100"
definition CLOCAL :: u32 where [simp]: "CLOCAL = 0x800"
definition CRTSCTS :: u32 where [simp]: "CRTSCTS = 0x80000000"
definition B115200 :: u32 where [simp]: "B115200 = 0x1002"

text \<open>\<open>cfmakeraw\<close> and \<open>cfgetospeed\<close>, as termios(3) documents them.\<close>

definition cfmakeraw :: "termios \<Rightarrow> termios" where
  "cfmakeraw t = t\<lparr>c_iflag := c_iflag t AND NOT 0x5EB, c_oflag := c_oflag t AND NOT 0x1,
     c_lflag := c_lflag t AND NOT 0x804B,
     c_cflag := (c_cflag t AND NOT (CSIZE OR PARENB)) OR CS8\<rparr>"

definition cfgetospeed :: "termios \<Rightarrow> u32" where
  "cfgetospeed t = c_ospeed t"

section \<open>Documented behaviour\<close>

text \<open>
  \<open>later w w'\<close>: between \<open>w\<close> and \<open>w'\<close> only time, errno and the kernel's private state moved.
\<close>

definition later :: "'k world \<Rightarrow> 'k world \<Rightarrow> bool" where
  "later w w' \<longleftrightarrow> clk w \<le> clk w' \<and> w' = w\<lparr>clk := clk w', errno := errno w', kern := kern w'\<rparr>"

lemma later_refl [simp, intro]: "later w w"
  by (simp add: later_def)

lemma later_trans [trans]: "later u v \<Longrightarrow> later v w \<Longrightarrow> later u w"
  by (cases u; cases v; cases w) (auto simp: later_def)

lemma laterD:
  "later w w' \<Longrightarrow> rx w' = rx w \<and> tx w' = tx w \<and> clk w \<le> clk w' \<and> fds w' = fds w \<and> port_tty w' = port_tty w
     \<and> excl w' = excl w \<and> nonblock w' = nonblock w \<and> heap w' = heap w"
  by (cases w; cases w') (simp add: later_def)

lemma later_iff:
  "later w w' \<longleftrightarrow> clk w \<le> clk w' \<and> rx w' = rx w \<and> tx w' = tx w \<and> fds w' = fds w \<and> port_tty w' = port_tty w
     \<and> excl w' = excl w \<and> nonblock w' = nonblock w \<and> heap w' = heap w"
  by (cases w; cases w') (auto simp: later_def)

text \<open>The clock reading in milliseconds.\<close>

definition ms_of :: "timespec \<Rightarrow> int" where
  "ms_of ts = tv_sec ts * 1000 + tv_nsec ts sdiv 1000000"

text \<open>The clock never runs backwards.\<close>

definition posix_clock :: "'k os \<Rightarrow> bool" where
  "posix_clock os \<longleftrightarrow>
     (\<forall>w ts w'. sys_clock_gettime os w = (ts, w') \<longrightarrow> later w w' \<and> ms_of ts = clk w')"

text \<open>\<open>poll\<close> moves no data, and reports 0 only once its timeout has passed.\<close>

definition posix_poll :: "'k os \<Rightarrow> bool" where
  "posix_poll os \<longleftrightarrow>
     (\<forall>fd t w r w'. sys_poll os fd t w = (r, w') \<longrightarrow> later w w'
        \<and> (case r of Inl e \<Rightarrow> 0 < e \<and> e \<noteq> ETIMEDOUT
           | Inr (n, revents) \<Rightarrow> 0 \<le> n \<and> (n = 0 \<longrightarrow> clk w + t \<le> clk w')))"

text \<open>\<open>read\<close> takes at most \<open>n\<close> bytes off the front of what the line delivers.\<close>

definition posix_read :: "'k os \<Rightarrow> bool" where
  "posix_read os \<longleftrightarrow>
     (\<forall>fd n w r w'. sys_read os fd n w = (r, w') \<longrightarrow>
        (case r of Inl e \<Rightarrow> 0 < e \<and> e \<noteq> ETIMEDOUT \<and> later w w'
         | Inr bs \<Rightarrow> length bs \<le> n \<and> rx w = bs @ rx w' \<and> later (w\<lparr>rx := rx w'\<rparr>) w'))"

text \<open>\<open>write\<close> accepts a prefix of the buffer.\<close>

definition posix_write :: "'k os \<Rightarrow> bool" where
  "posix_write os \<longleftrightarrow>
     (\<forall>fd bs w r w'. sys_write os fd bs w = (r, w') \<longrightarrow>
        (case r of Inl e \<Rightarrow> 0 < e \<and> later w w'
         | Inr k \<Rightarrow> k \<le> length bs \<and> later (w\<lparr>tx := tx w @ take k bs\<rparr>) w'))"

text \<open>
  A successful \<open>open\<close> returns a fresh descriptor of a port in an unknown state; \<open>close\<close>
  releases the descriptor even when it reports an error.
\<close>

definition posix_open :: "'k os \<Rightarrow> bool" where
  "posix_open os \<longleftrightarrow>
     (\<forall>p flags w r w'. sys_open os p flags w = (r, w') \<longrightarrow>
        (case r of Inl e \<Rightarrow> 0 < e \<and> later w w'
         | Inr fd \<Rightarrow> 0 \<le> fd \<and> fd \<notin> fds w
             \<and> later (w\<lparr>fds := insert fd (fds w), port_tty := port_tty w', excl := excl w',
                        nonblock := (flags AND O_NONBLOCK \<noteq> 0)\<rparr>) w'))"

definition posix_close :: "'k os \<Rightarrow> bool" where
  "posix_close os \<longleftrightarrow>
     (\<forall>fd w. later (w\<lparr>fds := fds w - {fd}\<rparr>) (sys_close os fd w))"

text \<open>
  \<open>tcsetattr\<close> succeeds when it applied any of the requested changes, so nothing is known of
  the settings afterwards until \<open>tcgetattr\<close> reads them back.
\<close>

definition posix_termios :: "'k os \<Rightarrow> bool" where
  "posix_termios os \<longleftrightarrow>
     (\<forall>fd w r w'. sys_tcgetattr os fd w = (r, w') \<longrightarrow> later w w'
        \<and> (case r of Inl e \<Rightarrow> 0 < e | Inr t \<Rightarrow> t = port_tty w'))
   \<and> (\<forall>fd t w r w'. sys_tcsetattr os fd t w = (r, w') \<longrightarrow> later (w\<lparr>port_tty := port_tty w'\<rparr>) w'
        \<and> (case r of Inl e \<Rightarrow> 0 < e | Inr _ \<Rightarrow> True))
   \<and> (\<forall>t s e. lib_cfsetispeed os t s = Inl e \<longrightarrow> 0 < e)
   \<and> (\<forall>t s e. lib_cfsetospeed os t s = Inl e \<longrightarrow> 0 < e)"

text \<open>\<open>TIOCEXCL\<close>, \<open>tcflush\<close> of the input and \<open>F_SETFL\<close>.\<close>

definition posix_port :: "'k os \<Rightarrow> bool" where
  "posix_port os \<longleftrightarrow>
     (\<forall>fd w r w'. sys_ioctl_excl os fd w = (r, w') \<longrightarrow>
        (case r of Inl e \<Rightarrow> 0 < e \<and> later w w' | Inr _ \<Rightarrow> later (w\<lparr>excl := True\<rparr>) w'))
   \<and> (\<forall>fd w. \<exists>old. rx w = old @ rx (sys_tcflush os fd w)
        \<and> later (w\<lparr>rx := rx (sys_tcflush os fd w)\<rparr>) (sys_tcflush os fd w))
   \<and> (\<forall>fd flags w r w'. sys_fcntl_setfl os fd flags w = (r, w') \<longrightarrow>
        (case r of Inl e \<Rightarrow> 0 < e \<and> later w w'
         | Inr _ \<Rightarrow> later (w\<lparr>nonblock := (flags AND O_NONBLOCK \<noteq> 0)\<rparr>) w'))"

definition posix_heap :: "'k os \<Rightarrow> bool" where
  "posix_heap os \<longleftrightarrow>
     (\<forall>w ok w'. sys_malloc os w = (ok, w') \<longrightarrow>
        (if ok then later (w\<lparr>heap := Suc (heap w)\<rparr>) w' else later w w' \<and> errno w' = ENOMEM))
   \<and> (\<forall>w. later (w\<lparr>heap := heap w - 1\<rparr>) (sys_free os w))"

definition posix :: "'k os \<Rightarrow> bool" where
  "posix os \<longleftrightarrow> posix_clock os \<and> posix_poll os \<and> posix_read os \<and> posix_write os \<and> posix_open os
     \<and> posix_close os \<and> posix_termios os \<and> posix_port os \<and> posix_heap os"

text \<open>
  Progress. \<open>rank\<close> bounds the interruptions still to come: it never grows, and every call
  that comes back empty-handed and would be repeated uses some of it up.
\<close>

definition finite_interrupts :: "'k os \<Rightarrow> ('k world \<Rightarrow> nat) \<Rightarrow> bool" where
  "finite_interrupts os rank \<longleftrightarrow>
     (\<forall>w ts w'. sys_clock_gettime os w = (ts, w') \<longrightarrow> rank w' \<le> rank w)
   \<and> (\<forall>fd t w r w'. sys_poll os fd t w = (r, w') \<longrightarrow> rank w' \<le> rank w
        \<and> (r = Inl EINTR \<longrightarrow> rank w' < rank w))
   \<and> (\<forall>fd n w r w'. sys_read os fd n w = (r, w') \<longrightarrow> rank w' \<le> rank w
        \<and> (r = Inl EINTR \<or> r = Inl EAGAIN \<longrightarrow> rank w' < rank w))
   \<and> (\<forall>fd bs w r w'. sys_write os fd bs w = (r, w') \<longrightarrow> rank w' \<le> rank w
        \<and> (r = Inl EINTR \<or> r = Inr 0 \<longrightarrow> rank w' < rank w))"

text \<open>
  Delivery. While the line still has bytes to deliver and it is before \<open>D\<close>, every call of the
  read path returns before \<open>D\<close>, \<open>poll\<close> reports data and \<open>read\<close> yields some, unless a signal
  interrupts them.
\<close>

definition delivers_by :: "'k os \<Rightarrow> int \<Rightarrow> bool" where
  "delivers_by os D \<longleftrightarrow>
     (\<forall>w. rx w \<noteq> [] \<and> clk w < D \<longrightarrow>
        (\<forall>ts w'. sys_clock_gettime os w = (ts, w') \<longrightarrow> clk w' < D)
      \<and> (\<forall>fd t r w'. sys_poll os fd t w = (r, w') \<longrightarrow> clk w' < D
           \<and> (r = Inl EINTR \<or> (\<exists>n revents. r = Inr (n, revents) \<and> 0 < n \<and> revents AND POLLIN \<noteq> 0)))
      \<and> (\<forall>fd n r w'. sys_read os fd n w = (r, w') \<and> 0 < n \<longrightarrow> clk w' < D
           \<and> (r = Inl EINTR \<or> r = Inl EAGAIN \<or> (\<exists>bs. r = Inr bs \<and> bs \<noteq> []))))"

text \<open>The kernel takes what it is given: before \<open>D\<close> a write accepts something and returns before \<open>D\<close>.\<close>

definition accepts_by :: "'k os \<Rightarrow> int \<Rightarrow> bool" where
  "accepts_by os D \<longleftrightarrow>
     (\<forall>fd bs w r w'. sys_write os fd bs w = (r, w') \<and> clk w < D \<and> bs \<noteq> [] \<longrightarrow>
        clk w' < D \<and> (r = Inl EINTR \<or> (\<exists>k. r = Inr k)))"

section \<open>A kernel for the witnesses\<close>

text \<open>
  One byte per \<open>read\<close>, at most four per \<open>write\<close>, \<open>kern\<close> polls interrupted before the first
  one goes through; an empty line makes \<open>poll\<close> wait for its whole timeout.
\<close>

definition demo_os :: "nat os" where
  "demo_os = \<lparr>
     sys_clock_gettime = (\<lambda>w. (\<lparr>tv_sec = clk w div 1000, tv_nsec = clk w mod 1000 * 1000000\<rparr>, w)),
     sys_poll = (\<lambda>fd t w.
        if 0 < kern w then (Inl EINTR, w\<lparr>kern := kern w - 1\<rparr>)
        else if rx w \<noteq> [] then (Inr (1, POLLIN), w)
        else (Inr (0, 0), w\<lparr>clk := clk w + max 0 t\<rparr>)),
     sys_read = (\<lambda>fd n w. let k = min n 1 in (Inr (take k (rx w)), w\<lparr>rx := drop k (rx w)\<rparr>)),
     sys_write = (\<lambda>fd bs w.
        if bs = [] then (Inl EINVAL, w) else (Inr (min 4 (length bs)), w\<lparr>tx := tx w @ take (min 4 (length bs)) bs\<rparr>)),
     sys_open = (\<lambda>p flags w.
        if 3 \<in> fds w then (Inl EMFILE, w)
        else (Inr 3, w\<lparr>fds := insert 3 (fds w), nonblock := (flags AND O_NONBLOCK \<noteq> 0)\<rparr>)),
     sys_close = (\<lambda>fd w. w\<lparr>fds := fds w - {fd}\<rparr>),
     sys_tcgetattr = (\<lambda>fd w. (Inr (port_tty w), w)),
     sys_tcsetattr = (\<lambda>fd t w. (Inr (), w\<lparr>port_tty := t\<rparr>)),
     sys_ioctl_excl = (\<lambda>fd w. (Inr (), w\<lparr>excl := True\<rparr>)),
     sys_tcflush = (\<lambda>fd w. w),
     sys_fcntl_setfl = (\<lambda>fd flags w. (Inr (), w\<lparr>nonblock := (flags AND O_NONBLOCK \<noteq> 0)\<rparr>)),
     sys_malloc = (\<lambda>w. (True, w\<lparr>heap := Suc (heap w)\<rparr>)),
     sys_free = (\<lambda>w. w\<lparr>heap := heap w - 1\<rparr>),
     lib_cfsetispeed = (\<lambda>t s. Inr (t\<lparr>c_ispeed := s\<rparr>)),
     lib_cfsetospeed = (\<lambda>t s. Inr (t\<lparr>c_ospeed := s\<rparr>))\<rparr>"

definition demo_world :: "u8 list \<Rightarrow> nat \<Rightarrow> nat world" where
  "demo_world bytes interrupts =
     \<lparr>rx = bytes, tx = [], clk = 0, fds = {},
      port_tty = \<lparr>c_iflag = 0, c_oflag = 0, c_cflag = 0, c_lflag = 0, c_vmin = 0, c_vtime = 0,
             c_ispeed = 0, c_ospeed = 0\<rparr>,
      excl = False, nonblock = False, heap = 0, errno = 0, kern = interrupts\<rparr>"

lemma ms_of_split: "ms_of \<lparr>tv_sec = c div 1000, tv_nsec = c mod 1000 * 1000000\<rparr> = c"
proof -
  have "(c mod 1000 * 1000000) sdiv 1000000 = c mod 1000"
    by (simp add: signed_divide_int_def sgn_if abs_if)
  then show ?thesis by (simp add: ms_of_def)
qed

lemma posix_demo: "posix demo_os"
  unfolding posix_def
proof (intro conjI)
  show "posix_clock demo_os"
    by (simp add: posix_clock_def demo_os_def ms_of_split)
  show "posix_poll demo_os"
    by (auto simp: posix_poll_def demo_os_def later_iff split: sum.splits prod.splits if_splits)
  show "posix_read demo_os"
    by (auto simp: posix_read_def demo_os_def later_iff Let_def)
  show "posix_write demo_os"
    by (auto simp: posix_write_def demo_os_def later_iff split: sum.splits if_splits)
  show "posix_open demo_os"
    by (auto simp: posix_open_def demo_os_def later_iff split: sum.splits if_splits)
  show "posix_close demo_os" "posix_termios demo_os" "posix_port demo_os" "posix_heap demo_os"
    by (auto simp: posix_close_def posix_termios_def posix_port_def posix_heap_def demo_os_def later_iff)
qed

lemma finite_interrupts_demo: "finite_interrupts demo_os kern"
  by (auto simp: finite_interrupts_def demo_os_def Let_def split: if_splits)

lemma accepts_by_demo: "accepts_by demo_os D"
  by (auto simp: accepts_by_def demo_os_def split: if_splits)

lemma delivers_by_demo: "delivers_by demo_os D"
  by (auto simp: delivers_by_def demo_os_def Let_def split: if_splits)

text \<open>A driver that cannot turn hardware flow control off: \<open>tcsetattr\<close> applies everything else.\<close>

definition rtscts_os :: "nat os" where
  "rtscts_os = demo_os\<lparr>sys_tcsetattr :=
     (\<lambda>fd t w. (Inr (), w\<lparr>port_tty := t\<lparr>c_cflag := c_cflag t OR CRTSCTS\<rparr>\<rparr>))\<rparr>"

lemma posix_rtscts: "posix rtscts_os"
proof -
  have "posix_termios rtscts_os"
    by (auto simp: posix_termios_def rtscts_os_def demo_os_def later_iff)
  with posix_demo show ?thesis
    by (simp add: posix_def posix_clock_def posix_poll_def posix_read_def posix_write_def posix_open_def
        posix_close_def posix_port_def posix_heap_def rtscts_os_def)
qed

end
