(* ===== verification/Uart.thy ===== *)
theory Uart
  imports Posix "HOL-Library.Sublist"
begin

text \<open>
  \<^verbatim>\<open>library/src/uart.c\<close>: opening and configuring the port, closing it, and the read and
  write loops. The loops are \<^theory_text>\<open>partial_function (option)\<close>, because nothing in the code
  bounds how often a call can be interrupted: that they end is a theorem under
  \<open>finite_interrupts\<close>. A read stores into the caller's array at an offset, as the pointer
  argument does.
\<close>

section \<open>Opening and closing\<close>

definition MCU_BAUD :: u32 where
  "MCU_BAUD = B115200"

text \<open>The settings asked for: raw, 8 data bits, no parity, one stop bit, no flow control.\<close>

definition wanted_tty :: "termios \<Rightarrow> termios" where
  "wanted_tty tty =
     (let tty = cfmakeraw tty;
          tty = tty\<lparr>c_cflag := c_cflag tty OR (CLOCAL OR CREAD)\<rparr>;
          tty = tty\<lparr>c_cflag := c_cflag tty AND NOT (PARENB OR CSTOPB OR CRTSCTS)\<rparr>;
          tty = tty\<lparr>c_cflag := c_cflag tty AND NOT CSIZE\<rparr>;
          tty = tty\<lparr>c_cflag := c_cflag tty OR CS8\<rparr>
      in tty\<lparr>c_vmin := 0, c_vtime := 0\<rparr>)"

text \<open>What the code checks of the settings it reads back.\<close>

definition settings_ok :: "termios \<Rightarrow> bool" where
  "settings_ok t \<longleftrightarrow> c_cflag t AND CSIZE = CS8 \<and> c_cflag t AND (PARENB OR CSTOPB) = 0
     \<and> cfgetospeed t = MCU_BAUD"

definition claim_port :: "'k os \<Rightarrow> int \<Rightarrow> 'k world \<Rightarrow> int \<times> 'k world" where
  "claim_port os fd w =
     (case sys_ioctl_excl os fd w of
        (Inl e, w) \<Rightarrow> (- e, w)
      | (Inr _, w) \<Rightarrow>
          let w = sys_tcflush os fd w in
          (case sys_fcntl_setfl os fd 0 w of
             (Inl e, w) \<Rightarrow> (- e, w)
           | (Inr _, w) \<Rightarrow> (0, w)))"

definition configure_port :: "'k os \<Rightarrow> int \<Rightarrow> 'k world \<Rightarrow> int \<times> 'k world" where
  "configure_port os fd w =
     (case sys_tcgetattr os fd w of
        (Inl e, w) \<Rightarrow> (- e, w)
      | (Inr tty, w) \<Rightarrow>
          (case lib_cfsetispeed os (wanted_tty tty) MCU_BAUD of
             Inl e \<Rightarrow> (- e, w)
           | Inr tty \<Rightarrow>
               (case lib_cfsetospeed os tty MCU_BAUD of
                  Inl e \<Rightarrow> (- e, w)
                | Inr tty \<Rightarrow>
                    (case sys_tcsetattr os fd tty w of
                       (Inl e, w) \<Rightarrow> (- e, w)
                     | (Inr _, w) \<Rightarrow>
                         (case sys_tcgetattr os fd w of
                            (Inl e, w) \<Rightarrow> (- e, w)
                          | (Inr actual, w) \<Rightarrow>
                              if c_cflag actual AND CSIZE \<noteq> CS8 then (- EINVAL, w)
                              else if c_cflag actual AND (PARENB OR CSTOPB) \<noteq> 0 then (- EINVAL, w)
                              else if cfgetospeed actual \<noteq> MCU_BAUD then (- EINVAL, w)
                              else claim_port os fd w)))))"

definition uart_open :: "'k os \<Rightarrow> string \<Rightarrow> 'k world \<Rightarrow> int \<times> 'k world" where
  "uart_open os device_path w =
     (case sys_open os device_path (O_RDWR OR O_NOCTTY OR O_NONBLOCK) w of
        (Inl e, w) \<Rightarrow> (- e, w)
      | (Inr fd, w) \<Rightarrow>
          (case configure_port os fd w of
             (status, w) \<Rightarrow>
               if status \<noteq> 0 then (status, sys_close os fd w) else (fd, w)))"

definition uart_close :: "'k os \<Rightarrow> int \<Rightarrow> 'k world \<Rightarrow> 'k world" where
  "uart_close os fd w = (if fd < 0 then w else sys_close os fd w)"

section \<open>Reading\<close>

definition now_ms :: "'k os \<Rightarrow> 'k world \<Rightarrow> int \<times> 'k world" where
  "now_ms os w =
     (case sys_clock_gettime os w of
        (now, w) \<Rightarrow> (tv_sec now * 1000 + tv_nsec now sdiv 1000000, w))"

text \<open>
  One pass of the loop body: the value it returns, a \<open>continue\<close> after an interrupted call, or
  the bytes that \<open>read\<close> stored.
\<close>

datatype 'k read_pass = Return int "'k world" | Again "'k world" | Chunk "u8 list" "'k world"

definition read_pass :: "'k os \<Rightarrow> int \<Rightarrow> nat \<Rightarrow> int \<Rightarrow> 'k world \<Rightarrow> 'k read_pass" where
  "read_pass os fd remaining deadline_ms w =
     (let (now, w) = now_ms os w; time_left_ms = deadline_ms - now in
      if time_left_ms \<le> 0 then Return (- ETIMEDOUT) w
      else
        (case sys_poll os fd (c_int time_left_ms) w of
           (Inl e, w) \<Rightarrow> if e = EINTR then Again w else Return (- e) w
         | (Inr (ready, revents), w) \<Rightarrow>
             if ready = 0 then Return (- ETIMEDOUT) w
             else if revents AND POLLIN = 0 then Return (- ENOTCONN) w
             else
               (case sys_read os fd remaining w of
                  (Inl e, w) \<Rightarrow> if e = EINTR \<or> e = EAGAIN then Again w else Return (- e) w
                | (Inr bytes, w) \<Rightarrow>
                    if bytes = [] then Return (- ENOTCONN) w else Chunk bytes w)))"

partial_function (option) uart_read_loop ::
  "'k os \<Rightarrow> int \<Rightarrow> u8 list \<Rightarrow> nat \<Rightarrow> nat \<Rightarrow> int \<Rightarrow> nat \<Rightarrow> 'k world
   \<Rightarrow> (int \<times> u8 list \<times> 'k world) option" where
  "uart_read_loop os fd buf off len deadline_ms total_read w =
     (if \<not> total_read < len then Some (int total_read, buf, w)
      else
        (case read_pass os fd (len - total_read) deadline_ms w of
           Return r w \<Rightarrow> Some (r, buf, w)
         | Again w \<Rightarrow> uart_read_loop os fd buf off len deadline_ms total_read w
         | Chunk bytes w \<Rightarrow>
             (case poke_all buf (off + total_read) bytes of
                None \<Rightarrow> None
              | Some buf \<Rightarrow>
                  uart_read_loop os fd buf off len deadline_ms (total_read + length bytes) w)))"

definition uart_read ::
  "'k os \<Rightarrow> int \<Rightarrow> u8 list \<Rightarrow> nat \<Rightarrow> nat \<Rightarrow> int \<Rightarrow> 'k world \<Rightarrow> (int \<times> u8 list \<times> 'k world) option" where
  "uart_read os fd buf off len timeout_ms w =
     (case now_ms os w of
        (now, w) \<Rightarrow> uart_read_loop os fd buf off len (now + timeout_ms) 0 w)"

section \<open>Writing\<close>

text \<open>The kernel reads \<open>len - total_written\<close> bytes of the buffer: fewer is undefined.\<close>

partial_function (option) uart_write_loop ::
  "'k os \<Rightarrow> int \<Rightarrow> u8 list \<Rightarrow> nat \<Rightarrow> nat \<Rightarrow> 'k world \<Rightarrow> (int \<times> 'k world) option" where
  "uart_write_loop os fd buf len total_written w =
     (if \<not> total_written < len then Some (int total_written, w)
      else if length buf < len then None
      else
        (case sys_write os fd (take (len - total_written) (drop total_written buf)) w of
           (Inl e, w) \<Rightarrow>
             if e = EINTR then uart_write_loop os fd buf len total_written w else Some (- e, w)
         | (Inr k, w) \<Rightarrow> uart_write_loop os fd buf len (total_written + k) w))"

definition uart_write :: "'k os \<Rightarrow> int \<Rightarrow> u8 list \<Rightarrow> nat \<Rightarrow> 'k world \<Rightarrow> (int \<times> 'k world) option" where
  "uart_write os fd buf len w = uart_write_loop os fd buf len 0 w"

section \<open>What the calls promise\<close>

lemma now_ms_later: "posix os \<Longrightarrow> now_ms os w = (n, w') \<Longrightarrow> later w w' \<and> n = clk w'"
  by (auto simp: posix_def posix_clock_def now_ms_def ms_of_def split: prod.splits)

lemma poll_fails: "posix os \<Longrightarrow> sys_poll os fd t w = (Inl e, w') \<Longrightarrow> later w w' \<and> 0 < e \<and> e \<noteq> 110"
  by (fastforce simp: posix_def posix_poll_def)

lemma poll_ready:
  "posix os \<Longrightarrow> sys_poll os fd t w = (Inr (n, ev), w')
   \<Longrightarrow> later w w' \<and> 0 \<le> n \<and> (n = 0 \<longrightarrow> clk w + t \<le> clk w')"
  by (fastforce simp: posix_def posix_poll_def)

lemma read_fails: "posix os \<Longrightarrow> sys_read os fd n w = (Inl e, w') \<Longrightarrow> later w w' \<and> 0 < e \<and> e \<noteq> 110"
  by (fastforce simp: posix_def posix_read_def)

lemma read_yields:
  "posix os \<Longrightarrow> sys_read os fd n w = (Inr bs, w')
   \<Longrightarrow> length bs \<le> n \<and> rx w = bs @ rx w' \<and> later (w\<lparr>rx := rx w'\<rparr>) w'"
  by (fastforce simp: posix_def posix_read_def)

lemma write_fails: "posix os \<Longrightarrow> sys_write os fd bs w = (Inl e, w') \<Longrightarrow> later w w' \<and> 0 < e"
  by (fastforce simp: posix_def posix_write_def)

lemma write_accepts:
  "posix os \<Longrightarrow> sys_write os fd bs w = (Inr k, w')
   \<Longrightarrow> k \<le> length bs \<and> later (w\<lparr>tx := tx w @ take k bs\<rparr>) w'"
  by (fastforce simp: posix_def posix_write_def)


lemma interrupts_clock: "finite_interrupts os rank \<Longrightarrow> now_ms os w = (n, w') \<Longrightarrow> rank w' \<le> rank w"
  by (auto simp: finite_interrupts_def now_ms_def split: prod.splits)

lemma interrupts_poll:
  "finite_interrupts os rank \<Longrightarrow> sys_poll os fd t w = (r, w')
   \<Longrightarrow> rank w' \<le> rank w \<and> (r = Inl 4 \<longrightarrow> rank w' < rank w)"
  by (simp add: finite_interrupts_def)

lemma interrupts_read:
  "finite_interrupts os rank \<Longrightarrow> sys_read os fd n w = (r, w')
   \<Longrightarrow> rank w' \<le> rank w \<and> (r = Inl 4 \<or> r = Inl 11 \<longrightarrow> rank w' < rank w)"
  by (simp add: finite_interrupts_def)

lemma interrupts_write:
  "finite_interrupts os rank \<Longrightarrow> sys_write os fd bs w = (r, w')
   \<Longrightarrow> rank w' \<le> rank w \<and> (r = Inl 4 \<or> r = Inr 0 \<longrightarrow> rank w' < rank w)"
  by (simp add: finite_interrupts_def)


section \<open>One pass of the read loop\<close>

text \<open>The pass against the calls: what moved, and which of the three outcomes was reached.\<close>

lemma read_pass_Return:
  assumes "posix os" "read_pass os fd n D w = Return r w'"
  shows "later w w'" "r < 0" "r = - 110 \<Longrightarrow> D - clk w < 2 ^ 31 \<Longrightarrow> D \<le> clk w'"
proof -
  have "later w w' \<and> r < 0 \<and> (r = - 110 \<longrightarrow> D - clk w < 2 ^ 31 \<longrightarrow> D \<le> clk w')"
    using assms(2) unfolding read_pass_def Let_def
    by (auto split: prod.splits sum.splits if_splits dest!: now_ms_later [OF assms(1)]
          poll_fails [OF assms(1)] poll_ready [OF assms(1)] read_fails [OF assms(1)]
          read_yields [OF assms(1)] simp: later_iff c_int_id)
  then show "later w w'" "r < 0" "r = - 110 \<Longrightarrow> D - clk w < 2 ^ 31 \<Longrightarrow> D \<le> clk w'" by auto
qed

lemma read_pass_Again:
  assumes "posix os" "read_pass os fd n D w = Again w'"
  shows "later w w'"
  using assms(2) unfolding read_pass_def Let_def
  by (auto split: prod.splits sum.splits if_splits dest!: now_ms_later [OF assms(1)]
        poll_fails [OF assms(1)] poll_ready [OF assms(1)] read_fails [OF assms(1)] simp: later_iff)

lemma read_pass_Chunk:
  assumes "posix os" "read_pass os fd n D w = Chunk bs w'"
  shows "bs \<noteq> []" "length bs \<le> n" "rx w = bs @ rx w'" "later (w\<lparr>rx := rx w'\<rparr>) w'"
proof -
  have "bs \<noteq> [] \<and> length bs \<le> n \<and> rx w = bs @ rx w' \<and> later (w\<lparr>rx := rx w'\<rparr>) w'"
    using assms(2) unfolding read_pass_def Let_def
    by (auto split: prod.splits sum.splits if_splits dest!: now_ms_later [OF assms(1)]
          poll_ready [OF assms(1)] read_yields [OF assms(1)] simp: later_iff)
  then show "bs \<noteq> []" "length bs \<le> n" "rx w = bs @ rx w'" "later (w\<lparr>rx := rx w'\<rparr>) w'" by auto
qed

text \<open>An interrupted pass uses up some of the rank, a chunk none of it.\<close>

lemma read_pass_rank:
  assumes "finite_interrupts os rank"
  shows "read_pass os fd n D w = Again w' \<Longrightarrow> rank w' < rank w"
    and "read_pass os fd n D w = Chunk bs w' \<Longrightarrow> rank w' \<le> rank w"
  unfolding read_pass_def Let_def
  by (auto split: prod.splits sum.splits if_splits dest!: interrupts_clock [OF assms]
        interrupts_poll [OF assms] interrupts_read [OF assms])

text \<open>While the line delivers, no pass gives up.\<close>

lemma delivers_clock:
  assumes "delivers_by os D" "rx w \<noteq> []" "clk w < D" "now_ms os w = (n, w')"
  shows "clk w' < D"
proof -
  obtain ts where "sys_clock_gettime os w = (ts, w')"
    using assms(4) by (auto simp: now_ms_def split: prod.splits)
  then show ?thesis using assms(1-3) unfolding delivers_by_def by blast
qed

lemma read_pass_delivers:
  assumes "posix os" "delivers_by os D" "rx w \<noteq> []" "clk w < D" "0 < n" "D \<le> E"
  shows "(\<exists>w'. read_pass os fd n E w = Again w' \<and> clk w' < D)
       \<or> (\<exists>bs w'. read_pass os fd n E w = Chunk bs w' \<and> clk w' < D)"
proof -
  obtain now w1 where now: "now_ms os w = (now, w1)" by fastforce
  obtain r w2 where poll: "sys_poll os fd (c_int (E - now)) w1 = (r, w2)" by fastforce
  obtain r3 w3 where read: "sys_read os fd n w2 = (r3, w3)" by fastforce
  have w1: "later w w1" "now = clk w1" using now_ms_later [OF assms(1) now] by auto
  have c1: "clk w1 < D" "rx w1 \<noteq> []"
    using delivers_clock [OF assms(2-4) now] laterD [OF w1(1)] assms(3) by simp_all
  have c2: "clk w2 < D" and r: "r = Inl EINTR \<or> (\<exists>n ev. r = Inr (n, ev) \<and> 0 < n \<and> ev AND POLLIN \<noteq> 0)"
    using assms(2) c1 poll unfolding delivers_by_def by blast+
  have "later w1 w2" using r poll poll_fails [OF assms(1)] poll_ready [OF assms(1)] by blast
  then have "rx w2 \<noteq> []" using c1 by (simp add: later_iff)
  then have c3: "clk w3 < D" and r3: "r3 = Inl EINTR \<or> r3 = Inl EAGAIN \<or> (\<exists>bs. r3 = Inr bs \<and> bs \<noteq> [])"
    using assms(2,5) c2 read unfolding delivers_by_def by blast+
  show ?thesis
    using r r3 now poll read w1(2) c1(1) c2 c3 assms(6)
    by (elim disjE exE conjE) (simp_all add: read_pass_def)
qed

section \<open>The read loop\<close>

text \<open>\<open>took w buf off bs w' buf'\<close>: \<open>bs\<close> was taken off the line and stored at \<open>off\<close>.\<close>

definition took :: "'k world \<Rightarrow> u8 list \<Rightarrow> nat \<Rightarrow> u8 list \<Rightarrow> 'k world \<Rightarrow> u8 list \<Rightarrow> bool" where
  "took w buf off bs w' buf' \<longleftrightarrow>
     rx w = bs @ rx w' \<and> poke_all buf off bs = Some buf' \<and> later (w\<lparr>rx := rx w'\<rparr>) w'"

text \<open>
  \<open>read_contract w buf off n D (r, buf', w')\<close>: a read of \<open>n\<close> bytes into \<open>buf\<close> at \<open>off\<close> with
  deadline \<open>D\<close> took a prefix \<open>bs\<close> of what the line delivers and stored exactly that prefix.
  It took all \<open>n\<close> bytes if it succeeded and fewer if it failed, and it reports a timeout only
  once the clock has reached the deadline (for deadlines an \<open>int\<close> of milliseconds away).
\<close>

definition read_contract ::
  "'k world \<Rightarrow> u8 list \<Rightarrow> nat \<Rightarrow> nat \<Rightarrow> int \<Rightarrow> int \<times> u8 list \<times> 'k world \<Rightarrow> bool" where
  "read_contract w buf off n D res \<longleftrightarrow>
     (case res of (r, buf', w') \<Rightarrow>
        \<exists>bs. took w buf off bs w' buf'
           \<and> (if 0 \<le> r then length bs = n else length bs < n)
           \<and> (r = - ETIMEDOUT \<longrightarrow> D - clk w < 2 ^ 31 \<longrightarrow> D \<le> clk w'))"

lemma contract_done: "off \<le> length buf \<Longrightarrow> 0 \<le> r \<Longrightarrow> read_contract w buf off 0 D (r, buf, w)"
  by (auto simp: took_def read_contract_def poke_all_Nil later_iff)

lemma contract_fail:
  "later w w' \<Longrightarrow> r < 0 \<Longrightarrow> 0 < n \<Longrightarrow> off \<le> length buf
   \<Longrightarrow> (r = - 110 \<Longrightarrow> D - clk w < 2 ^ 31 \<Longrightarrow> D \<le> clk w')
   \<Longrightarrow> read_contract w buf off n D (r, buf, w')"
  by (auto simp: took_def read_contract_def poke_all_Nil later_iff)

lemma contract_later:
  "later w v \<Longrightarrow> read_contract v buf off n D res \<Longrightarrow> read_contract w buf off n D res"
  by (auto simp: took_def read_contract_def later_iff split: prod.splits)

lemma contract_chunk:
  assumes "rx w = bs @ rx v" "later (w\<lparr>rx := rx v\<rparr>) v" "poke_all buf off bs = Some buf1"
    and "length bs \<le> n" "read_contract v buf1 (off + length bs) (n - length bs) D res"
  shows "read_contract w buf off n D res"
proof -
  obtain r buf' w' where res: "res = (r, buf', w')" by (cases res)
  from assms(5) obtain cs where cs: "rx v = cs @ rx w'" "poke_all buf1 (off + length bs) cs = Some buf'"
    "later (v\<lparr>rx := rx w'\<rparr>) w'" "if 0 \<le> r then length cs = n - length bs else length cs < n - length bs"
    "r = - ETIMEDOUT \<longrightarrow> D - clk v < 2 ^ 31 \<longrightarrow> D \<le> clk w'"
    by (auto simp: took_def read_contract_def res)
  have "poke_all buf off (bs @ cs) = Some buf'"
    using assms(3) cs(2) by (rule poke_all_append)
  moreover have "later (w\<lparr>rx := rx w'\<rparr>) w'"
    using assms(2) cs(3) by (auto simp: later_iff)
  ultimately show ?thesis
    using assms(1,2,4) cs unfolding read_contract_def took_def res
    by (intro case_prodI exI [of _ "bs @ cs"]) (auto simp: later_iff split: if_splits)
qed


lemma uart_read_loop_contract:
  assumes "uart_read_loop os fd buf off len D tot w = Some res" "posix os"
    and "tot \<le> len" "off + len \<le> length buf"
  shows "read_contract w buf (off + tot) (len - tot) D res \<and> (0 \<le> fst res \<longrightarrow> fst res = int len)"
proof (rule uart_read_loop.raw_induct
    [where P = "\<lambda>os fd buf off len D tot w res. posix os \<longrightarrow> tot \<le> len \<longrightarrow> off + len \<le> length buf
       \<longrightarrow> read_contract w buf (off + tot) (len - tot) D res \<and> (0 \<le> fst res \<longrightarrow> fst res = int len)",
     OF _ assms(1), rule_format, OF _ assms(2-4)], goal_cases)
  case (1 f os fd buf off len D tot w res)
  note IH = 1(1) and eq = 1(2) and os = 1(3) and bounds = 1(4,5)
  show ?case
  proof (cases "tot < len")
    case False
    with eq bounds show ?thesis by (auto intro: contract_done)
  next
    case room: True
    show ?thesis
    proof (cases "read_pass os fd (len - tot) D w")
      case (Return r w')
      with eq room bounds read_pass_Return [OF os Return] show ?thesis by (auto intro!: contract_fail)
    next
      case (Again w')
      with eq room have "f os fd buf off len D tot w' = Some res" by simp
      from IH [OF this os bounds] read_pass_Again [OF os Again] show ?thesis
        by (blast intro: contract_later)
    next
      case (Chunk bs w')
      note c = read_pass_Chunk [OF os Chunk]
      have le: "tot + length bs \<le> len" using c(2) room by linarith
      then obtain buf' where buf': "poke_all buf (off + tot) bs = Some buf'"
        using bounds by (simp add: poke_all_in)
      with eq room Chunk have "f os fd buf' off len D (tot + length bs) w' = Some res" by simp
      from IH [OF this os le] have
        "read_contract w' buf' (off + tot + length bs) (len - tot - length bs) D res
         \<and> (0 \<le> fst res \<longrightarrow> fst res = int len)"
        using bounds poke_all_length [OF buf'] by (simp add: add.assoc)
      with c buf' show ?thesis by (blast intro: contract_chunk)
    qed
  qed
qed

lemma uart_read_loop_returns:
  assumes "posix os" "finite_interrupts os rank" and "tot \<le> len" "off + len \<le> length buf"
  shows "\<exists>res. uart_read_loop os fd buf off len D tot w = Some res"
  using assms(3,4)
proof (induction "rank w + (len - tot)" arbitrary: buf tot w rule: less_induct)
  case less
  show ?case
  proof (cases "tot < len")
    case False
    then show ?thesis by (subst uart_read_loop.simps) simp
  next
    case room: True
    show ?thesis
    proof (cases "read_pass os fd (len - tot) D w")
      case (Return r w')
      with room show ?thesis by (subst uart_read_loop.simps) simp
    next
      case (Again w')
      from read_pass_rank(1) [OF assms(2) this] less(1) [of w' tot buf] less(2,3) room Again show ?thesis
        by (subst uart_read_loop.simps) simp
    next
      case (Chunk bs w')
      note c = read_pass_Chunk [OF assms(1) Chunk] and rank = read_pass_rank(2) [OF assms(2) Chunk]
      have le: "tot + length bs \<le> len" using c(2) room by linarith
      then obtain buf' where buf': "poke_all buf (off + tot) bs = Some buf'"
        using less(3) by (simp add: poke_all_in)
      have "rank w' + (len - (tot + length bs)) < rank w + (len - tot)"
        using rank le c(1) by (cases bs) auto
      from less(1) [OF this le] less(3) poke_all_length [OF buf'] room Chunk buf' show ?thesis
        by (subst uart_read_loop.simps) simp
    qed
  qed
qed

lemma uart_read_loop_delivers:
  assumes "posix os" "finite_interrupts os rank" "delivers_by os D" "D \<le> E"
    and "tot \<le> len" "off + len \<le> length buf" "len - tot \<le> length (rx w)" "clk w < D"
  shows "\<exists>buf' w'. uart_read_loop os fd buf off len E tot w = Some (int len, buf', w') \<and> clk w' < D"
  using assms(5-)
proof (induction "rank w + (len - tot)" arbitrary: buf tot w rule: less_induct)
  case less
  show ?case
  proof (cases "tot < len")
    case False
    then show ?thesis using less(2-) by (subst uart_read_loop.simps) simp
  next
    case room: True
    then have "rx w \<noteq> []" "0 < len - tot" using less(4) by auto
    from read_pass_delivers [OF assms(1,3) this(1) less(5) this(2) assms(4)]
    consider w' where "read_pass os fd (len - tot) E w = Again w'" "clk w' < D"
      | bs w' where "read_pass os fd (len - tot) E w = Chunk bs w'" "clk w' < D" by blast
    then show ?thesis
    proof cases
      case (1 w')
      note l = read_pass_Again [OF assms(1) 1(1)]
      from read_pass_rank(1) [OF assms(2) 1(1)] less(1) [of w' tot buf] less(2-) l 1 room show ?thesis
        by (subst uart_read_loop.simps) (simp add: later_iff)
    next
      case (2 bs w')
      note c = read_pass_Chunk [OF assms(1) 2(1)] and rank = read_pass_rank(2) [OF assms(2) 2(1)]
      have le: "tot + length bs \<le> len" using c(2) room by linarith
      then obtain buf' where buf': "poke_all buf (off + tot) bs = Some buf'"
        using less(3) by (simp add: poke_all_in)
      have "rank w' + (len - (tot + length bs)) < rank w + (len - tot)"
        using rank le c(1) by (cases bs) auto
      from less(1) [OF this le] less(3-) c(3) poke_all_length [OF buf'] room 2 buf' show ?thesis
        by (subst uart_read_loop.simps) simp
    qed
  qed
qed

lemma contract_shift:
  "later w v \<Longrightarrow> read_contract v buf off n (clk v + t) res \<Longrightarrow> read_contract w buf off n (clk w + t) res"
  by (auto simp: took_def read_contract_def later_iff split: prod.splits)

lemma uart_read_contract:
  assumes "posix os" "uart_read os fd buf off len t w = Some res" "off + len \<le> length buf"
  shows "read_contract w buf off len (clk w + t) res \<and> (0 \<le> fst res \<longrightarrow> fst res = int len)"
proof -
  obtain now w1 where now: "now_ms os w = (now, w1)" by fastforce
  note l = now_ms_later [OF assms(1) now]
  from assms(2) now l have "uart_read_loop os fd buf off len (clk w1 + t) 0 w1 = Some res"
    by (simp add: uart_read_def)
  from uart_read_loop_contract [OF this assms(1) _ assms(3)] l contract_shift [of w w1] show ?thesis by simp
qed

lemma uart_read_returns:
  assumes "posix os" "finite_interrupts os rank" "off + len \<le> length buf"
  shows "\<exists>res. uart_read os fd buf off len t w = Some res"
  using uart_read_loop_returns [OF assms(1,2) _ assms(3)]
  by (cases "now_ms os w") (simp add: uart_read_def)

lemma uart_read_delivers:
  assumes "posix os" "finite_interrupts os rank" "delivers_by os D" "D \<le> clk w + t"
    and "off + len \<le> length buf" "len \<le> length (rx w)" "clk w < D" "0 < len"
  shows "\<exists>buf' w'. uart_read os fd buf off len t w = Some (int len, buf', w') \<and> clk w' < D"
proof -
  obtain now w1 where now: "now_ms os w = (now, w1)" by fastforce
  note l = now_ms_later [OF assms(1) now]
  have "rx w \<noteq> []" using assms(6,8) by auto
  then have "clk w1 < D" using delivers_clock [OF assms(3) _ assms(7) now] by simp
  with l assms show ?thesis
    using uart_read_loop_delivers [OF assms(1-3), of "clk w1 + t" 0 len off buf w1 fd] now
    by (simp add: uart_read_def later_iff)
qed

section \<open>The write loop\<close>

text \<open>
  \<open>write_contract w tot bs (r, w')\<close>: a write of \<open>bs\<close>, \<open>tot\<close> bytes of it already out, sent a
  further stretch; it sent all of it if it succeeded and stopped short if it failed.
\<close>

definition write_contract :: "'k world \<Rightarrow> nat \<Rightarrow> u8 list \<Rightarrow> int \<times> 'k world \<Rightarrow> bool" where
  "write_contract w tot bs res \<longleftrightarrow>
     (case res of (r, w') \<Rightarrow>
        \<exists>k. tot \<le> k \<and> k \<le> length bs \<and> later (w\<lparr>tx := tx w @ drop tot (take k bs)\<rparr>) w'
          \<and> (if 0 \<le> r then r = int (length bs) \<and> k = length bs else k < length bs))"

lemma later_tx:
  "later w v \<Longrightarrow> later (v\<lparr>tx := tx v @ bs\<rparr>) u \<Longrightarrow> later (w\<lparr>tx := tx w @ bs\<rparr>) u"
  by (auto simp: later_iff)

lemma write_contract_later:
  "later w v \<Longrightarrow> write_contract v tot bs res \<Longrightarrow> write_contract w tot bs res"
  unfolding write_contract_def by (cases res) (use later_tx in blast)

lemma write_contract_step:
  assumes "later (w\<lparr>tx := tx w @ take k (drop tot bs)\<rparr>) v" "tot + k \<le> length bs"
    and "write_contract v (tot + k) bs res"
  shows "write_contract w tot bs res"
proof -
  obtain r w' where res: "res = (r, w')" by (cases res)
  from assms(3) obtain m where m: "tot + k \<le> m" "m \<le> length bs"
    "later (v\<lparr>tx := tx v @ drop (tot + k) (take m bs)\<rparr>) w'"
    "if 0 \<le> r then r = int (length bs) \<and> m = length bs else m < length bs"
    by (auto simp: write_contract_def res)
  have "take (m - tot) (drop tot bs) = take k (drop tot bs) @ take (m - (tot + k)) (drop (tot + k) bs)"
    using take_add [of k "m - (tot + k)" "drop tot bs"] m(1) by (simp add: add.commute)
  then have "drop tot (take m bs) = take k (drop tot bs) @ drop (tot + k) (take m bs)"
    by (simp add: drop_take)
  with assms(1) m(3) have "later (w\<lparr>tx := tx w @ drop tot (take m bs)\<rparr>) w'"
    by (simp add: later_iff)
  moreover have "tot \<le> m" using m(1) by simp
  ultimately show ?thesis using m(2,4) unfolding write_contract_def res by blast
qed

lemma uart_write_loop_contract:
  assumes "uart_write_loop os fd buf len tot w = Some res" "posix os" "tot \<le> len" "len \<le> length buf"
  shows "write_contract w tot (take len buf) res"
proof (rule uart_write_loop.raw_induct
    [where P = "\<lambda>os fd buf len tot w res. posix os \<longrightarrow> tot \<le> len \<longrightarrow> len \<le> length buf
       \<longrightarrow> write_contract w tot (take len buf) res",
     OF _ assms(1), rule_format, OF _ assms(2-4)], goal_cases)
  case (1 f os fd buf len tot w res)
  note IH = 1(1) and eq = 1(2) and os = 1(3) and bounds = 1(4,5)
  show ?case
  proof (cases "tot < len")
    case False
    with eq bounds show ?thesis by (auto simp: write_contract_def later_iff)
  next
    case room: True
    obtain r w' where wr: "sys_write os fd (take (len - tot) (drop tot buf)) w = (r, w')" by fastforce
    show ?thesis
    proof (cases r)
      case (Inl e)
      note l = write_fails [OF os wr [unfolded Inl]]
      show ?thesis
      proof (cases "e = EINTR")
        case True
        with eq room bounds wr Inl have "f os fd buf len tot w' = Some res" by simp
        from IH [OF this os bounds] l show ?thesis by (blast intro: write_contract_later)
      next
        case False
        with eq room bounds wr Inl l show ?thesis
          by (auto simp: write_contract_def later_iff intro!: exI [of _ tot])
      qed
    next
      case (Inr k)
      note l = write_accepts [OF os wr [unfolded Inr]]
      have k: "tot + k \<le> len" using l room by simp linarith
      from eq room bounds wr Inr have "f os fd buf len (tot + k) w' = Some res" by simp
      from IH [OF this os k bounds(2)] have "write_contract w' (tot + k) (take len buf) res" .
      moreover have "tot + k \<le> length (take len buf)" using k bounds by simp
      moreover have "later (w\<lparr>tx := tx w @ take k (drop tot (take len buf))\<rparr>) w'"
        using l by (auto simp: drop_take min_absorb1)
      ultimately show ?thesis by (blast intro: write_contract_step)
    qed
  qed
qed

lemma uart_write_contract:
  "posix os \<Longrightarrow> uart_write os fd buf len w = Some res \<Longrightarrow> len \<le> length buf
   \<Longrightarrow> write_contract w 0 (take len buf) res"
  unfolding uart_write_def by (drule uart_write_loop_contract) auto

lemma uart_write_loop_returns:
  assumes "posix os" "finite_interrupts os rank" "tot \<le> len" "len \<le> length buf"
  shows "\<exists>res. uart_write_loop os fd buf len tot w = Some res"
  using assms(3)
proof (induction "rank w + (len - tot)" arbitrary: tot w rule: less_induct)
  case less
  obtain r w' where wr: "sys_write os fd (take (len - tot) (drop tot buf)) w = (r, w')" by fastforce
  note rank = interrupts_write [OF assms(2) wr]
  show ?case
  proof (cases "tot < len")
    case False
    then show ?thesis by (subst uart_write_loop.simps) simp
  next
    case room: True
    show ?thesis
    proof (cases r)
      case (Inl e)
      then have "\<exists>res. uart_write_loop os fd buf len tot w' = Some res" if "e = EINTR"
        using less(1) [of w' tot] less(2) rank that by auto
      with room wr Inl assms(4) show ?thesis
        by (subst uart_write_loop.simps) (cases "e = EINTR"; simp)
    next
      case (Inr k)
      have k: "tot + k \<le> len"
        using write_accepts [OF assms(1) wr [unfolded Inr]] room by simp linarith
      moreover have "rank w' + (len - (tot + k)) < rank w + (len - tot)"
        using rank Inr k room by (cases k) auto
      ultimately show ?thesis using less(1) room wr Inr assms(4)
        by (subst uart_write_loop.simps) simp
    qed
  qed
qed

lemma uart_write_loop_accepts:
  assumes "posix os" "finite_interrupts os rank" "accepts_by os D" "tot \<le> len" "len \<le> length buf" "clk w < D"
  shows "\<exists>w'. uart_write_loop os fd buf len tot w = Some (int len, w') \<and> clk w' < D"
  using assms(4,6)
proof (induction "rank w + (len - tot)" arbitrary: tot w rule: less_induct)
  case less
  let ?bs = "take (len - tot) (drop tot buf)"
  obtain r w' where wr: "sys_write os fd ?bs w = (r, w')" by fastforce
  note rank = interrupts_write [OF assms(2) wr]
  show ?case
  proof (cases "tot < len")
    case False
    with less(2,3) show ?thesis by (subst uart_write_loop.simps) simp
  next
    case room: True
    then have "?bs \<noteq> []" using assms(5) by simp
    with wr less(3) have c: "clk w' < D" and "r = Inl EINTR \<or> (\<exists>k. r = Inr k)"
      using assms(3) unfolding accepts_by_def by blast+
    then consider "r = Inl EINTR" | k where "r = Inr k" by blast
    then show ?thesis
    proof cases
      case 1
      then have "\<exists>v. uart_write_loop os fd buf len tot w' = Some (int len, v) \<and> clk v < D"
        using less(1) [of w' tot] less(2) rank c by auto
      with room wr 1 assms(5) show ?thesis by (subst uart_write_loop.simps) simp
    next
      case (2 k)
      have k: "tot + k \<le> len"
        using write_accepts [OF assms(1) wr [unfolded 2]] room by simp linarith
      moreover have "rank w' + (len - (tot + k)) < rank w + (len - tot)"
        using rank 2 k room by (cases k) auto
      ultimately show ?thesis using less(1) room wr 2 assms(5) c
        by (subst uart_write_loop.simps) simp
    qed
  qed
qed

section \<open>Opening and closing the port\<close>

definition port_kept :: "'k world \<Rightarrow> 'k world \<Rightarrow> bool" where
  "port_kept w w' \<longleftrightarrow> tx w' = tx w \<and> clk w \<le> clk w' \<and> fds w' = fds w \<and> heap w' = heap w
     \<and> suffix (rx w') (rx w)"

lemma port_kept_refl: "port_kept w w"
  by (simp add: port_kept_def)

lemma port_kept_trans [trans]: "port_kept u v \<Longrightarrow> port_kept v w \<Longrightarrow> port_kept u w"
  by (auto simp: port_kept_def intro: suffix_order.trans)

lemma later_kept: "later w w' \<Longrightarrow> port_kept w w'"
  by (auto simp: port_kept_def later_iff)

lemma getattr_says:
  "posix os \<Longrightarrow> sys_tcgetattr os fd w = (r, w')
   \<Longrightarrow> later w w' \<and> (case r of Inl e \<Rightarrow> 0 < e | Inr t \<Rightarrow> t = port_tty w')"
  by (simp add: posix_def posix_termios_def)

lemma setattr_does:
  "posix os \<Longrightarrow> sys_tcsetattr os fd t w = (r, w')
   \<Longrightarrow> later (w\<lparr>port_tty := port_tty w'\<rparr>) w' \<and> (case r of Inl e \<Rightarrow> 0 < e | Inr _ \<Rightarrow> True)"
  by (simp add: posix_def posix_termios_def)

lemma speed_fails:
  "posix os \<Longrightarrow> lib_cfsetispeed os t s = Inl e \<Longrightarrow> 0 < e"
  "posix os \<Longrightarrow> lib_cfsetospeed os t s = Inl e \<Longrightarrow> 0 < e"
  by (simp_all add: posix_def posix_termios_def)

lemma claim_port_does:
  assumes "posix os" "claim_port os fd w = (s, w')"
  shows "port_kept w w' \<and> s \<le> 0 \<and> (s = 0 \<longrightarrow> port_tty w' = port_tty w \<and> excl w' \<and> \<not> nonblock w')"
proof -
  obtain r1 w1 where ex: "sys_ioctl_excl os fd w = (r1, w1)" by fastforce
  define w2 where "w2 = sys_tcflush os fd w1"
  obtain r3 w3 where fl: "sys_fcntl_setfl os fd 0 w2 = (r3, w3)" by fastforce
  have ex': "case r1 of Inl e \<Rightarrow> 0 < e \<and> later w w1 | Inr _ \<Rightarrow> later (w\<lparr>excl := True\<rparr>) w1"
    using assms(1) ex by (simp add: posix_def posix_port_def)
  have flush: "suffix (rx w2) (rx w1) \<and> later (w1\<lparr>rx := rx w2\<rparr>) w2"
    using assms(1) by (simp add: posix_def posix_port_def w2_def suffix_def)
  have fl': "case r3 of Inl e \<Rightarrow> 0 < e \<and> later w2 w3 | Inr _ \<Rightarrow> later (w2\<lparr>nonblock := False\<rparr>) w3"
  proof -
    have "case r3 of Inl e \<Rightarrow> 0 < e \<and> later w2 w3 | Inr _ \<Rightarrow> later (w2\<lparr>nonblock := (0 AND O_NONBLOCK \<noteq> 0)\<rparr>) w3"
      using assms(1) fl unfolding posix_def posix_port_def by blast
    then show ?thesis by (cases r3) simp_all
  qed
  show ?thesis
    using assms(2) ex ex' flush fl fl'
    by (auto simp: claim_port_def port_kept_def later_iff w2_def [symmetric] split: sum.splits)
qed

lemma configure_port_does:
  assumes "posix os" "configure_port os fd w = (s, w')"
  shows "port_kept w w' \<and> s \<le> 0
    \<and> (s = 0 \<longrightarrow> settings_ok (port_tty w') \<and> excl w' \<and> \<not> nonblock w')"
proof -
  have set: "port_kept w w'" if "later (w\<lparr>port_tty := port_tty w'\<rparr>) w'" for w w' :: "'a world"
    using that by (auto simp: port_kept_def later_iff)
  show ?thesis
    using assms(2) unfolding configure_port_def
    by (auto split: prod.splits sum.splits if_splits
        dest!: getattr_says [OF assms(1)] setattr_does [OF assms(1)] speed_fails [OF assms(1)]
          claim_port_does [OF assms(1)] later_kept set
        intro: port_kept_trans simp: settings_ok_def)
qed

lemma uart_open_does:
  assumes "posix os" "uart_open os p w = (r, w')"
  shows "tx w' = tx w \<and> heap w' = heap w \<and> suffix (rx w') (rx w) \<and> clk w \<le> clk w'
    \<and> (if 0 \<le> r then r \<notin> fds w \<and> fds w' = insert r (fds w)
         \<and> settings_ok (port_tty w') \<and> excl w' \<and> \<not> nonblock w'
       else fds w' = fds w)"
proof -
  obtain r1 w1 where op: "sys_open os p (O_RDWR OR O_NOCTTY OR O_NONBLOCK) w = (r1, w1)" by fastforce
  have op': "case r1 of Inl e \<Rightarrow> 0 < e \<and> later w w1
    | Inr fd \<Rightarrow> 0 \<le> fd \<and> fd \<notin> fds w \<and> tx w1 = tx w \<and> heap w1 = heap w \<and> rx w1 = rx w \<and> clk w \<le> clk w1
        \<and> fds w1 = insert fd (fds w)"
    using assms(1) op unfolding posix_def posix_open_def by (fastforce simp: later_iff split: sum.splits)
  have cl: "later (w\<lparr>fds := fds w - {fd}\<rparr>) (sys_close os fd w)" for fd w
    using assms(1) by (simp add: posix_def posix_close_def)
  show ?thesis
  proof (cases r1)
    case (Inl e)
    with assms(2) op op' show ?thesis by (auto simp: uart_open_def later_iff)
  next
    case (Inr fd)
    obtain s w2 where cfg: "configure_port os fd w1 = (s, w2)" by fastforce
    from configure_port_does [OF assms(1) cfg] Inr op op' cfg assms(2) cl [of w2 fd]
    show ?thesis by (auto simp: uart_open_def later_iff port_kept_def split: if_splits)
  qed
qed

lemma uart_close_does:
  assumes "posix os"
  shows "later (w\<lparr>fds := fds w - (if fd < 0 then {} else {fd})\<rparr>) (uart_close os fd w)"
  using assms by (simp add: uart_close_def posix_def posix_close_def)

lemma masked: "(x AND NOT m OR k) AND m = k AND (m :: 'a::len word)"
  by (auto simp: bit_eq_iff bit_simps)
lemma line_flags_masked: "(x AND - 2147484017 OR 48) AND 2147484016 = (48 :: u32)"
  using masked [of x "0x80000170" "0x30"] by simp

lemma wanted_tty_raw:
  "c_cflag (wanted_tty t) AND (CSIZE OR CSTOPB OR PARENB OR CRTSCTS) = CS8
   \<and> c_oflag (wanted_tty t) AND 1 = 0 \<and> c_lflag (wanted_tty t) AND 0x804B = 0
   \<and> c_vmin (wanted_tty t) = 0 \<and> c_vtime (wanted_tty t) = 0"
  by (simp add: wanted_tty_def cfmakeraw_def Let_def line_flags_masked and.assoc)

section \<open>The interface of the readers\<close>

text \<open>
  What a caller relies on in a read that shares a deadline with others. \<open>due t w\<close> is the
  deadline a call with time argument \<open>t\<close> works to when it starts in \<open>w\<close>; \<open>ok\<close> and \<open>expired\<close>
  classify its result. Provided by \<open>uart_read\<close> (relative timeout, result a count or a
  negative errno) and, one layer up, by \<open>read_exactly\<close> (absolute deadline, status codes).
\<close>

locale timed_reader =
  fixes rd :: "'k os \<Rightarrow> int \<Rightarrow> u8 list \<Rightarrow> nat \<Rightarrow> nat \<Rightarrow> int \<Rightarrow> 'k world \<Rightarrow> ('r \<times> u8 list \<times> 'k world) option"
    and ok :: "'r \<Rightarrow> bool"
    and expired :: "'r \<Rightarrow> bool"
    and due :: "int \<Rightarrow> 'k world \<Rightarrow> int"
  assumes reads: "posix os \<Longrightarrow> rd os fd buf off n t w = Some (r, buf', w') \<Longrightarrow> off + n \<le> length buf \<Longrightarrow> 0 < n
      \<Longrightarrow> \<exists>bs. took w buf off bs w' buf' \<and> (if ok r then length bs = n else length bs < n)
           \<and> (expired r \<longrightarrow> due t w - clk w < 2 ^ 31 \<longrightarrow> due t w \<le> clk w')"
    and returns: "posix os \<Longrightarrow> finite_interrupts os rank \<Longrightarrow> off + n \<le> length buf
      \<Longrightarrow> \<exists>res. rd os fd buf off n t w = Some res"
    and delivers: "posix os \<Longrightarrow> finite_interrupts os rank \<Longrightarrow> delivers_by os D \<Longrightarrow> D \<le> due t w
      \<Longrightarrow> due t w - clk w < 2 ^ 31 \<Longrightarrow> off + n \<le> length buf \<Longrightarrow> n \<le> length (rx w) \<Longrightarrow> clk w < D \<Longrightarrow> 0 < n
      \<Longrightarrow> \<exists>r buf' w'. rd os fd buf off n t w = Some (r, buf', w') \<and> ok r \<and> clk w' < D"
begin

lemma quiet:
  assumes "posix os" "rd os fd buf off n t w = Some (r, buf', w')" "off + n \<le> length buf" "0 < n"
  shows "later (w\<lparr>rx := rx w'\<rparr>) w' \<and> length buf' = length buf \<and> suffix (rx w') (rx w)"
  using reads [OF assms] poke_all_length by (force simp: took_def suffix_def)

lemma got:
  assumes "posix os" "rd os fd buf off n t w = Some (r, buf', w')" "off + n \<le> length buf" "ok r" "0 < n"
  shows "rx w' = drop n (rx w) \<and> n \<le> length (rx w)
       \<and> buf' = take off buf @ take n (rx w) @ drop (off + n) buf"
  using reads [OF assms(1-3,5)] assms(3,4) by (auto simp: took_def poke_all_def)

lemma delivered:
  assumes "posix os" "finite_interrupts os rank" "delivers_by os D" "D \<le> due t w" "due t w - clk w < 2 ^ 31"
    and "off + n \<le> length buf" "n \<le> length (rx w)" "clk w < D" "0 < n"
  shows "\<exists>r w'. rd os fd buf off n t w = Some (r, take off buf @ take n (rx w) @ drop (off + n) buf, w')
       \<and> ok r \<and> clk w' < D \<and> rx w' = drop n (rx w)"
proof -
  from delivers [OF assms] obtain r buf' w' where
    rd: "rd os fd buf off n t w = Some (r, buf', w')" "ok r" "clk w' < D" by blast
  from got [OF assms(1) rd(1) assms(6) rd(2) assms(9)] have
    "rx w' = drop n (rx w)" "buf' = take off buf @ take n (rx w) @ drop (off + n) buf"
    by simp_all
  with rd show ?thesis by blast
qed

end

interpretation uart: timed_reader uart_read "\<lambda>r. 0 \<le> r" "\<lambda>r. r = - ETIMEDOUT" "\<lambda>t w. clk w + t"
proof (unfold_locales, goal_cases)
  case (1 os fd buf off n t w r buf' w')
  from uart_read_contract [OF this(1-3)] show ?case by (simp add: read_contract_def)
next
  case (2 os rank off n buf fd t w)
  then show ?case by (rule uart_read_returns)
next
  case (3 os rank D t w off n buf fd)
  from uart_read_delivers [OF 3(1-4,6-9)] show ?case by fastforce
qed

section \<open>Properties\<close>

text \<open>C9. \<open>uart_read\<close> returns, whatever the line does, if only finitely many calls are interrupted.
  It takes a prefix \<open>bs\<close> of what the line delivers and stores exactly that prefix at the given
  offset: all \<open>n\<close> bytes if it succeeds, fewer if it fails. It touches nothing else, and it
  reports a timeout only when the deadline has passed.\<close>

theorem uart_read_correct:
  assumes "posix os" "finite_interrupts os rank" "off + n \<le> length buf" "t < 2 ^ 31"
  shows "\<exists>r buf' w' bs. uart_read os fd buf off n t w = Some (r, buf', w')
      \<and> rx w = bs @ rx w' \<and> buf' = take off buf @ bs @ drop (off + length bs) buf
      \<and> later (w\<lparr>rx := rx w'\<rparr>) w'
      \<and> (if 0 \<le> r then r = int n \<and> length bs = n else length bs < n)
      \<and> (r = - ETIMEDOUT \<longrightarrow> clk w + t \<le> clk w')"
proof -
  from uart_read_returns [OF assms(1-3)] obtain r buf' w' where
    rd: "uart_read os fd buf off n t w = Some (r, buf', w')" by fastforce
  with uart_read_contract [OF assms(1) rd assms(3)] assms(4) show ?thesis
    by (fastforce simp: read_contract_def took_def poke_all_def split: if_splits)
qed

theorem uart_read_correct_witness:
  "\<exists>r buf' w' bs. uart_read demo_os 3 [0, 0, 0, 0] 1 2 50 (demo_world [7, 8, 9] 1) = Some (r, buf', w')
      \<and> rx (demo_world [7, 8, 9] 1) = bs @ rx w' \<and> buf' = take 1 [0, 0, 0, 0] @ bs @ drop (1 + length bs) [0, 0, 0, 0]
      \<and> later ((demo_world [7, 8, 9] 1)\<lparr>rx := rx w'\<rparr>) w'
      \<and> (if 0 \<le> r then r = int 2 \<and> length bs = 2 else length bs < 2)
      \<and> (r = - ETIMEDOUT \<longrightarrow> clk (demo_world [7, 8, 9] 1) + 50 \<le> clk w')"
  by (rule uart_read_correct [OF posix_demo finite_interrupts_demo]) simp_all

text \<open>C23. A read whose bytes the line delivers in time succeeds: if \<open>n\<close> bytes are coming before \<open>D\<close>
  and the timeout does not expire earlier, it returns \<open>n\<close> with exactly the next \<open>n\<close> bytes,
  however they are cut into chunks and however often it is interrupted.\<close>

theorem uart_read_gets_delivered:
  assumes "posix os" "finite_interrupts os rank" "delivers_by os D" "D \<le> clk w + t" "t < 2 ^ 31"
    and "off + n \<le> length buf" "n \<le> length (rx w)" "clk w < D" "0 < n"
  shows "\<exists>w'. uart_read os fd buf off n t w
      = Some (int n, take off buf @ take n (rx w) @ drop (off + n) buf, w') \<and> rx w' = drop n (rx w) \<and> clk w' < D"
proof -
  have "clk w + t - clk w < 2 ^ 31" using assms(5) by simp
  from uart.delivered [OF assms(1-4) this assms(6-9), of fd] obtain r w' where
    rd: "uart_read os fd buf off n t w = Some (r, take off buf @ take n (rx w) @ drop (off + n) buf, w')"
    and w': "0 \<le> r" "clk w' < D" "rx w' = drop n (rx w)" by blast
  from uart_read_contract [OF assms(1) rd assms(6)] w'(1) have "r = int n" by simp
  with rd w' show ?thesis by blast
qed

theorem uart_read_gets_delivered_witness:
  "\<exists>w'. uart_read demo_os 3 [0, 0, 0] 0 2 50 (demo_world [7, 8, 9] 2)
      = Some (int 2, take 0 [0, 0, 0] @ take 2 (rx (demo_world [7, 8, 9] 2)) @ drop (0 + 2) [0, 0, 0], w')
      \<and> rx w' = drop 2 (rx (demo_world [7, 8, 9] 2)) \<and> clk w' < 40"
  by (rule uart_read_gets_delivered [OF posix_demo finite_interrupts_demo delivers_by_demo])
     (simp_all add: demo_world_def)

text \<open>C24. \<open>uart_write\<close> returns under the same condition. It sends a prefix of the first \<open>n\<close> bytes
  of the buffer, all of them and nothing else if it succeeds and a proper prefix if it fails.\<close>

theorem uart_write_correct:
  assumes "posix os" "finite_interrupts os rank" "n \<le> length buf"
  shows "\<exists>r w' k. uart_write os fd buf n w = Some (r, w') \<and> k \<le> n
      \<and> later (w\<lparr>tx := tx w @ take k buf\<rparr>) w' \<and> (if 0 \<le> r then r = int n \<and> k = n else k < n)"
proof -
  from uart_write_loop_returns [OF assms(1,2) _ assms(3), of 0 fd w] obtain r w' where
    wr: "uart_write os fd buf n w = Some (r, w')" by (fastforce simp: uart_write_def)
  from uart_write_contract [OF assms(1) wr assms(3)] obtain k where
    "k \<le> n" "later (w\<lparr>tx := tx w @ take k buf\<rparr>) w'" "if 0 \<le> r then r = int n \<and> k = n else k < n"
    using assms(3) by (auto simp: write_contract_def min_absorb1 min_absorb2 split: if_splits)
  with wr show ?thesis by blast
qed

theorem uart_write_correct_witness:
  "\<exists>r w' k. uart_write demo_os 3 [1, 2, 3, 4, 5, 6] 5 (demo_world [] 0) = Some (r, w') \<and> k \<le> 5
      \<and> later ((demo_world [] 0)\<lparr>tx := tx (demo_world [] 0) @ take k [1, 2, 3, 4, 5, 6]\<rparr>) w'
      \<and> (if 0 \<le> r then r = int 5 \<and> k = 5 else k < 5)"
  by (rule uart_write_correct [OF posix_demo finite_interrupts_demo]) simp

text \<open>C25. \<open>uart_open\<close> hands out a descriptor only for a port that reads back as 8 data bits, no
  parity, one stop bit at the MCU's rate, claimed exclusively and back in blocking mode; if it
  fails it returns a negative errno and leaves no descriptor open. Nothing is sent either way.\<close>

theorem uart_open_correct:
  assumes "posix os" "uart_open os path w = (r, w')"
  shows "tx w' = tx w \<and> heap w' = heap w
      \<and> (if 0 \<le> r then r \<notin> fds w \<and> fds w' = insert r (fds w) \<and> settings_ok (port_tty w') \<and> excl w' \<and> \<not> nonblock w'
         else fds w' = fds w)"
  using uart_open_does [OF assms] by auto

theorem uart_open_correct_witness:
  "tx (snd (uart_open demo_os ''/dev/ttyUSB0'' (demo_world [] 0))) = [] \<and> fst (uart_open demo_os ''/dev/ttyUSB0'' (demo_world [] 0)) = 3
   \<and> settings_ok (port_tty (snd (uart_open demo_os ''/dev/ttyUSB0'' (demo_world [] 0))))"
proof -
  have r: "fst (uart_open demo_os ''/dev/ttyUSB0'' (demo_world [] 0)) = 3" by code_simp
  from uart_open_correct [OF posix_demo, of "''/dev/ttyUSB0''" "demo_world [] 0"
      "fst (uart_open demo_os ''/dev/ttyUSB0'' (demo_world [] 0))" "snd (uart_open demo_os ''/dev/ttyUSB0'' (demo_world [] 0))"] r
  show ?thesis by (simp add: demo_world_def)
qed

text \<open>The settings \<open>configure_port\<close> asks for are raw: 8 data bits, no parity, one stop bit, no
  hardware flow control, no output processing, no line editing, echo or signals, and reads that
  return at once.\<close>

theorem wanted_settings_raw:
  "c_cflag (wanted_tty t) AND (CSIZE OR CSTOPB OR PARENB OR CRTSCTS) = CS8
   \<and> c_oflag (wanted_tty t) AND 1 = 0 \<and> c_lflag (wanted_tty t) AND 0x804B = 0
   \<and> c_vmin (wanted_tty t) = 0 \<and> c_vtime (wanted_tty t) = 0"
  using wanted_tty_raw by blast

section \<open>What the check of the settings lets through\<close>

definition char_format :: "termios \<Rightarrow> u32" where
  "char_format t = c_cflag t AND (CSIZE OR PARENB OR CSTOPB)"

text \<open>
  A driver that applies the settings asked for but leaves the control flags \<open>extra\<close> on, which
  termios(3) allows a successful \<open>tcsetattr\<close> to do; every call succeeds, and the speed calls keep
  the character format.
\<close>

definition leaves_on :: "'k os \<Rightarrow> u32 \<Rightarrow> bool" where
  "leaves_on os extra \<longleftrightarrow>
     (\<forall>t s. \<exists>t'. lib_cfsetispeed os t s = Inr t' \<and> char_format t' = char_format t)
   \<and> (\<forall>t s. \<exists>t'. lib_cfsetospeed os t s = Inr t' \<and> char_format t' = char_format t \<and> c_ospeed t' = s)
   \<and> (\<forall>fd w. \<exists>t w'. sys_tcgetattr os fd w = (Inr t, w'))
   \<and> (\<forall>fd t w. \<exists>w'. sys_tcsetattr os fd t w = (Inr (), w')
        \<and> c_cflag (port_tty w') = c_cflag t OR extra \<and> c_ospeed (port_tty w') = c_ospeed t)
   \<and> (\<forall>fd w. \<exists>w'. sys_ioctl_excl os fd w = (Inr (), w'))
   \<and> (\<forall>fd flags w. \<exists>w'. sys_fcntl_setfl os fd flags w = (Inr (), w'))"

lemma masked_part: "c AND m = k \<Longrightarrow> m AND n = n \<Longrightarrow> c AND n = k AND (n :: u32)"
  by (metis and.assoc)

lemma wanted_char_format: "char_format (wanted_tty t) = CS8"
  using masked_part [OF conjunct1 [OF wanted_tty_raw [of t]], of "0x170"] by (simp add: char_format_def)

lemma claim_port_succeeds:
  assumes "leaves_on os extra"
  shows "\<exists>w'. claim_port os fd w = (0, w')"
proof -
  obtain w1 where w1: "sys_ioctl_excl os fd w = (Inr (), w1)" using assms unfolding leaves_on_def by blast
  obtain w2 where "sys_fcntl_setfl os fd 0 (sys_tcflush os fd w1) = (Inr (), w2)" using assms unfolding leaves_on_def by blast
  with w1 show ?thesis by (simp add: claim_port_def)
qed

lemma flags_checked:
  assumes "c AND (CSIZE OR PARENB OR CSTOPB) = CS8"
  shows "(c OR extra) AND CSIZE = CS8" "(c OR extra) AND (PARENB OR CSTOPB) = extra AND (PARENB OR CSTOPB)"
proof -
  have c: "c AND CSIZE = CSIZE" "c AND (PARENB OR CSTOPB) = 0"
    using masked_part [OF assms, of "0x30"] masked_part [OF assms, of "0x140"] by simp_all
  have "(c OR extra) AND CSIZE = CSIZE OR (extra AND CSIZE)"
    unfolding bit.conj_disj_distrib2 c(1) ..
  also have "\<dots> = CSIZE" by (auto simp: bit_eq_iff bit_simps simp del: CSIZE_def)
  finally show "(c OR extra) AND CSIZE = CS8" by simp
  show "(c OR extra) AND (PARENB OR CSTOPB) = extra AND (PARENB OR CSTOPB)"
    unfolding bit.conj_disj_distrib2 c(2) by simp
qed

lemma configure_port_leaves_on:
  assumes os: "posix os" and drv: "leaves_on os extra"
  shows "\<exists>s w'. configure_port os fd w = (s, w') \<and>
    (if extra AND (PARENB OR CSTOPB) = 0 then s = 0 \<and> c_cflag (port_tty w') AND extra = extra else s = - EINVAL)"
proof -
  obtain t w1 where get: "sys_tcgetattr os fd w = (Inr t, w1)" using drv unfolding leaves_on_def by blast
  obtain t1 where sp: "lib_cfsetispeed os (wanted_tty t) MCU_BAUD = Inr t1" "char_format t1 = CS8"
    using drv wanted_char_format unfolding leaves_on_def by metis
  obtain t2 where so: "lib_cfsetospeed os t1 MCU_BAUD = Inr t2" "char_format t2 = CS8" "c_ospeed t2 = MCU_BAUD"
    using drv sp(2) unfolding leaves_on_def by metis
  obtain w2 where set: "sys_tcsetattr os fd t2 w1 = (Inr (), w2)" "c_cflag (port_tty w2) = c_cflag t2 OR extra"
      "c_ospeed (port_tty w2) = MCU_BAUD"
    using drv so(3) unfolding leaves_on_def by metis
  obtain t3 w3 where again: "sys_tcgetattr os fd w2 = (Inr t3, w3)" using drv unfolding leaves_on_def by blast
  have t3: "t3 = port_tty w2" "port_tty w3 = port_tty w2"
    using getattr_says [OF os again] by (simp_all add: later_iff)
  obtain w4 where claim: "claim_port os fd w3 = (0, w4)" using claim_port_succeeds [OF drv] by blast
  have "port_tty w4 = port_tty w3" using claim_port_does [OF os claim] by simp
  then have kept: "c_cflag (port_tty w4) = c_cflag t2 OR extra" by (simp add: t3 set(2))
  have "(c_cflag t2 OR extra) AND extra = extra" by (auto simp: bit_eq_iff bit_simps)
  moreover have "configure_port os fd w = (if extra AND (PARENB OR CSTOPB) \<noteq> 0 then (- EINVAL, w3) else (0, w4))"
    unfolding configure_port_def get prod.case sum.case sp(1) so(1) set(1) again claim
    by (simp only: t3(1) set(2,3) flags_checked [OF so(2) [unfolded char_format_def]] cfgetospeed_def simp_thms if_False)
  ultimately show ?thesis using kept by simp
qed

text \<open>C35. What the check of the settings read back catches and what it does not: on a driver that leaves
  the control flags \<open>extra\<close> on, \<open>uart_open\<close> fails with EINVAL and no descriptor left exactly if a
  parity or stop bit flag is among them; any other flag, hardware flow control included although
  the code asks for none, is still on in the port it hands out.\<close>

theorem uart_open_leaves_flags:
  assumes "posix os" "leaves_on os extra"
    and "sys_open os path (O_RDWR OR O_NOCTTY OR O_NONBLOCK) w = (Inr fd, v)"
  shows "\<exists>r w'. uart_open os path w = (r, w')
     \<and> (if extra AND (PARENB OR CSTOPB) = 0
        then r = fd \<and> fd \<in> fds w' \<and> c_cflag (port_tty w') AND extra = extra
        else r = - EINVAL \<and> fds w' = fds w)"
proof -
  obtain s u where cfg: "configure_port os fd v = (s, u)"
    and s: "if extra AND (PARENB OR CSTOPB) = 0 then s = 0 \<and> c_cflag (port_tty u) AND extra = extra else s = - EINVAL"
    using configure_port_leaves_on [OF assms(1,2)] by metis
  obtain r w' where run: "uart_open os path w = (r, w')" by fastforce
  have fd: "0 \<le> fd" using assms(1,3) unfolding posix_def posix_open_def by fastforce
  have "if s = 0 then r = fd \<and> w' = u else r = s"
    using run unfolding uart_open_def assms(3) prod.case sum.case cfg by (simp split: if_splits)
  with s fd uart_open_does [OF assms(1) run] show ?thesis
    unfolding run by (cases "extra AND (PARENB OR CSTOPB) = 0") auto
qed

theorem uart_open_leaves_flags_witness:
  "\<exists>r w'. uart_open rtscts_os ''/dev/ttyUSB0'' (demo_world [] 0) = (r, w')
     \<and> r = 3 \<and> 3 \<in> fds w' \<and> c_cflag (port_tty w') AND CRTSCTS = CRTSCTS"
proof -
  have "leaves_on rtscts_os CRTSCTS"
    by (simp add: leaves_on_def rtscts_os_def demo_os_def char_format_def)
  moreover have "\<exists>v. sys_open rtscts_os ''/dev/ttyUSB0'' (O_RDWR OR O_NOCTTY OR O_NONBLOCK) (demo_world [] 0) = (Inr 3, v)"
    by (simp add: rtscts_os_def demo_os_def demo_world_def)
  ultimately show ?thesis
    using uart_open_leaves_flags [OF posix_rtscts, of CRTSCTS "''/dev/ttyUSB0''" "demo_world [] 0" 3]
    by auto
qed

end
