(* ===== verification/Status.thy ===== *)
theory Status
  imports Prelude
begin

text \<open>
  The public types of \<^verbatim>\<open>library/include/mcuco.h\<close> and the messages of
  \<^verbatim>\<open>library/src/status.c\<close>.

  A C enum argument holds any unsigned value, whatever its enumerators: the tests pass
  \<^verbatim>\<open>(dir_t)2\<close>, and a NACK's reason byte is cast to \<^verbatim>\<open>mcu_status_t\<close> unchecked. The enums
  are therefore 32-bit words here and the enumerators are named constants, so that every
  range check of the code is a real test.
\<close>

section \<open>Status codes\<close>

type_synonym mcu_status = u32

definition MCUCO_STATUS_OK :: mcu_status where [simp]: "MCUCO_STATUS_OK = 0"
definition MCUCO_STATUS_ERR :: mcu_status where [simp]: "MCUCO_STATUS_ERR = 1"
definition MCUCO_STATUS_ERR_INVALID_ARG :: mcu_status where [simp]: "MCUCO_STATUS_ERR_INVALID_ARG = 2"
definition MCUCO_STATUS_ERR_INVALID_PIN :: mcu_status where [simp]: "MCUCO_STATUS_ERR_INVALID_PIN = 3"
definition MCUCO_STATUS_ERR_INVALID_STATE :: mcu_status where [simp]: "MCUCO_STATUS_ERR_INVALID_STATE = 4"
definition MCUCO_STATUS_ERR_NOT_INIT :: mcu_status where [simp]: "MCUCO_STATUS_ERR_NOT_INIT = 5"
definition MCUCO_STATUS_ERR_BUSY :: mcu_status where [simp]: "MCUCO_STATUS_ERR_BUSY = 6"
definition MCUCO_STATUS_ERR_TIMEOUT :: mcu_status where [simp]: "MCUCO_STATUS_ERR_TIMEOUT = 7"
definition MCUCO_STATUS_ERR_UNSUPPORTED :: mcu_status where [simp]: "MCUCO_STATUS_ERR_UNSUPPORTED = 8"
definition MCUCO_STATUS_ERR_EMPTY :: mcu_status where [simp]: "MCUCO_STATUS_ERR_EMPTY = 9"
definition MCUCO_STATUS_ERR_FULL :: mcu_status where [simp]: "MCUCO_STATUS_ERR_FULL = 10"
definition MCUCO_STATUS_ERR_ARG :: mcu_status where [simp]: "MCUCO_STATUS_ERR_ARG = 0x80"
definition MCUCO_STATUS_ERR_IO :: mcu_status where [simp]: "MCUCO_STATUS_ERR_IO = 0x81"
definition MCUCO_STATUS_ERR_NO_RESPONSE :: mcu_status where [simp]: "MCUCO_STATUS_ERR_NO_RESPONSE = 0x82"
definition MCUCO_STATUS_ERR_BAD_FRAME :: mcu_status where [simp]: "MCUCO_STATUS_ERR_BAD_FRAME = 0x83"
definition MCUCO_STATUS_ERR_NOT_OPEN :: mcu_status where [simp]: "MCUCO_STATUS_ERR_NOT_OPEN = 0x84"

text \<open>A builder returns the code negated, as a signed size.\<close>

definition neg_status :: "mcu_status \<Rightarrow> int" where
  "neg_status s = - uint s"

section \<open>Field encodings and limits\<close>

type_synonym port_t = u32
type_synonym dir_t = u32
type_synonym level_t = u32
type_synonym edge_t = u32
type_synonym action_t = u32
type_synonym polarity_t = u32

definition PORT_A :: port_t where [simp]: "PORT_A = 0"
definition PORT_B :: port_t where [simp]: "PORT_B = 1"
definition PORT_C :: port_t where [simp]: "PORT_C = 2"
definition PORT_D :: port_t where [simp]: "PORT_D = 3"
definition PORT_E :: port_t where [simp]: "PORT_E = 4"
definition PORT_F :: port_t where [simp]: "PORT_F = 5"
definition PORT_G :: port_t where [simp]: "PORT_G = 6"
definition DIR_INPUT :: dir_t where [simp]: "DIR_INPUT = 0"
definition DIR_OUTPUT :: dir_t where [simp]: "DIR_OUTPUT = 1"
definition LEVEL_LOW :: level_t where [simp]: "LEVEL_LOW = 0"
definition LEVEL_HIGH :: level_t where [simp]: "LEVEL_HIGH = 1"
definition EDGE_OFF :: edge_t where [simp]: "EDGE_OFF = 0"
definition EDGE_RISING :: edge_t where [simp]: "EDGE_RISING = 1"
definition EDGE_FALLING :: edge_t where [simp]: "EDGE_FALLING = 2"
definition EDGE_BOTH :: edge_t where [simp]: "EDGE_BOTH = 3"
definition ACTION_LOW :: action_t where [simp]: "ACTION_LOW = 0"
definition ACTION_HIGH :: action_t where [simp]: "ACTION_HIGH = 1"
definition ACTION_TOGGLE :: action_t where [simp]: "ACTION_TOGGLE = 2"
definition POL_ACTIVE_HIGH :: polarity_t where [simp]: "POL_ACTIVE_HIGH = 0"
definition POL_ACTIVE_LOW :: polarity_t where [simp]: "POL_ACTIVE_LOW = 1"

definition PIN_MAX :: nat where [simp]: "PIN_MAX = 15"
definition GROUP_MAX :: nat where [simp]: "GROUP_MAX = 2"
definition DUTY_MAX :: nat where [simp]: "DUTY_MAX = 1000"
definition FREQ_MIN :: nat where [simp]: "FREQ_MIN = 1"
definition FREQ_MAX :: nat where [simp]: "FREQ_MAX = 1000000"

section \<open>Messages\<close>

definition mcuco_strerror :: "mcu_status \<Rightarrow> string" where
  "mcuco_strerror status =
     (if status = MCUCO_STATUS_OK then ''Success''
      else if status = MCUCO_STATUS_ERR then ''Unspecified failure on the MCU''
      else if status = MCUCO_STATUS_ERR_INVALID_ARG then ''The MCU rejected a field as out of range''
      else if status = MCUCO_STATUS_ERR_INVALID_PIN then ''Pin number out of range, or a reserved pin''
      else if status = MCUCO_STATUS_ERR_INVALID_STATE then ''The pin is not configured for this operation''
      else if status = MCUCO_STATUS_ERR_NOT_INIT then ''The peripheral was never brought up''
      else if status = MCUCO_STATUS_ERR_BUSY then ''The resource is already in use''
      else if status = MCUCO_STATUS_ERR_TIMEOUT then ''MCU hardware did not respond in time''
      else if status = MCUCO_STATUS_ERR_UNSUPPORTED then ''Unknown opcode, or a request the hardware cannot satisfy''
      else if status = MCUCO_STATUS_ERR_EMPTY then ''No data available on the MCU''
      else if status = MCUCO_STATUS_ERR_FULL then ''No space available on the MCU''
      else if status = MCUCO_STATUS_ERR_ARG then ''An argument was rejected before anything was sent''
      else if status = MCUCO_STATUS_ERR_IO then ''Reading or writing the serial port failed''
      else if status = MCUCO_STATUS_ERR_NO_RESPONSE then ''No response before the timeout, or the MCU rejected the frame''
      else if status = MCUCO_STATUS_ERR_BAD_FRAME then ''The response was malformed or failed its checksum''
      else if status = MCUCO_STATUS_ERR_NOT_OPEN then ''The connection is not open''
      else ''Unknown status code'')"

end
