(* ===== verification/Crc16.thy ===== *)
theory Crc16
  imports Prelude
begin

text \<open>
  The checksum of \<^verbatim>\<open>library/src/crc16.c\<close>: CRC16-CCITT-FALSE, polynomial 0x1021, seed
  0xFFFF, computed bit by bit. The theory holds the routine as the code has it, a
  reference fold over the bytes, and the facts the frame layer relies on.
\<close>

section \<open>The routine\<close>

definition CRC16_POLYNOMIAL :: u16 where
  "CRC16_POLYNOMIAL = 0x1021"

definition CRC16_SEED :: u16 where
  "CRC16_SEED = 0xFFFF"

text \<open>One round of the inner loop.\<close>

definition crc_bit :: "u16 \<Rightarrow> u16" where
  "crc_bit crc =
     (if crc AND 0x8000 \<noteq> 0 then push_bit 1 crc XOR CRC16_POLYNOMIAL else push_bit 1 crc)"

primrec crc_bits :: "nat \<Rightarrow> u16 \<Rightarrow> u16" where
  "crc_bits 0 crc = crc"
| "crc_bits (Suc n) crc = crc_bits n (crc_bit crc)"

text \<open>One round of the outer loop: the byte enters at the top, then eight shifts.\<close>

definition crc_byte :: "u16 \<Rightarrow> u8 \<Rightarrow> u16" where
  "crc_byte crc b = crc_bits 8 (crc XOR push_bit 8 (ucast b))"

function crc_loop :: "u8 list \<Rightarrow> nat \<Rightarrow> nat \<Rightarrow> u16 \<Rightarrow> u16 option" where
  "crc_loop d i len crc =
     (if i < len
      then (case peek d i of None \<Rightarrow> None | Some b \<Rightarrow> crc_loop d (Suc i) len (crc_byte crc b))
      else Some crc)"
  by pat_completeness auto
termination
  by (relation "measure (\<lambda>(d, i, len, crc). len - i)") auto

declare crc_loop.simps [simp del]

definition crc16_compute :: "u8 list ptr \<Rightarrow> nat \<Rightarrow> u16 option" where
  "crc16_compute p len =
     (case p of None \<Rightarrow> Some CRC16_SEED | Some d \<Rightarrow> crc_loop d 0 len CRC16_SEED)"

section \<open>Reference: a fold over the bytes\<close>

definition crc16 :: "u8 list \<Rightarrow> u16" where
  "crc16 bs = foldl crc_byte CRC16_SEED bs"

lemma crc_loop_foldl:
  "i \<le> len \<Longrightarrow> len \<le> length d
   \<Longrightarrow> crc_loop d i len crc = Some (foldl crc_byte crc (drop i (take len d)))"
proof (induction d i len crc rule: crc_loop.induct)
  case (1 d i len crc)
  show ?case
  proof (cases "i < len")
    case True
    with 1 have "drop i (take len d) = d ! i # drop (Suc i) (take len d)"
      by (metis Cons_nth_drop_Suc length_take min.absorb2 nth_take)
    with 1 True show ?thesis
      by (simp add: crc_loop.simps [of d i len crc] peek_def)
  next
    case False
    with 1 show ?thesis by (subst crc_loop.simps) simp
  qed
qed

text \<open>The routine reads exactly the first \<open>len\<close> bytes and computes the fold.\<close>

lemma crc16_compute_eq [mem_simps]:
  "len \<le> length d \<Longrightarrow> crc16_compute (Some d) len = Some (crc16 (take len d))"
  by (simp add: crc16_compute_def crc16_def crc_loop_foldl)

section \<open>Linearity and injectivity\<close>

lemma crc_bit_alt:
  "crc_bit c = push_bit 1 c XOR (if bit c 15 then CRC16_POLYNOMIAL else 0)"
proof -
  have "(c AND 0x8000 \<noteq> 0) = bit c 15"
    using and_exp_eq_0_iff_not_bit [of c 15] by simp
  then show ?thesis by (simp add: crc_bit_def)
qed

lemma bit_crc_bit:
  "bit (crc_bit c) n \<longleftrightarrow>
     (1 \<le> n \<and> n < 16 \<and> bit c (n - 1)) \<noteq> (bit c 15 \<and> bit CRC16_POLYNOMIAL n)"
  unfolding crc_bit_alt bit_xor_iff bit_push_bit_iff by auto

lemma crc_bit_xor: "crc_bit (a XOR b) = crc_bit a XOR crc_bit b"
  by (auto simp: crc_bit_alt bit_xor_iff ac_simps)

lemma crc_bit_0 [simp]: "crc_bit 0 = 0"
  by (simp add: crc_bit_alt)

lemma crc_bit_eq_0: "crc_bit c = 0 \<Longrightarrow> c = 0"
proof -
  assume c: "crc_bit c = 0"
  have hi: "\<not> bit c 15" 
    using bit_crc_bit [of c 0] by (simp add: c CRC16_POLYNOMIAL_def)
  show "c = 0"
  proof (rule bit_word_eqI)
    fix n assume n: "n < LENGTH(16)"
    with hi show "bit c n = bit 0 n"
      using bit_crc_bit [of c "Suc n"] by (cases "n = 15") (auto simp: c)
  qed
qed

lemma crc_bits_xor: "crc_bits n (a XOR b) = crc_bits n a XOR crc_bits n b"
  by (induction n arbitrary: a b) (simp_all add: crc_bit_xor)

lemma crc_bits_eq_0: "crc_bits n c = 0 \<Longrightarrow> c = 0"
  by (induction n arbitrary: c) (auto dest: crc_bit_eq_0)

lemma crc_bits_inj: "crc_bits n a = crc_bits n b \<longleftrightarrow> a = b"
  using crc_bits_eq_0 [of n "a XOR b"] by (auto simp: crc_bits_xor xor_eq_0_iff_eq)

lemma crc_bits_add: "crc_bits (m + n) c = crc_bits n (crc_bits m c)"
  by (induction m arbitrary: c) simp_all

lemma crc_bits_low: "n \<le> 8 \<Longrightarrow> crc_bits n (ucast (b :: u8)) = push_bit n (ucast b)"
proof (induction n)
  case 0
  then show ?case by simp
next
  case (Suc n)
  have "crc_bits (Suc n) (ucast b) = crc_bit (crc_bits n (ucast b))"
    using crc_bits_add [of n 1 "ucast b"] by simp
  also have "\<dots> = crc_bit (push_bit n (ucast b))" using Suc by simp
  also have "\<dots> = push_bit 1 (push_bit n (ucast b))"
  proof -
    have "\<not> bit (push_bit n (ucast b) :: u16) 15"
      using Suc.prems bit_imp_le_length [of b "15 - n"] by (auto simp: bit_push_bit_iff bit_ucast_iff)
    then show ?thesis by (simp only: crc_bit_alt if_False xor.right_neutral)
  qed
  also have "\<dots> = push_bit (Suc n) (ucast b)"
    by (simp only: push_bit_push_bit plus_1_eq_Suc)
  finally show ?case .
qed

text \<open>Two bytes in sequence enter the register as one 16-bit word.\<close>

lemma crc_two_bytes:
  "crc_byte (crc_byte c a) b = crc_bits 16 (c XOR push_bit 8 (ucast a) XOR ucast b)"
proof -
  have "crc_bits 8 (c XOR push_bit 8 (ucast a) XOR ucast b)
      = crc_bits 8 (c XOR push_bit 8 (ucast a)) XOR push_bit 8 (ucast b)"
    by (simp only: crc_bits_xor crc_bits_low order_refl xor.assoc)
  then show ?thesis
    using crc_bits_add [of 8 8 "c XOR push_bit 8 (ucast a) XOR ucast b"]
    by (simp only: crc_byte_def) simp
qed

lemma byte_pair_inj:
  "push_bit 8 (ucast (a :: u8)) XOR ucast (b :: u8) = (push_bit 8 (ucast a') XOR ucast b' :: u16)
   \<longleftrightarrow> a = a' \<and> b = b'" (is "?l = ?r \<longleftrightarrow> _")
proof
  assume eq: "?l = ?r"
  have "a = a'"
  proof (rule bit_word_eqI)
    fix n assume "n < LENGTH(8)"
    then show "bit a n = bit a' n"
      using arg_cong [OF eq, of "\<lambda>w. bit w (n + 8)"] bit_imp_le_length [of b "n + 8"] bit_imp_le_length [of b' "n + 8"]
      by (auto simp: bit_xor_iff bit_push_bit_iff bit_ucast_iff)
  qed
  moreover have "b = b'"
  proof (rule bit_word_eqI)
    fix n assume "n < LENGTH(8)"
    then show "bit b n = bit b' n"
      using arg_cong [OF eq, of "\<lambda>w. bit w n"]
      by (auto simp: bit_xor_iff bit_push_bit_iff bit_ucast_iff)
  qed
  ultimately show "a = a' \<and> b = b'" ..
qed simp

lemma crc_byte_state: "crc_byte c x = crc_byte d x \<longleftrightarrow> c = d"
  by (simp only: crc_byte_def crc_bits_inj xor_right_inj)

lemma crc_two_bytes_inj:
  "crc_byte (crc_byte c a) b = crc_byte (crc_byte c a') b' \<longleftrightarrow> a = a' \<and> b = b'"
  by (simp only: crc_two_bytes crc_bits_inj xor.assoc xor_left_inj byte_pair_inj)

lemma foldl_crc_state: "foldl crc_byte c bs = foldl crc_byte d bs \<longleftrightarrow> c = d"
  by (induction bs arbitrary: c d) (simp_all add: crc_byte_state)

lemma crc16_burst:
  "crc16 (xs @ [a, b] @ ys) = crc16 (xs @ [a', b'] @ ys) \<longleftrightarrow> a = a' \<and> b = b'"
  by (simp only: crc16_def foldl_append foldl_crc_state foldl.simps crc_two_bytes_inj)

section \<open>The register is a polynomial remainder\<close>

text \<open>
  Polynomials over GF(2) as natural numbers, one bit per coefficient: addition is
  \<^const>\<open>xor\<close> and \<open>gf2_mul\<close> is the carry-less product. \<open>CRC16_GENERATOR\<close>
  is the polynomial with its leading coefficient, \<open>x^16 + x^12 + x^5 + 1\<close>, and \<open>gf2_poly\<close> reads a
  message, first byte first.
\<close>

fun gf2_mul :: "nat \<Rightarrow> nat \<Rightarrow> nat" where
  "gf2_mul a b = (if a = 0 then 0 else (if odd a then b else 0) XOR 2 * gf2_mul (a div 2) b)"

declare gf2_mul.simps [simp del]

definition gf2_poly :: "u8 list \<Rightarrow> nat" where
  "gf2_poly bs = foldl (\<lambda>p b. push_bit 8 p XOR unat b) 0 bs"

definition CRC16_GENERATOR :: nat where
  "CRC16_GENERATOR = 0x11021"

lemma gf2_mul_0 [simp]: "gf2_mul 0 b = 0"
  by (simp add: gf2_mul.simps)

lemma gf2_mul_double: "gf2_mul (2 * q) b = 2 * gf2_mul q b"
  by (subst gf2_mul.simps) auto

lemma gf2_mul_double_Suc: "gf2_mul (2 * q + 1) b = b XOR 2 * gf2_mul q b"
  by (subst gf2_mul.simps) auto

lemma double_xor: "2 * (a XOR b) = 2 * a XOR 2 * (b :: nat)"
  using push_bit_xor [of 1 a b] by (simp add: push_bit_eq_mult mult.commute)

lemma unat_crc_bit:
  "unat (crc_bit c) = 2 * unat c XOR (if bit c 15 then CRC16_GENERATOR else 0)"
proof (rule bit_eqI)
  fix n
  have c: "bit c n \<Longrightarrow> n < 16" for n using bit_imp_le_length [of c n] by simp
  have g: "bit CRC16_GENERATOR n \<longleftrightarrow> n = 16 \<or> (n < 16 \<and> bit CRC16_POLYNOMIAL n)"
  proof -
    have "CRC16_GENERATOR = 2 ^ 16 XOR unat CRC16_POLYNOMIAL"
      by (simp add: CRC16_GENERATOR_def CRC16_POLYNOMIAL_def)
    then have "bit CRC16_GENERATOR n = (bit (2 ^ 16 :: nat) n \<noteq> bit (unat CRC16_POLYNOMIAL) n)"
      by (metis bit_xor_iff)
    then show ?thesis
      using bit_imp_le_length [of CRC16_POLYNOMIAL n]
      by (auto simp only: bit_exp_iff bit_unsigned_iff possible_bit_def) auto
  qed
  have "bit (2 * unat c) n \<longleftrightarrow> 1 \<le> n \<and> bit c (n - 1)"
    by (auto simp: bit_double_iff bit_unsigned_iff)
  then show "bit (unat (crc_bit c)) n
      \<longleftrightarrow> bit (2 * unat c XOR (if bit c 15 then CRC16_GENERATOR else 0)) n"
    using c [of "n - 1"] c [of n] g bit_imp_le_length [of CRC16_POLYNOMIAL n] by (auto simp: bit_unsigned_iff bit_crc_bit bit_xor_iff)
qed

lemma gf2_step:
  assumes "p = gf2_mul q CRC16_GENERATOR XOR unat c"
  shows "\<exists>q'. 2 * p = gf2_mul q' CRC16_GENERATOR XOR unat (crc_bit c)"
proof (cases "bit c 15")
  case True
  then have "2 * p = gf2_mul (2 * q + 1) CRC16_GENERATOR XOR unat (crc_bit c)"
    unfolding assms gf2_mul_double_Suc unat_crc_bit double_xor
    by (intro bit_eqI) (auto simp: bit_xor_iff)
  then show ?thesis ..
next
  case False
  then have "2 * p = gf2_mul (2 * q) CRC16_GENERATOR XOR unat (crc_bit c)"
    by (simp add: assms gf2_mul_double unat_crc_bit double_xor)
  then show ?thesis ..
qed

lemma gf2_steps:
  "p = gf2_mul q CRC16_GENERATOR XOR unat c
   \<Longrightarrow> \<exists>q'. push_bit n p = gf2_mul q' CRC16_GENERATOR XOR unat (crc_bits n c)"
proof (induction n arbitrary: p q c)
  case 0
  then show ?case by auto
next
  case (Suc n)
  from gf2_step [OF Suc.prems] obtain q' where
    "2 * p = gf2_mul q' CRC16_GENERATOR XOR unat (crc_bit c)" ..
  from Suc.IH [OF this] show ?case by (simp add: mult.commute)
qed

lemma gf2_foldl:
  "\<exists>q. push_bit (8 * length bs) (unat CRC16_SEED) XOR push_bit 16 (gf2_poly bs)
     = gf2_mul q CRC16_GENERATOR XOR unat (crc16 bs)"
proof (induction bs rule: rev_induct)
  case Nil
  show ?case by (rule exI [of _ 0]) (simp add: gf2_poly_def crc16_def)
next
  case (snoc b bs)
  let ?P = "push_bit (8 * length bs) (unat CRC16_SEED) XOR push_bit 16 (gf2_poly bs)"
  from snoc obtain q where "?P = gf2_mul q CRC16_GENERATOR XOR unat (crc16 bs)" ..
  then have "?P XOR push_bit 8 (unat b)
      = gf2_mul q CRC16_GENERATOR XOR unat (crc16 bs XOR push_bit 8 (ucast b))"
  proof -
    have "unat (push_bit 8 (ucast b) :: u16) = push_bit 8 (unat b)"
      by (rule bit_eqI)
         (auto simp: bit_unsigned_iff bit_push_bit_iff Bit_Operations.bit_push_bit_iff
            dest: bit_imp_le_length)
    then show ?thesis using \<open>?P = _\<close> by (simp only: unsigned_xor_eq xor.assoc)
  qed
  from gf2_steps [OF this, of 8] obtain q' where
    "push_bit 8 (?P XOR push_bit 8 (unat b)) = gf2_mul q' CRC16_GENERATOR XOR unat (crc16 (bs @ [b]))"
    by (auto simp: crc16_def crc_byte_def)
  moreover have "push_bit 8 (?P XOR push_bit 8 (unat b))
      = push_bit (8 * length (bs @ [b])) (unat CRC16_SEED) XOR push_bit 16 (gf2_poly (bs @ [b]))"
    by (simp add: push_bit_xor gf2_poly_def xor.assoc add.commute)
  ultimately have "push_bit (8 * length (bs @ [b])) (unat CRC16_SEED) XOR push_bit 16 (gf2_poly (bs @ [b]))
      = gf2_mul q' CRC16_GENERATOR XOR unat (crc16 (bs @ [b]))" by (simp only:)
  then show ?case ..
qed


section \<open>What the frame layer relies on\<close>

text \<open>
  The interface between the checksum and the frames: a change confined to two neighbouring
  bytes always changes the value. The laws below are all the frame layer uses of the
  checksum.
\<close>

locale checksum =
  fixes chk :: "u8 list \<Rightarrow> u16"
  assumes burst: "chk (xs @ [a, b] @ ys) = chk (xs @ [a', b'] @ ys) \<Longrightarrow> a = a' \<and> b = b'"
begin

text \<open>Two messages of one length that agree outside positions \<open>i\<close> and \<open>i + 1\<close>.\<close>

lemma detects_pair:
  assumes len: "length xs = length ys" and i: "Suc i < length xs"
    and same: "\<And>k. k < length xs \<Longrightarrow> k \<noteq> i \<Longrightarrow> k \<noteq> Suc i \<Longrightarrow> xs ! k = ys ! k"
    and neq: "xs \<noteq> ys"
  shows "chk xs \<noteq> chk ys"
proof
  assume eq: "chk xs = chk ys"
  have split: "zs = take i zs @ [zs ! i, zs ! Suc i] @ drop (Suc (Suc i)) zs"
    if "Suc i < length zs" for zs :: "u8 list"
    using that by (simp add: Cons_nth_drop_Suc)
  have pre: "take i xs = take i ys"
    using len i same by (intro nth_equalityI) auto
  have post: "drop (Suc (Suc i)) xs = drop (Suc (Suc i)) ys"
    using len i same by (intro nth_equalityI) auto
  have "chk (take i xs @ [xs ! i, xs ! Suc i] @ drop (Suc (Suc i)) xs)
      = chk (take i xs @ [ys ! i, ys ! Suc i] @ drop (Suc (Suc i)) xs)"
    using eq split [OF i] split [of ys] i len pre post by metis
  then have "xs ! i = ys ! i \<and> xs ! Suc i = ys ! Suc i" by (rule burst)
  with neq show False using split [OF i] split [of ys] i len pre post by metis
qed

lemma detects_one:
  assumes len: "length xs = length ys" and two: "2 \<le> length xs"
    and same: "\<And>k. k < length xs \<Longrightarrow> k \<noteq> i \<Longrightarrow> xs ! k = ys ! k" and neq: "xs \<noteq> ys"
  shows "chk xs \<noteq> chk ys"
proof (cases "Suc i < length xs")
  case True
  with assms show ?thesis by (intro detects_pair [of xs ys i]) auto
next
  case False
  with two have i: "Suc (i - 1) < length xs" if "i < length xs" using that by auto
  show ?thesis
  proof (cases "i < length xs")
    case True
    with assms False show ?thesis by (intro detects_pair [of xs ys "i - 1"]) auto
  next
    case nolen: False
    with len same have "xs = ys" by (intro nth_equalityI) auto
    with neq show ?thesis ..
  qed
qed

end

interpretation crc: checksum crc16
  by unfold_locales (simp only: crc16_burst)

section \<open>Properties\<close>

text \<open>C15. \<open>crc16_compute\<close> on \<open>n\<close> bytes of a buffer that holds them returns the remainder of the
  message polynomial (seed folded in) modulo the CCITT generator: it never reads outside the
  buffer, and the value differs from the message times \<open>x\<close> to the 16th by a multiple of the
  generator.\<close>

theorem crc16_compute_remainder:
  assumes "n \<le> length buf"
  shows "\<exists>c q. crc16_compute (Some buf) n = Some c
      \<and> push_bit (8 * n) (unat CRC16_SEED) XOR push_bit 16 (gf2_poly (take n buf))
        = gf2_mul q CRC16_GENERATOR XOR unat c"
  using gf2_foldl [of "take n buf"] assms by (simp add: crc16_compute_eq min_absorb2)

theorem crc16_compute_remainder_witness:
  "\<exists>c q. crc16_compute (Some [0x31, 0x32, 0x33]) 2 = Some c
      \<and> push_bit (8 * 2) (unat CRC16_SEED) XOR push_bit 16 (gf2_poly (take 2 [0x31, 0x32, 0x33]))
        = gf2_mul q CRC16_GENERATOR XOR unat c"
  by (rule crc16_compute_remainder) simp

text \<open>C16. Two buffers of the same length that differ, but only within two neighbouring bytes, have
  different checksums: every error burst of up to nine bits, and every pair of corrupted
  neighbours, is detected.\<close>

theorem crc16_compute_detects_burst:
  assumes "length xs = n" "length ys = n" "xs \<noteq> ys" "Suc i < n"
    and "\<And>k. k < n \<Longrightarrow> k \<noteq> i \<Longrightarrow> k \<noteq> Suc i \<Longrightarrow> xs ! k = ys ! k"
  shows "crc16_compute (Some xs) n \<noteq> crc16_compute (Some ys) n"
  using crc.detects_pair [of xs ys i] assms by (simp add: crc16_compute_eq)

theorem crc16_compute_detects_burst_witness:
  "crc16_compute (Some [1, 2, 3, 4]) 4 \<noteq> crc16_compute (Some [1, 7, 9, 4]) 4"
proof (rule crc16_compute_detects_burst [where i = 1])
  fix k :: nat
  assume "k < 4" "k \<noteq> 1" "k \<noteq> Suc 1"
  then have "k = 0 \<or> k = 3" by arith
  then show "[1, 2, 3, 4] ! k = [1, 7, 9, 4 :: u8] ! k" by auto
qed simp_all

end
