(* ===== verification/Endianess.thy ===== *)
theory Endianess
  imports Prelude
begin

text \<open>
  \<^verbatim>\<open>library/src/endianess.c\<close>: explicit little-endian stores and loads. A destination is a
  pointer to an array, a value pointer is a pointer to one cell; the results carry the
  return value and what the pointer holds afterwards.
\<close>

section \<open>The routines\<close>

definition put_u16_le :: "u8 list ptr \<Rightarrow> u16 \<Rightarrow> (int \<times> u8 list ptr) option" where
  "put_u16_le destination v =
     (case destination of
        None \<Rightarrow> Some (- 1, None)
      | Some d \<Rightarrow> do {
          d \<leftarrow> poke d 0 (ucast (v AND 0xFF));
          d \<leftarrow> poke d 1 (ucast (drop_bit 8 v AND 0xFF));
          Some (2, Some d)
        })"

definition put_u32_le :: "u8 list ptr \<Rightarrow> u32 \<Rightarrow> (int \<times> u8 list ptr) option" where
  "put_u32_le destination v =
     (case destination of
        None \<Rightarrow> Some (- 1, None)
      | Some d \<Rightarrow> do {
          d \<leftarrow> poke d 0 (ucast (v AND 0xFF));
          d \<leftarrow> poke d 1 (ucast (drop_bit 8 v AND 0xFF));
          d \<leftarrow> poke d 2 (ucast (drop_bit 16 v AND 0xFF));
          d \<leftarrow> poke d 3 (ucast (drop_bit 24 v AND 0xFF));
          Some (4, Some d)
        })"

definition get_u16_le :: "u8 list ptr \<Rightarrow> u16 ptr \<Rightarrow> (int \<times> u16 ptr) option" where
  "get_u16_le source cell =
     (case (source, cell) of
        (Some s, Some _) \<Rightarrow> do {
          b0 \<leftarrow> peek s 0;
          b1 \<leftarrow> peek s 1;
          Some (2, Some (ucast b0 OR push_bit 8 (ucast b1)))
        }
      | _ \<Rightarrow> Some (- 1, cell))"

definition get_u32_le :: "u8 list ptr \<Rightarrow> u32 ptr \<Rightarrow> (int \<times> u32 ptr) option" where
  "get_u32_le source cell =
     (case (source, cell) of
        (Some s, Some _) \<Rightarrow> do {
          b0 \<leftarrow> peek s 0;
          b1 \<leftarrow> peek s 1;
          b2 \<leftarrow> peek s 2;
          b3 \<leftarrow> peek s 3;
          Some (4, Some (ucast b0 OR push_bit 8 (ucast b1) OR push_bit 16 (ucast b2)
                           OR push_bit 24 (ucast b3)))
        }
      | _ \<Rightarrow> Some (- 1, cell))"

section \<open>The byte strings they stand for\<close>

definition u16_le :: "u16 \<Rightarrow> u8 list" where
  "u16_le v = [ucast v, ucast (drop_bit 8 v)]"

definition u32_le :: "u32 \<Rightarrow> u8 list" where
  "u32_le v = [ucast v, ucast (drop_bit 8 v), ucast (drop_bit 16 v), ucast (drop_bit 24 v)]"

definition le_u16 :: "u8 list \<Rightarrow> u16" where
  "le_u16 bs = (\<Sum>i<2. ucast (bs ! i) * 2 ^ (8 * i))"

definition le_u32 :: "u8 list \<Rightarrow> u32" where
  "le_u32 bs = (\<Sum>i<4. ucast (bs ! i) * 2 ^ (8 * i))"

text \<open>\<open>le_u16\<close> and \<open>le_u32\<close> give the value of a little-endian byte string as a sum.\<close>

lemma length_u16_le [simp]: "length (u16_le v) = 2"
  by (simp add: u16_le_def)

lemma length_u32_le [simp]: "length (u32_le v) = 4"
  by (simp add: u32_le_def)

lemma ucast_and_byte: "(ucast (v AND 0xFF) :: u8) = ucast (v :: 'a::len word)"
proof -
  have "(0xFF :: 'a word) = mask 8" by (simp add: mask_eq_exp_minus_1)
  then have "v AND 0xFF = take_bit 8 v" by (simp add: take_bit_eq_mask)
  then show ?thesis
    by (intro bit_word_eqI) (auto simp: bit_ucast_iff bit_take_bit_iff)
qed

lemma le_u16_conv: "le_u16 [a, b] = ucast a OR push_bit 8 (ucast b)"
proof -
  have "ucast a OR push_bit 8 (ucast b) = (ucast a + push_bit 8 (ucast b) :: u16)"
    by (intro disjunctive_add [symmetric])
       (auto simp: bit_ucast_iff bit_push_bit_iff dest: bit_imp_le_length)
  then show ?thesis
    by (simp add: le_u16_def eval_nat_numeral push_bit_eq_mult)
qed

lemma le_u32_conv:
  "le_u32 [a, b, c, d] = ucast a OR push_bit 8 (ucast b) OR push_bit 16 (ucast c) OR push_bit 24 (ucast d)"
proof -
  note bits = bit_or_iff bit_ucast_iff bit_push_bit_iff bit_u8_high
  have 1: "ucast a + push_bit 8 (ucast b) = (ucast a OR push_bit 8 (ucast b) :: u32)"
    by (rule disjunctive_add) (auto simp: bits)
  have 2: "(ucast a OR push_bit 8 (ucast b)) + push_bit 16 (ucast c)
      = ((ucast a OR push_bit 8 (ucast b)) OR push_bit 16 (ucast c) :: u32)"
    by (rule disjunctive_add) (auto simp: bits)
  have 3: "((ucast a OR push_bit 8 (ucast b)) OR push_bit 16 (ucast c)) + push_bit 24 (ucast d)
      = (((ucast a OR push_bit 8 (ucast b)) OR push_bit 16 (ucast c)) OR push_bit 24 (ucast d) :: u32)"
    by (rule disjunctive_add) (auto simp: bits)
  have "le_u32 [a, b, c, d]
      = ucast a + push_bit 8 (ucast b) + push_bit 16 (ucast c) + push_bit 24 (ucast d)"
    by (simp add: le_u32_def eval_nat_numeral push_bit_eq_mult)
  then show ?thesis unfolding 1 2 3 by (simp only: or.assoc)
qed

lemma le_u16_inverse: "le_u16 (u16_le v) = v"
  unfolding u16_le_def le_u16_conv
  by (intro bit_word_eqI) (auto simp: bit_or_iff bit_ucast_iff bit_push_bit_iff bit_drop_bit_eq)

lemma le_u32_inverse: "le_u32 (u32_le v) = v"
  unfolding u32_le_def le_u32_conv
proof (rule bit_word_eqI)
  fix n assume "n < LENGTH(32)"
  then consider "n < 8" | "8 \<le> n" "n < 16" | "16 \<le> n" "n < 24" | "24 \<le> n" "n < 32"
    by fastforce
  then show "bit (ucast (ucast v :: u8) OR push_bit 8 (ucast (ucast (drop_bit 8 v) :: u8))
      OR push_bit 16 (ucast (ucast (drop_bit 16 v) :: u8))
      OR push_bit 24 (ucast (ucast (drop_bit 24 v) :: u8)) :: u32) n = bit v n"
    by cases (auto simp: bit_or_iff bit_ucast_iff bit_push_bit_iff bit_drop_bit_eq)
qed

lemma u16_le_inverse: "length bs = 2 \<Longrightarrow> u16_le (le_u16 bs) = bs"
  by (cases bs; cases "tl bs")
     (auto simp: u16_le_def le_u16_conv bit_or_iff bit_ucast_iff bit_push_bit_iff bit_drop_bit_eq bit_u8_high
        intro!: bit_word_eqI)

lemma u32_le_inverse: "length bs = 4 \<Longrightarrow> u32_le (le_u32 bs) = bs"
proof -
  assume "length bs = 4"
  then obtain a b c d where bs: "bs = [a, b, c, d]"
    by (auto simp: eval_nat_numeral length_Suc_conv)
  show ?thesis
    unfolding bs u32_le_def le_u32_conv
    by (auto simp: bit_or_iff bit_ucast_iff bit_push_bit_iff bit_drop_bit_eq bit_u8_high
        intro!: bit_word_eqI)
qed

section \<open>The routines implement them\<close>

lemma put_u16_le_eq [mem_simps]:
  "2 \<le> length d \<Longrightarrow> put_u16_le (Some d) v = Some (2, Some (u16_le v @ drop 2 d))"
  by (cases d; cases "tl d") (auto simp: put_u16_le_def poke_def u16_le_def ucast_and_byte)

lemma put_u32_le_eq [mem_simps]:
  "4 \<le> length d \<Longrightarrow> put_u32_le (Some d) v = Some (4, Some (u32_le v @ drop 4 d))"
proof -
  assume "4 \<le> length d"
  then obtain a b c e r where d: "d = a # b # c # e # r"
    by (rule list_four)
  show ?thesis
    by (simp add: d put_u32_le_def poke_def u32_le_def ucast_and_byte)
qed

lemma get_u16_le_eq [mem_simps]:
  "2 \<le> length s \<Longrightarrow> get_u16_le (Some s) (Some x) = Some (2, Some (le_u16 (take 2 s)))"
  by (cases s; cases "tl s") (auto simp: get_u16_le_def peek_def le_u16_conv)

lemma get_u32_le_eq [mem_simps]:
  "4 \<le> length s \<Longrightarrow> get_u32_le (Some s) (Some x) = Some (4, Some (le_u32 (take 4 s)))"
proof -
  assume "4 \<le> length s"
  then obtain a b c e r where s: "s = a # b # c # e # r"
    by (rule list_four)
  show ?thesis
    by (simp add: s get_u32_le_def peek_def le_u32_conv or.assoc)
qed

lemma endian_null:
  "put_u16_le None v = Some (- 1, None)" "put_u32_le None w = Some (- 1, None)"
  "get_u16_le None c = Some (- 1, c)" "get_u16_le s None = Some (- 1, None)"
  "get_u32_le None e = Some (- 1, e)" "get_u32_le s None = Some (- 1, None)"
  by (simp_all add: put_u16_le_def put_u32_le_def get_u16_le_def get_u32_le_def split: option.splits)

section \<open>Properties\<close>

text \<open>C31. Storing a 16- or 32-bit value and loading it back gives the value again; the store
  reports its size, keeps the buffer's length and leaves every byte behind the field alone.\<close>

theorem endian_roundtrip:
  assumes "2 \<le> length d" "4 \<le> length e"
  shows "\<exists>d' e'. put_u16_le (Some d) v = Some (2, Some d') \<and> length d' = length d \<and> drop 2 d' = drop 2 d
      \<and> get_u16_le (Some d') (Some x) = Some (2, Some v)
      \<and> put_u32_le (Some e) u = Some (4, Some e') \<and> length e' = length e \<and> drop 4 e' = drop 4 e
      \<and> get_u32_le (Some e') (Some y) = Some (4, Some u)"
  using assms by (simp add: mem_simps le_u16_inverse le_u32_inverse)

theorem endian_roundtrip_witness:
  "\<exists>d' e'. put_u16_le (Some [0, 0, 7]) 0x1234 = Some (2, Some d') \<and> length d' = length [0, 0, 7 :: u8]
      \<and> drop 2 d' = drop 2 [0, 0, 7]
      \<and> get_u16_le (Some d') (Some 0) = Some (2, Some 0x1234)
      \<and> put_u32_le (Some [0, 0, 0, 0, 9]) 0x89ABCDEF = Some (4, Some e') \<and> length e' = length [0, 0, 0, 0, 9 :: u8]
      \<and> drop 4 e' = drop 4 [0, 0, 0, 0, 9]
      \<and> get_u32_le (Some e') (Some 0) = Some (4, Some 0x89ABCDEF)"
  by (rule endian_roundtrip) simp_all

end
