(* ===== verification/Wire.thy ===== *)
theory Wire
  imports Status Crc16 Endianess
begin

text \<open>
  The wire format of \<^verbatim>\<open>library/include/protocol_defs.h\<close>, and the abstract specification of
  the command side of the protocol: what a command is, which ones are valid, the frame that
  carries one, and the decoder a receiver of such frames runs. Nothing here is code of the
  library except the constants and the opcode table; \<open>Protocol\<close> proves that the builders
  implement this specification.
\<close>

section \<open>Constants and opcodes\<close>

definition PROTOCOL_SOF :: u8 where [simp]: "PROTOCOL_SOF = 0xA5"
definition PROTOCOL_MAX_PAYLOAD :: nat where [simp]: "PROTOCOL_MAX_PAYLOAD = 32"
definition PROTOCOL_MAX_RESPONSE_DATA :: nat where [simp]: "PROTOCOL_MAX_RESPONSE_DATA = 4"
definition PROTOCOL_COMMAND_OVERHEAD :: nat where [simp]: "PROTOCOL_COMMAND_OVERHEAD = 5"
definition PROTOCOL_RESPONSE_OVERHEAD :: nat where [simp]: "PROTOCOL_RESPONSE_OVERHEAD = 4"
definition PROTOCOL_MAX_COMMAND_FRAME :: nat where
  [simp]: "PROTOCOL_MAX_COMMAND_FRAME = PROTOCOL_COMMAND_OVERHEAD + PROTOCOL_MAX_PAYLOAD"
definition PROTOCOL_MIN_RESPONSE_LEN :: nat where [simp]: "PROTOCOL_MIN_RESPONSE_LEN = 1"
definition PROTOCOL_MAX_RESPONSE_LEN :: nat where
  [simp]: "PROTOCOL_MAX_RESPONSE_LEN = PROTOCOL_MIN_RESPONSE_LEN + PROTOCOL_MAX_RESPONSE_DATA"
definition PROTOCOL_MIN_RESPONSE_FRAME :: nat where
  [simp]: "PROTOCOL_MIN_RESPONSE_FRAME = PROTOCOL_RESPONSE_OVERHEAD + PROTOCOL_MIN_RESPONSE_LEN"
definition PROTOCOL_MAX_RESPONSE_FRAME :: nat where
  [simp]: "PROTOCOL_MAX_RESPONSE_FRAME = PROTOCOL_RESPONSE_OVERHEAD + PROTOCOL_MAX_RESPONSE_LEN"
definition PROBE_MAGIC_LEN :: nat where [simp]: "PROBE_MAGIC_LEN = 4"

datatype opcode =
    OPCODE_PROBE | OPCODE_RESET
  | OPCODE_GPIO_CFG | OPCODE_GPIO_WRITE | OPCODE_GPIO_READ | OPCODE_GPIO_IRQ_BIND
  | OPCODE_GPIO_IRQ_CFG | OPCODE_GPIO_IRQ_UNBIND | OPCODE_GPIO_TOGGLE
  | OPCODE_PWM_GROUP_CFG | OPCODE_PWM_CFG | OPCODE_PWM_SET | OPCODE_PWM_RELEASE
  | OPCODE_PWM_GET | OPCODE_PWM_GROUP_GET | OPCODE_PWM_GROUP_RELEASE

fun opcode_byte :: "opcode \<Rightarrow> u8" where
  "opcode_byte OPCODE_PROBE = 0x10"
| "opcode_byte OPCODE_RESET = 0x11"
| "opcode_byte OPCODE_GPIO_CFG = 0x30"
| "opcode_byte OPCODE_GPIO_WRITE = 0x31"
| "opcode_byte OPCODE_GPIO_READ = 0x32"
| "opcode_byte OPCODE_GPIO_IRQ_BIND = 0x33"
| "opcode_byte OPCODE_GPIO_IRQ_CFG = 0x34"
| "opcode_byte OPCODE_GPIO_IRQ_UNBIND = 0x35"
| "opcode_byte OPCODE_GPIO_TOGGLE = 0x36"
| "opcode_byte OPCODE_PWM_GROUP_CFG = 0x40"
| "opcode_byte OPCODE_PWM_CFG = 0x41"
| "opcode_byte OPCODE_PWM_SET = 0x42"
| "opcode_byte OPCODE_PWM_RELEASE = 0x43"
| "opcode_byte OPCODE_PWM_GET = 0x44"
| "opcode_byte OPCODE_PWM_GROUP_GET = 0x45"
| "opcode_byte OPCODE_PWM_GROUP_RELEASE = 0x46"

text \<open>The opcode table in the order the header lists it.\<close>

definition all_opcodes :: "opcode list" where
  "all_opcodes =
     [OPCODE_PROBE, OPCODE_RESET,
      OPCODE_GPIO_CFG, OPCODE_GPIO_WRITE, OPCODE_GPIO_READ, OPCODE_GPIO_IRQ_BIND,
      OPCODE_GPIO_IRQ_CFG, OPCODE_GPIO_IRQ_UNBIND, OPCODE_GPIO_TOGGLE,
      OPCODE_PWM_GROUP_CFG, OPCODE_PWM_CFG, OPCODE_PWM_SET, OPCODE_PWM_RELEASE,
      OPCODE_PWM_GET, OPCODE_PWM_GROUP_GET, OPCODE_PWM_GROUP_RELEASE]"

lemma all_opcodes_complete: "op \<in> set all_opcodes"
  by (cases op) (simp_all add: all_opcodes_def)

lemma opcode_bytes_increasing: "sorted_wrt (<) (map opcode_byte all_opcodes)"
  by (simp add: all_opcodes_def)

lemma opcode_byte_inj: "opcode_byte a = opcode_byte b \<longleftrightarrow> a = b"
proof -
  have "distinct (map opcode_byte all_opcodes)"
    by (simp add: all_opcodes_def)
  then have "inj_on opcode_byte (set all_opcodes)" by (simp only: distinct_map)
  then show ?thesis using all_opcodes_complete by (auto simp: inj_on_def)
qed

text \<open>Opcodes are ordered by their byte on the wire.\<close>

instantiation opcode :: linorder
begin

definition less_eq_opcode :: "opcode \<Rightarrow> opcode \<Rightarrow> bool" where
  "less_eq_opcode a b \<longleftrightarrow> opcode_byte a \<le> opcode_byte b"

definition less_opcode :: "opcode \<Rightarrow> opcode \<Rightarrow> bool" where
  "less_opcode a b \<longleftrightarrow> opcode_byte a < opcode_byte b"

instance
  by standard (auto simp: less_eq_opcode_def less_opcode_def less_le opcode_byte_inj)

end

lemma all_opcodes_sorted: "sorted all_opcodes" "distinct all_opcodes"
proof -
  have "sorted_wrt (<) all_opcodes"
    using opcode_bytes_increasing by (simp add: sorted_wrt_map less_opcode_def [abs_def])
  then show "sorted all_opcodes" "distinct all_opcodes"
    by (auto simp: strict_sorted_iff)
qed

section \<open>Commands\<close>

datatype command =
    Probe
  | Reset
  | Gpio_Cfg dir_t port_t u8
  | Gpio_Set level_t port_t u8
  | Gpio_Get port_t u8
  | Gpio_Toggle port_t u8
  | Gpio_Irq_Cfg edge_t port_t u8
  | Gpio_Irq_Bind edge_t port_t u8 action_t port_t u8
  | Gpio_Irq_Unbind port_t u8
  | Pwm_Group_Cfg u32 u8
  | Pwm_Group_Get u8
  | Pwm_Group_Release u8
  | Pwm_Channel_Cfg polarity_t port_t u8
  | Pwm_Channel_Set u16 port_t u8
  | Pwm_Channel_Get port_t u8
  | Pwm_Channel_Release port_t u8

fun command_opcode :: "command \<Rightarrow> opcode" where
  "command_opcode Probe = OPCODE_PROBE"
| "command_opcode Reset = OPCODE_RESET"
| "command_opcode (Gpio_Cfg _ _ _) = OPCODE_GPIO_CFG"
| "command_opcode (Gpio_Set _ _ _) = OPCODE_GPIO_WRITE"
| "command_opcode (Gpio_Get _ _) = OPCODE_GPIO_READ"
| "command_opcode (Gpio_Toggle _ _) = OPCODE_GPIO_TOGGLE"
| "command_opcode (Gpio_Irq_Cfg _ _ _) = OPCODE_GPIO_IRQ_CFG"
| "command_opcode (Gpio_Irq_Bind _ _ _ _ _ _) = OPCODE_GPIO_IRQ_BIND"
| "command_opcode (Gpio_Irq_Unbind _ _) = OPCODE_GPIO_IRQ_UNBIND"
| "command_opcode (Pwm_Group_Cfg _ _) = OPCODE_PWM_GROUP_CFG"
| "command_opcode (Pwm_Group_Get _) = OPCODE_PWM_GROUP_GET"
| "command_opcode (Pwm_Group_Release _) = OPCODE_PWM_GROUP_RELEASE"
| "command_opcode (Pwm_Channel_Cfg _ _ _) = OPCODE_PWM_CFG"
| "command_opcode (Pwm_Channel_Set _ _ _) = OPCODE_PWM_SET"
| "command_opcode (Pwm_Channel_Get _ _) = OPCODE_PWM_GET"
| "command_opcode (Pwm_Channel_Release _ _) = OPCODE_PWM_RELEASE"

fun command_payload :: "command \<Rightarrow> u8 list" where
  "command_payload Probe = []"
| "command_payload Reset = []"
| "command_payload (Gpio_Cfg dir port pin) = [ucast dir, ucast port, pin]"
| "command_payload (Gpio_Set level port pin) = [ucast level, ucast port, pin]"
| "command_payload (Gpio_Get port pin) = [ucast port, pin]"
| "command_payload (Gpio_Toggle port pin) = [ucast port, pin]"
| "command_payload (Gpio_Irq_Cfg edge port pin) = [ucast edge, ucast port, pin]"
| "command_payload (Gpio_Irq_Bind edge in_port in_pin action out_port out_pin) =
     [ucast edge, ucast in_port, in_pin, ucast action, ucast out_port, out_pin]"
| "command_payload (Gpio_Irq_Unbind port pin) = [ucast port, pin]"
| "command_payload (Pwm_Group_Cfg freq grp) = u32_le freq @ [grp]"
| "command_payload (Pwm_Group_Get grp) = [grp]"
| "command_payload (Pwm_Group_Release grp) = [grp]"
| "command_payload (Pwm_Channel_Cfg polarity port pin) = [ucast polarity, ucast port, pin]"
| "command_payload (Pwm_Channel_Set duty port pin) = u16_le duty @ [ucast port, pin]"
| "command_payload (Pwm_Channel_Get port pin) = [ucast port, pin]"
| "command_payload (Pwm_Channel_Release port pin) = [ucast port, pin]"

definition valid_pin :: "port_t \<Rightarrow> u8 \<Rightarrow> bool" where
  "valid_pin port pin \<longleftrightarrow> port \<le> 6 \<and> pin \<le> 15"

fun valid_command :: "command \<Rightarrow> bool" where
  "valid_command Probe = True"
| "valid_command Reset = True"
| "valid_command (Gpio_Cfg dir port pin) = (dir \<le> 1 \<and> valid_pin port pin)"
| "valid_command (Gpio_Set level port pin) = (level \<le> 1 \<and> valid_pin port pin)"
| "valid_command (Gpio_Get port pin) = valid_pin port pin"
| "valid_command (Gpio_Toggle port pin) = valid_pin port pin"
| "valid_command (Gpio_Irq_Cfg edge port pin) = (edge \<le> 3 \<and> valid_pin port pin)"
| "valid_command (Gpio_Irq_Bind edge in_port in_pin action out_port out_pin) =
     (1 \<le> edge \<and> edge \<le> 3 \<and> action \<le> 2 \<and> valid_pin in_port in_pin \<and> valid_pin out_port out_pin)"
| "valid_command (Gpio_Irq_Unbind port pin) = valid_pin port pin"
| "valid_command (Pwm_Group_Cfg freq grp) = (1 \<le> freq \<and> freq \<le> 1000000 \<and> grp \<le> 2)"
| "valid_command (Pwm_Group_Get grp) = (grp \<le> 2)"
| "valid_command (Pwm_Group_Release grp) = (grp \<le> 2)"
| "valid_command (Pwm_Channel_Cfg polarity port pin) = (polarity \<le> 1 \<and> valid_pin port pin)"
| "valid_command (Pwm_Channel_Set duty port pin) = (duty \<le> 1000 \<and> valid_pin port pin)"
| "valid_command (Pwm_Channel_Get port pin) = valid_pin port pin"
| "valid_command (Pwm_Channel_Release port pin) = valid_pin port pin"

section \<open>Frames\<close>

text \<open>SOF, then the body, then the checksum of the body, low byte first.\<close>

definition seal :: "u8 list \<Rightarrow> u8 list" where
  "seal body = PROTOCOL_SOF # body @ u16_le (crc16 body)"

definition encode_frame :: "opcode \<Rightarrow> u8 list \<Rightarrow> u8 list" where
  "encode_frame op p = seal (opcode_byte op # word_of_nat (length p) # p)"

definition encode_command :: "command \<Rightarrow> u8 list" where
  "encode_command c = encode_frame (command_opcode c) (command_payload c)"

text \<open>The receiver's side: check the start byte, the length and the checksum.\<close>

definition decode_frame :: "u8 list \<Rightarrow> (u8 \<times> u8 list) option" where
  "decode_frame f =
     (case f of
        s # op # n # r \<Rightarrow>
          (let p = take (unat n) r; t = drop (unat n) r in
           if s = PROTOCOL_SOF \<and> length r = unat n + 2 \<and> le_u16 t = crc16 (op # n # p)
           then Some (op, p) else None)
      | _ \<Rightarrow> None)"

fun decode_payload :: "opcode \<Rightarrow> u8 list \<Rightarrow> command option" where
  "decode_payload OPCODE_PROBE bs =
     (case bs of [] \<Rightarrow> Some Probe | _ \<Rightarrow> None)"
| "decode_payload OPCODE_RESET bs =
     (case bs of [] \<Rightarrow> Some Reset | _ \<Rightarrow> None)"
| "decode_payload OPCODE_GPIO_CFG bs =
     (case bs of [d, p, n] \<Rightarrow> Some (Gpio_Cfg (ucast d) (ucast p) n) | _ \<Rightarrow> None)"
| "decode_payload OPCODE_GPIO_WRITE bs =
     (case bs of [l, p, n] \<Rightarrow> Some (Gpio_Set (ucast l) (ucast p) n) | _ \<Rightarrow> None)"
| "decode_payload OPCODE_GPIO_READ bs =
     (case bs of [p, n] \<Rightarrow> Some (Gpio_Get (ucast p) n) | _ \<Rightarrow> None)"
| "decode_payload OPCODE_GPIO_TOGGLE bs =
     (case bs of [p, n] \<Rightarrow> Some (Gpio_Toggle (ucast p) n) | _ \<Rightarrow> None)"
| "decode_payload OPCODE_GPIO_IRQ_CFG bs =
     (case bs of [e, p, n] \<Rightarrow> Some (Gpio_Irq_Cfg (ucast e) (ucast p) n) | _ \<Rightarrow> None)"
| "decode_payload OPCODE_GPIO_IRQ_BIND bs =
     (case bs of [e, p, n, a, q, m] \<Rightarrow> Some (Gpio_Irq_Bind (ucast e) (ucast p) n (ucast a) (ucast q) m) | _ \<Rightarrow> None)"
| "decode_payload OPCODE_GPIO_IRQ_UNBIND bs =
     (case bs of [p, n] \<Rightarrow> Some (Gpio_Irq_Unbind (ucast p) n) | _ \<Rightarrow> None)"
| "decode_payload OPCODE_PWM_GROUP_CFG bs =
     (case bs of [a, b, c, d, g] \<Rightarrow> Some (Pwm_Group_Cfg (le_u32 [a, b, c, d]) g) | _ \<Rightarrow> None)"
| "decode_payload OPCODE_PWM_GROUP_GET bs =
     (case bs of [g] \<Rightarrow> Some (Pwm_Group_Get g) | _ \<Rightarrow> None)"
| "decode_payload OPCODE_PWM_GROUP_RELEASE bs =
     (case bs of [g] \<Rightarrow> Some (Pwm_Group_Release g) | _ \<Rightarrow> None)"
| "decode_payload OPCODE_PWM_CFG bs =
     (case bs of [l, p, n] \<Rightarrow> Some (Pwm_Channel_Cfg (ucast l) (ucast p) n) | _ \<Rightarrow> None)"
| "decode_payload OPCODE_PWM_SET bs =
     (case bs of [a, b, p, n] \<Rightarrow> Some (Pwm_Channel_Set (le_u16 [a, b]) (ucast p) n) | _ \<Rightarrow> None)"
| "decode_payload OPCODE_PWM_GET bs =
     (case bs of [p, n] \<Rightarrow> Some (Pwm_Channel_Get (ucast p) n) | _ \<Rightarrow> None)"
| "decode_payload OPCODE_PWM_RELEASE bs =
     (case bs of [p, n] \<Rightarrow> Some (Pwm_Channel_Release (ucast p) n) | _ \<Rightarrow> None)"

definition opcode_of_byte :: "u8 \<Rightarrow> opcode option" where
  "opcode_of_byte b = find (\<lambda>op. opcode_byte op = b) all_opcodes"

definition decode_command :: "u8 list \<Rightarrow> command option" where
  "decode_command f = do {
     (b, p) \<leftarrow> decode_frame f;
     op \<leftarrow> opcode_of_byte b;
     c \<leftarrow> decode_payload op p;
     if valid_command c then Some c else None
   }"

section \<open>Decoding undoes encoding\<close>

lemma opcode_of_byte [simp]: "opcode_of_byte (opcode_byte op) = Some op"
  by (cases op) (simp_all add: opcode_of_byte_def all_opcodes_def)

lemma length_command_payload: "length (command_payload c) \<le> 6"
  by (cases c) simp_all

lemma length_encode_frame [simp]: "length (encode_frame op p) = 5 + length p"
  by (simp add: encode_frame_def seal_def)

lemma decode_encode_frame:
  "length p < 256 \<Longrightarrow> decode_frame (encode_frame op p) = Some (opcode_byte op, p)"
  by (simp add: decode_frame_def encode_frame_def seal_def le_u16_inverse Let_def)

lemma decode_command_payload:
  "valid_command c \<Longrightarrow> decode_payload (command_opcode c) (command_payload c) = Some c"
proof -
  have "d \<le> b \<Longrightarrow> b \<le> 255 \<Longrightarrow> ucast (ucast d :: u8) = d" for d b :: u32
    by (rule ucast_u8_u32) (rule order_trans)
  note up = this [of _ 1] this [of _ 2] this [of _ 3] this [of _ 6]
  have "le_u16 [ucast v, ucast (drop_bit 8 v)] = v" for v
    using le_u16_inverse [of v] by (simp add: u16_le_def)
  moreover have "le_u32 [ucast v, ucast (drop_bit 8 v), ucast (drop_bit 16 v), ucast (drop_bit 24 v)] = v" for v
    using le_u32_inverse [of v] by (simp add: u32_le_def)
  ultimately show "valid_command c \<Longrightarrow> decode_payload (command_opcode c) (command_payload c) = Some c"
    by (cases c) (simp_all add: u16_le_def u32_le_def valid_pin_def up)
qed

lemma decode_encode_command:
  "valid_command c \<Longrightarrow> decode_command (encode_command c) = Some c"
  using length_command_payload [of c]
  by (simp add: decode_command_def encode_command_def decode_encode_frame decode_command_payload)

text \<open>Every frame is prefix-free: no encoded command is a proper prefix of another.\<close>

lemma encode_command_prefix:
  assumes "encode_command c @ xs = encode_command d @ ys" "valid_command c" "valid_command d"
  shows "c = d \<and> xs = ys"
proof -
  have len: "encode_command e ! 2 = word_of_nat (length (command_payload e))"
    and l: "length (encode_command e) = 5 + length (command_payload e)" for e
    by (simp_all add: encode_command_def encode_frame_def seal_def)
  have "(encode_command c @ xs) ! 2 = encode_command c ! 2"
    "(encode_command d @ ys) ! 2 = encode_command d ! 2"
    by (simp_all add: nth_append l)
  with assms(1) have "(word_of_nat (length (command_payload c)) :: u8) = word_of_nat (length (command_payload d))"
    by (simp add: len)
  moreover have "length (command_payload e) < 256" for e
    using length_command_payload [of e] by simp
  ultimately have "length (command_payload c) = length (command_payload d)"
    by (simp only: u8_of_nat_inj)
  then have "length (encode_command c) = length (encode_command d)" by (simp add: l)
  with assms(1) have eq: "encode_command c = encode_command d" and "xs = ys" by simp_all
  have "Some c = Some d"
    unfolding decode_encode_command [OF assms(2), symmetric] decode_encode_command [OF assms(3), symmetric] eq ..
  with \<open>xs = ys\<close> show ?thesis by blast
qed

end
