(* ===== verification/Response.thy ===== *)
theory Response
  imports Wire
begin

text \<open>
  The response side of \<^verbatim>\<open>library/src/protocol.c\<close>: \<open>protocol_parse_response\<close>, the abstract
  format it decodes, the proof that it decodes exactly that format, and what the checksum
  lets it refuse.
\<close>

section \<open>The parser\<close>

record protocol_response =
  ack :: bool
  data :: "u8 list"
  data_len :: nat

text \<open>\<open>protocol_response_t response = {0}\<close>: an array of four data bytes, all zero.\<close>

definition response_zero :: protocol_response where
  "response_zero = \<lparr>ack = False, data = replicate PROTOCOL_MAX_RESPONSE_DATA 0, data_len = 0\<rparr>"

lemma length_response_zero [simp]: "length (data response_zero) = 4"
  by (simp add: response_zero_def)

text \<open>The copy loop: \<open>response->data[i] = frame[RESPONSE_DATA_IDX + i]\<close>.\<close>

function copy_data :: "u8 list \<Rightarrow> nat \<Rightarrow> nat \<Rightarrow> u8 list \<Rightarrow> u8 list option" where
  "copy_data frame len i d =
     (if i < len
      then do {
        b \<leftarrow> peek frame (3 + i);
        d \<leftarrow> poke d i b;
        copy_data frame len (Suc i) d
      }
      else Some d)"
  by pat_completeness auto
termination
  by (relation "measure (\<lambda>(frame, len, i, d). len - i)") auto

declare copy_data.simps [simp del]

definition protocol_parse_response ::
  "u8 list ptr \<Rightarrow> nat \<Rightarrow> protocol_response ptr \<Rightarrow> (mcu_status \<times> protocol_response ptr) option" where
  "protocol_parse_response frame frame_len response =
     (case (frame, response) of
        (Some f, Some r) \<Rightarrow>
          if frame_len < PROTOCOL_MIN_RESPONSE_FRAME then Some (MCUCO_STATUS_ERR_BAD_FRAME, response)
          else do {
            sof \<leftarrow> peek f 0;
            if sof \<noteq> PROTOCOL_SOF then Some (MCUCO_STATUS_ERR_BAD_FRAME, response)
            else do {
              l \<leftarrow> peek f 1;
              let len = unat l;
              if len < PROTOCOL_MIN_RESPONSE_LEN \<or> len > PROTOCOL_MAX_RESPONSE_LEN
              then Some (MCUCO_STATUS_ERR_BAD_FRAME, response)
              else if frame_len < PROTOCOL_RESPONSE_OVERHEAD + len
              then Some (MCUCO_STATUS_ERR_BAD_FRAME, response)
              else do {
                computed \<leftarrow> crc16_compute (Some (drop 1 f)) (len + 1);
                lo \<leftarrow> peek f (2 + len);
                hi \<leftarrow> peek f (3 + len);
                if computed \<noteq> ucast lo OR push_bit 8 (ucast hi)
                then Some (MCUCO_STATUS_ERR_BAD_FRAME, response)
                else do {
                  a \<leftarrow> peek f 2;
                  d \<leftarrow> copy_data f (len - 1) 0 (data r);
                  Some (MCUCO_STATUS_OK, Some (r\<lparr>ack := a \<noteq> 0, data := d, data_len := len - 1\<rparr>))
                }
              }
            }
          }
      | _ \<Rightarrow> Some (MCUCO_STATUS_ERR_ARG, response))"

section \<open>The format it decodes\<close>

text \<open>A response frame with acknowledge byte \<open>a\<close> and data \<open>d\<close>.\<close>

definition encode_response :: "u8 \<Rightarrow> u8 list \<Rightarrow> u8 list" where
  "encode_response a d = seal (byte_of (Suc (length d)) # a # d)"

definition decode_response :: "u8 list \<Rightarrow> (u8 \<times> u8 list) option" where
  "decode_response bs =
     (case bs of
        s # l # r \<Rightarrow>
          (let k = unat l in
           if s = PROTOCOL_SOF \<and> 1 \<le> k \<and> k \<le> 5 \<and> k + 2 \<le> length r
              \<and> le_u16 (take 2 (drop k r)) = crc16 (l # take k r)
           then Some (hd r, take (k - 1) (tl r)) else None)
      | _ \<Rightarrow> None)"

lemma length_encode_response [simp]: "length (encode_response a d) = 5 + length d"
  by (simp add: encode_response_def seal_def)

lemma encode_response_Cons:
  "encode_response a d = PROTOCOL_SOF # byte_of (Suc (length d)) # a # d
     @ u16_le (crc16 (byte_of (Suc (length d)) # a # d))"
  by (simp add: encode_response_def seal_def)

text \<open>Decoding accepts exactly the strings that start with a frame, whatever follows it.\<close>

lemma decode_encode_response:
  "length d \<le> 4 \<Longrightarrow> decode_response (encode_response a d @ rest) = Some (a, d)"
  by (simp add: decode_response_def encode_response_Cons Let_def le_u16_inverse)

lemma decode_response_Some:
  assumes "decode_response bs = Some (a, d)"
  shows "length d \<le> 4 \<and> (\<exists>rest. bs = encode_response a d @ rest)"
proof -
  obtain s l r where bs: "bs = s # l # r"
    using assms by (auto simp: decode_response_def split: list.splits)
  let ?k = "unat l"
  from assms have c: "s = PROTOCOL_SOF" "1 \<le> ?k" "?k \<le> 5" "?k + 2 \<le> length r"
    "le_u16 (take 2 (drop ?k r)) = crc16 (l # take ?k r)" and ad: "a = hd r" "d = take (?k - 1) (tl r)"
    by (auto simp: bs decode_response_def Let_def split: if_splits)
  have r: "take ?k r = a # d" using c ad by (cases r; cases ?k) auto
  have ld: "Suc (length d) = ?k" using arg_cong [OF r, of length] c by simp
  then have l: "l = byte_of (Suc (length d))" by (simp only: byte_of_unat)
  have "length (take 2 (drop ?k r)) = 2" using c by simp
  then have "take 2 (drop ?k r) = u16_le (crc16 (l # a # d))"
    using c r u16_le_inverse by metis
  then have "r = (a # d) @ u16_le (crc16 (l # a # d)) @ drop 2 (drop ?k r)"
    using r append_take_drop_id [of ?k r] append_take_drop_id [of 2 "drop ?k r"] by metis
  then have "bs = encode_response a d @ drop 2 (drop ?k r)"
    using l c(1) by (simp add: bs encode_response_Cons)
  then show ?thesis using ld c by auto
qed

lemma decode_response_iff:
  "decode_response bs = Some (a, d) \<longleftrightarrow> length d \<le> 4 \<and> (\<exists>rest. bs = encode_response a d @ rest)"
  using decode_response_Some decode_encode_response by blast

section \<open>The parser decodes the format\<close>

lemma copy_data_eq:
  "i \<le> n \<Longrightarrow> 3 + n \<le> length f \<Longrightarrow> n \<le> length d
   \<Longrightarrow> copy_data f n i d = Some (take i d @ take (n - i) (drop (3 + i) f) @ drop n d)"
proof (induction f n i d rule: copy_data.induct)
  case (1 f n i d)
  show ?case
  proof (cases "i < n")
    case True
    let ?d = "d[i := f ! (3 + i)]"
    have tk: "take (n - i) (drop (3 + i) f) = f ! (3 + i) # take (n - Suc i) (drop (3 + Suc i) f)"
    proof -
      have "n - i = Suc (n - Suc i)" using True by simp
      then show ?thesis
        using True "1.prems" by (simp add: Cons_nth_drop_Suc [symmetric])
    qed
    have "copy_data f n i d = copy_data f n (Suc i) ?d"
      using True "1.prems" by (subst copy_data.simps) (simp add: mem_simps)
    also have "\<dots> = Some (take (Suc i) ?d @ take (n - Suc i) (drop (3 + Suc i) f) @ drop n ?d)"
      using True "1.prems" "1.IH" [of "f ! (3 + i)" ?d] by (simp add: mem_simps)
    also have "take (Suc i) ?d = take i d @ [f ! (3 + i)]"
      using True "1.prems" by (subst take_Suc_conv_app_nth) auto
    finally show ?thesis
      using True tk by simp
  next
    case False
    with "1.prems" show ?thesis by (subst copy_data.simps) simp
  qed
qed

definition filled :: "protocol_response \<Rightarrow> u8 \<Rightarrow> u8 list \<Rightarrow> protocol_response" where
  "filled r a d = r\<lparr>ack := a \<noteq> 0, data := d @ drop (length d) (data r), data_len := length d\<rparr>"

lemma parse_refines:
  assumes n: "n \<le> length f" and r: "length (data r) = 4"
  shows "protocol_parse_response (Some f) n (Some r) =
    Some (case decode_response (take n f) of
            None \<Rightarrow> (MCUCO_STATUS_ERR_BAD_FRAME, Some r)
          | Some (a, d) \<Rightarrow> (MCUCO_STATUS_OK, Some (filled r a d)))"
proof (cases "n < 5")
  case True
  then have "decode_response (take n f) = None"
    by (cases "decode_response (take n f)") (auto dest!: decode_response_Some arg_cong [of _ _ length])
  with True show ?thesis by (simp add: protocol_parse_response_def)
next
  case False
  then obtain s l t where f: "f = s # l # t" and t: "n - 2 \<le> length t" "3 \<le> n - 2"
    using n by (cases f; cases "tl f") auto
  let ?k = "unat l"
  have take: "take n f = s # l # take (n - 2) t" using False f by (cases n; cases "n - 1") auto
  have guard: "n < 4 + ?k \<longleftrightarrow> \<not> ?k + 2 \<le> n - 2" using False by auto
  show ?thesis
  proof (cases "s = PROTOCOL_SOF \<and> 1 \<le> ?k \<and> ?k \<le> 5 \<and> ?k + 2 \<le> n - 2")
    case bad: False
    then have "decode_response (take n f) = None"
      using t by (auto simp: take decode_response_def Let_def)
    with bad False show ?thesis
      by (auto simp: protocol_parse_response_def f peek_def guard Let_def)
  next
    case ok: True
    then have k: "Suc (Suc ?k) \<le> length t" "Suc ?k < length t" using t by simp_all
    have crc: "crc16_compute (Some (l # t)) (Suc ?k) = Some (crc16 (l # take ?k t))"
      using k by (simp add: mem_simps)
    have two: "take 2 (drop ?k (take (n - 2) t)) = [t ! ?k, t ! Suc ?k]"
      using ok t by (simp add: take_2_drop)
    have pre: "take ?k (take (n - 2) t) = take ?k t" using ok by (simp add: min_def)
    have dec: "decode_response (take n f) =
        (if crc16 (l # take ?k t) = ucast (t ! ?k) OR push_bit 8 (ucast (t ! Suc ?k))
         then Some (hd t, take (?k - 1) (tl t)) else None)"
      using ok t by (auto simp: take decode_response_def Let_def two pre le_u16_conv hd_take tl_take min_def)
    have cp: "copy_data f (?k - 1) 0 (data r) = Some (take (?k - 1) (tl t) @ drop (?k - 1) (data r))"
      using ok r k by (subst copy_data_eq) (auto simp: f eval_nat_numeral drop_Suc)
    have reads: "peek f 0 = Some s" "peek f 1 = Some l" "peek f 2 = Some (hd t)"
      "peek f (2 + ?k) = Some (t ! ?k)" "peek f (3 + ?k) = Some (t ! Suc ?k)"
      using k by (cases t; simp add: f peek_def)+
    have "protocol_parse_response (Some f) n (Some r) =
        Some (if crc16 (l # take ?k t) = ucast (t ! ?k) OR push_bit 8 (ucast (t ! Suc ?k))
              then (MCUCO_STATUS_OK, Some (filled r (hd t) (take (?k - 1) (tl t))))
              else (MCUCO_STATUS_ERR_BAD_FRAME, Some r))"
    proof -
      have len: "length (take (?k - 1) (tl t)) = ?k - 1" using k by simp
      have crc': "crc16_compute (Some (drop 1 f)) (?k + 1) = Some (crc16 (l # take ?k t))"
        using crc by (simp add: f)
      show ?thesis
        using ok False guard
        by (simp add: protocol_parse_response_def Let_def reads reads [simplified] crc' cp filled_def len
            del: length_take One_nat_def)
    qed
    then show ?thesis by (simp add: dec)
  qed
qed


section \<open>Corruption\<close>

text \<open>
  A string that differs from a frame of its own length and its own LEN byte only in one place,
  or in two neighbouring places on one side of the checksum, is not a frame.
\<close>

lemma decode_corrupted:
  assumes d: "length d \<le> 4" and len: "length g = length (encode_response a d)"
    and neq: "g \<noteq> encode_response a d" and lenbyte: "g ! 1 = encode_response a d ! 1"
    and same: "\<And>k. k < length g \<Longrightarrow> k \<noteq> i \<Longrightarrow> k \<noteq> Suc i \<Longrightarrow> g ! k = encode_response a d ! k"
    and side: "Suc (Suc (Suc i)) \<noteq> length g"
  shows "decode_response g = None"
proof (cases "decode_response g")
  case (Some ae)
  obtain b e where "ae = (b, e)" by (cases ae)
  with Some have e: "length e \<le> 4" and "\<exists>rest. g = encode_response b e @ rest"
    by (auto dest: decode_response_Some)
  then obtain rest where g: "g = encode_response b e @ rest" by blast
  have "byte_of (Suc (length e)) = byte_of (Suc (length d))"
    using lenbyte by (simp add: g encode_response_Cons)
  then have le: "length e = length d"
    using d e by (simp add: byte_of_inj)
  with len g have rest: "rest = []" by simp
  define X where "X = byte_of (Suc (length d)) # a # d"
  define Y where "Y = byte_of (Suc (length d)) # b # e"
  have f: "encode_response a d = PROTOCOL_SOF # X @ u16_le (crc16 X)"
    and gg: "g = PROTOCOL_SOF # Y @ u16_le (crc16 Y)"
    by (simp_all add: g rest encode_response_Cons le X_def Y_def)
  have XY: "length X = length Y" using le by (simp add: X_def Y_def)
  have agree: "X ! k = Y ! k" if "k < length X" "Suc k \<noteq> i" "k \<noteq> i" for k
    using same [of "Suc k"] that XY by (simp add: f gg nth_append)
  have XY0: "X ! 0 = Y ! 0" by (simp add: X_def Y_def)
  have neqXY: "X \<noteq> Y" using neq f gg by auto
  show ?thesis
  proof (cases "i < length X")
    case True
    have tail: "g ! k = encode_response a d ! k" if "length X < k" "k < length g" for k
      using same [of k] that True by simp
    have "u16_le (crc16 Y) ! j = u16_le (crc16 X) ! j" if "j < 2" for j
      using tail [of "Suc (length X) + j"] that XY len by (simp add: f gg nth_append)
    then have "u16_le (crc16 Y) = u16_le (crc16 X)"
      by (intro nth_equalityI) simp_all
    then have crc: "crc16 X = crc16 Y" by (metis le_u16_inverse)
    show ?thesis
    proof (cases i)
      case 0
      have "X ! k = Y ! k" if "k < length X" for k
        using agree [OF that] XY0 0 by (cases k) auto
      then have "X = Y" using XY by (intro nth_equalityI) auto
      with neqXY show ?thesis by contradiction
    next
      case (Suc j)
      then have "crc16 X \<noteq> crc16 Y"
        using True XY neqXY agree by (intro crc.detects_pair [of X Y j]) auto
      with crc show ?thesis by contradiction
    qed
  next
    case False
    with side have "length X < i" using XY by (simp add: gg)
    then have "X = Y" using XY agree by (intro nth_equalityI) auto
    with neqXY show ?thesis by contradiction
  qed
qed simp

lemma parse_null:
  "protocol_parse_response None n r = Some (MCUCO_STATUS_ERR_ARG, r)"
  "protocol_parse_response f n None = Some (MCUCO_STATUS_ERR_ARG, None)"
  by (simp_all add: protocol_parse_response_def split: option.splits)

lemma length_data_filled [simp]: "length d \<le> length (data r) \<Longrightarrow> length (data (filled r a d)) = length (data r)"
  by (simp add: filled_def)

section \<open>Properties\<close>

text \<open>C6. \<open>protocol_parse_response\<close> accepts exactly the buffers that start with a well-formed
  response frame, and then reports its acknowledge byte and data; every other buffer is
  MCUCO_STATUS_ERR_BAD_FRAME with the caller's structure unchanged. It never reads past
  \<open>n\<close> bytes nor writes past its four data bytes.\<close>

theorem parse_response_exact:
  assumes "n \<le> length f" "length (data r) = PROTOCOL_MAX_RESPONSE_DATA"
  shows "protocol_parse_response (Some f) n (Some r) =
      Some (case decode_response (take n f) of
              None \<Rightarrow> (MCUCO_STATUS_ERR_BAD_FRAME, Some r)
            | Some (a, d) \<Rightarrow> (MCUCO_STATUS_OK, Some (filled r a d)))
    \<and> (decode_response (take n f) = Some (a, d)) = (length d \<le> 4 \<and> (\<exists>rest. take n f = encode_response a d @ rest))"
  using parse_refines [of n f r] assms by (simp add: decode_response_iff)

theorem parse_response_exact_witness:
  "protocol_parse_response (Some [0xA5, 2, 1, 1, 0xEC, 0x81, 0]) 6 (Some response_zero)
   = Some (MCUCO_STATUS_OK, Some (filled response_zero 1 [1]))"
proof -
  have "decode_response (take 6 [0xA5, 2, 1, 1, 0xEC, 0x81, 0]) = Some (1, [1])" by code_simp
  with parse_response_exact [of 6 "[0xA5, 2, 1, 1, 0xEC, 0x81, 0]" response_zero 1 "[1]"] show ?thesis
    by (simp add: response_zero_def)
qed

text \<open>C17. Corruption is refused: a received buffer that has the length and the LEN byte of a frame
  but differs from it, within two neighbouring bytes on one side of the checksum boundary, is
  never accepted.\<close>

theorem parse_rejects_corruption:
  assumes "length d \<le> 4" "length g = length (encode_response a d)" "length (data r) = 4"
    and "g \<noteq> encode_response a d" "g ! 1 = encode_response a d ! 1"
    and "\<And>k. k < length g \<Longrightarrow> k \<noteq> i \<Longrightarrow> k \<noteq> Suc i \<Longrightarrow> g ! k = encode_response a d ! k"
    and "Suc (Suc (Suc i)) \<noteq> length g"
  shows "protocol_parse_response (Some g) (length g) (Some r) = Some (MCUCO_STATUS_ERR_BAD_FRAME, Some r)"
  using parse_refines [of "length g" g r] decode_corrupted [OF assms(1,2,4-7)] assms(3) by simp

theorem parse_rejects_corruption_witness:
  "protocol_parse_response (Some [0xA5, 2, 1, 0, 0xEC, 0x81]) 6 (Some response_zero)
   = Some (MCUCO_STATUS_ERR_BAD_FRAME, Some response_zero)"
proof -
  have f: "encode_response 1 [1] = [0xA5, 2, 1, 1, 0xEC, 0x81]" by code_simp
  have "protocol_parse_response (Some [0xA5, 2, 1, 0, 0xEC, 0x81]) (length [0xA5, 2, 1, 0, 0xEC, 0x81 :: u8])
      (Some response_zero) = Some (MCUCO_STATUS_ERR_BAD_FRAME, Some response_zero)"
    by (rule parse_rejects_corruption [where a = 1 and d = "[1]" and i = 2])
       (auto simp: f response_zero_def less_Suc_eq numeral_eq_Suc)
  moreover have "length [0xA5, 2, 1, 0, 0xEC, 0x81 :: u8] = 6" by simp
  ultimately show ?thesis by (simp only:)
qed

end
