(* ===== verification/Transport.thy ===== *)
theory Transport
  imports Uart Response
begin

text \<open>
  \<^verbatim>\<open>library/src/command_transport.c\<close>: sending a frame, and receiving one response under a
  single deadline. The abstract specification is \<open>scan_response\<close>, a function of the bytes on
  the line alone; \<open>receive_response\<close> refines it.
\<close>

section \<open>The code\<close>

definition transport_now_ms :: "'k os \<Rightarrow> 'k world \<Rightarrow> int \<times> 'k world" where
  "transport_now_ms os w =
     (case sys_clock_gettime os w of
        (now, w) \<Rightarrow> (tv_sec now * 1000 + tv_nsec now sdiv 1000000, w))"

definition read_exactly ::
  "'k os \<Rightarrow> int \<Rightarrow> u8 list \<Rightarrow> nat \<Rightarrow> nat \<Rightarrow> int \<Rightarrow> 'k world
   \<Rightarrow> (mcu_status \<times> u8 list \<times> 'k world) option" where
  "read_exactly os fd buf off len deadline_ms w =
     (let (now, w) = transport_now_ms os w; time_left_ms = deadline_ms - now in
      if time_left_ms \<le> 0 then Some (MCUCO_STATUS_ERR_NO_RESPONSE, buf, w)
      else do {
        (bytes_read, buf, w) \<leftarrow> uart_read os fd buf off len (c_int time_left_ms) w;
        if bytes_read = - ETIMEDOUT then Some (MCUCO_STATUS_ERR_NO_RESPONSE, buf, w)
        else if bytes_read < 0 then Some (MCUCO_STATUS_ERR_IO, buf, w)
        else Some (MCUCO_STATUS_OK, buf, w)
      })"

definition open_port :: "'k os \<Rightarrow> string \<Rightarrow> 'k world \<Rightarrow> int \<times> 'k world" where
  "open_port os device_path w = uart_open os device_path w"

definition close_port :: "'k os \<Rightarrow> int \<Rightarrow> 'k world \<Rightarrow> 'k world" where
  "close_port os fd w = uart_close os fd w"

definition transmit_command ::
  "'k os \<Rightarrow> int \<Rightarrow> u8 list ptr \<Rightarrow> nat \<Rightarrow> 'k world \<Rightarrow> (mcu_status \<times> 'k world) option" where
  "transmit_command os fd frame frame_len w =
     (case frame of
        None \<Rightarrow> Some (MCUCO_STATUS_ERR_ARG, w)
      | Some f \<Rightarrow>
          if frame_len = 0 then Some (MCUCO_STATUS_ERR_ARG, w)
          else do {
            (r, w) \<leftarrow> uart_write os fd f frame_len w;
            if r < 0 then Some (MCUCO_STATUS_ERR_IO, w) else Some (MCUCO_STATUS_OK, w)
          })"

text \<open>The do-while loop that skips to the start byte.\<close>

partial_function (option) hunt_sof ::
  "'k os \<Rightarrow> int \<Rightarrow> u8 list \<Rightarrow> int \<Rightarrow> 'k world \<Rightarrow> (mcu_status \<times> u8 list \<times> 'k world) option" where
  "hunt_sof os fd frame deadline_ms w =
     (case read_exactly os fd frame 0 1 deadline_ms w of
        None \<Rightarrow> None
      | Some (status, frame, w) \<Rightarrow>
          if status \<noteq> MCUCO_STATUS_OK then Some (status, frame, w)
          else
            (case peek frame 0 of
               None \<Rightarrow> None
             | Some b \<Rightarrow>
                 if b \<noteq> PROTOCOL_SOF then hunt_sof os fd frame deadline_ms w
                 else Some (MCUCO_STATUS_OK, frame, w)))"

definition receive_response ::
  "'k os \<Rightarrow> int \<Rightarrow> int \<Rightarrow> protocol_response ptr \<Rightarrow> 'k world
   \<Rightarrow> (mcu_status \<times> protocol_response ptr \<times> 'k world) option" where
  "receive_response os fd timeout_ms response w =
     (if response = None then Some (MCUCO_STATUS_ERR_ARG, response, w)
      else
        let (now, w) = transport_now_ms os w;
            deadline_ms = now + timeout_ms;
            frame = replicate PROTOCOL_MAX_RESPONSE_FRAME 0
        in do {
          (status, frame, w) \<leftarrow> hunt_sof os fd frame deadline_ms w;
          if status \<noteq> MCUCO_STATUS_OK then Some (status, response, w)
          else do {
            (status, frame, w) \<leftarrow> read_exactly os fd frame 1 1 deadline_ms w;
            if status \<noteq> MCUCO_STATUS_OK then Some (status, response, w)
            else do {
              l \<leftarrow> peek frame 1;
              let len = unat l;
              if len < PROTOCOL_MIN_RESPONSE_LEN \<or> len > PROTOCOL_MAX_RESPONSE_LEN
              then Some (MCUCO_STATUS_ERR_BAD_FRAME, response, w)
              else do {
                (status, frame, w) \<leftarrow> read_exactly os fd frame 2 (len + 2) deadline_ms w;
                if status \<noteq> MCUCO_STATUS_OK then Some (status, response, w)
                else do {
                  (status, response) \<leftarrow>
                    protocol_parse_response (Some frame) (PROTOCOL_RESPONSE_OVERHEAD + len) response;
                  Some (status, response, w)
                }
              }
            }
          }
        })"

section \<open>Reading under a shared deadline\<close>

lemma transport_now_ms [simp]: "transport_now_ms os w = now_ms os w"
  by (simp add: transport_now_ms_def now_ms_def)

lemma read_exactly_status:
  "read_exactly os fd buf off n D w = Some (s, buf', w') \<Longrightarrow> s \<in> {0, 0x81, 0x82}"
  by (auto simp: read_exactly_def Let_def bind_eq_Some_conv split: prod.splits if_splits)

interpretation exactly: timed_reader read_exactly "\<lambda>s. s = 0" "\<lambda>s. s = 0x82" "\<lambda>t w. t"
proof (unfold_locales, goal_cases)
  case (1 os fd buf off n t w s buf' w')
  obtain now w1 where now: "now_ms os w = (now, w1)" by fastforce
  note l = now_ms_later [OF 1(1) now]
  show ?case
  proof (cases "t - now \<le> 0")
    case True
    with 1 now l have "s = 0x82" "buf' = buf" "w' = w1" by (simp_all add: read_exactly_def)
    with True l 1(3,4) show ?thesis
      by (auto simp: took_def poke_all_Nil later_iff)
  next
    case False
    with 1(2) now obtain r where rd: "uart_read os fd buf off n (c_int (t - now)) w1 = Some (r, buf', w')"
      and s: "s = (if r = - 110 then 0x82 else if r < 0 then 0x81 else 0)"
      by (auto simp: read_exactly_def bind_eq_Some_conv split: if_splits)
    from uart.reads [OF 1(1) rd 1(3,4)] obtain bs where bs: "took w1 buf off bs w' buf'"
      "if 0 \<le> r then length bs = n else length bs < n"
      "r = - 110 \<longrightarrow> c_int (t - now) < 2 ^ 31 \<longrightarrow> clk w1 + c_int (t - now) \<le> clk w'" by auto
    have "took w buf off bs w' buf'" using bs(1) l by (auto simp: took_def later_iff)
    moreover have "t \<le> clk w'" if "r = - 110" "t - clk w < 2 ^ 31"
      using that bs(3) l False by (simp add: c_int_id later_iff)
    ultimately show ?thesis using bs(2) s by (intro exI [of _ bs]) (auto split: if_splits)
  qed
next
  case (2 os rank off n buf fd t w)
  obtain now w1 where now: "now_ms os w = (now, w1)" by fastforce
  from uart.returns [OF 2, of fd "c_int (t - now)" w1] now show ?case
    by (auto simp: read_exactly_def)
next
  case (3 os rank D t w off n buf fd)
  obtain now w1 where now: "now_ms os w = (now, w1)" by fastforce
  note l = now_ms_later [OF 3(1) now]
  have "rx w \<noteq> []" using 3(7,9) by auto
  from delivers_clock [OF 3(3) this 3(8) now] have c: "clk w1 < D" .
  have left: "c_int (t - now) = t - now" "\<not> t - now \<le> 0"
    using l c 3(4,5) by (auto simp: c_int_id later_iff)
  have "\<exists>r buf' w'. uart_read os fd buf off n (t - now) w1 = Some (r, buf', w') \<and> 0 \<le> r \<and> clk w' < D"
    using 3 l c by (intro uart.delivers) (auto simp: later_iff)
  with now left show ?case by (force simp: read_exactly_def)
qed

section \<open>Skipping to the start byte\<close>

text \<open>
  \<open>hunt_contract w frame D (s, frame', w')\<close>: only bytes other than SOF were skipped; on success
  the next one was SOF, and it is in \<open>frame\<close>.
\<close>

definition hunt_contract ::
  "'k world \<Rightarrow> u8 list \<Rightarrow> int \<Rightarrow> mcu_status \<times> u8 list \<times> 'k world \<Rightarrow> bool" where
  "hunt_contract w frame D res \<longleftrightarrow>
     (case res of (s, frame', w') \<Rightarrow>
        s \<in> {0, 0x81, 0x82} \<and> later (w\<lparr>rx := rx w'\<rparr>) w' \<and> tl frame' = tl frame \<and> frame' \<noteq> []
        \<and> (\<exists>junk. PROTOCOL_SOF \<notin> set junk
             \<and> (if s = 0 then rx w = junk @ PROTOCOL_SOF # rx w' \<and> hd frame' = PROTOCOL_SOF
                else rx w = junk @ rx w'))
        \<and> (s = 0x82 \<longrightarrow> D - clk w < 2 ^ 31 \<longrightarrow> D \<le> clk w'))"

text \<open>One byte read into the front of a frame.\<close>

lemma read_one:
  assumes "posix os" "read_exactly os fd frame 0 1 D w = Some (s, frame', w')" "frame \<noteq> []"
  shows "tl frame' = tl frame" "frame' \<noteq> []" "later (w\<lparr>rx := rx w'\<rparr>) w'"
    "s = 0 \<Longrightarrow> rx w = hd frame' # rx w'" "s \<noteq> 0 \<Longrightarrow> rx w' = rx w"
    "s = 0x82 \<Longrightarrow> D - clk w < 2 ^ 31 \<Longrightarrow> D \<le> clk w'"
proof -
  have n: "0 + 1 \<le> length frame" using assms(3) by (cases frame) auto
  from exactly.reads [OF assms(1,2) n] obtain bs where
    bs: "took w frame 0 bs w' frame'" "if s = 0 then length bs = 1 else length bs < 1"
    and late: "s = 0x82 \<longrightarrow> D - clk w < 2 ^ 31 \<longrightarrow> D \<le> clk w'" by auto
  from bs show "tl frame' = tl frame" "frame' \<noteq> []" "later (w\<lparr>rx := rx w'\<rparr>) w'"
    "s = 0 \<Longrightarrow> rx w = hd frame' # rx w'" "s \<noteq> 0 \<Longrightarrow> rx w' = rx w"
    using assms(3) by (cases frame; cases bs; auto simp: took_def poke_all_def split: if_splits)+
  show "s = 0x82 \<Longrightarrow> D - clk w < 2 ^ 31 \<Longrightarrow> D \<le> clk w'" using late by blast
qed

lemma hunt_sof_contract:
  assumes "hunt_sof os fd frame D w = Some res" "posix os" "frame \<noteq> []"
  shows "hunt_contract w frame D res"
proof (rule hunt_sof.raw_induct
    [where P = "\<lambda>os fd frame D w res. posix os \<longrightarrow> frame \<noteq> [] \<longrightarrow> hunt_contract w frame D res",
     OF _ assms(1), rule_format, OF _ assms(2,3)], goal_cases)
  case (1 f os fd frame D w res)
  note IH = 1(1) and eq = 1(2) and os = 1(3) and ne = 1(4)
  from eq obtain s frame1 w1 where rd: "read_exactly os fd frame 0 1 D w = Some (s, frame1, w1)"
    by (auto split: option.splits prod.splits)
  note r = read_one [OF os rd ne] and st = read_exactly_status [OF rd]
  have pk: "peek frame1 0 = Some (hd frame1)" using r(2) by (cases frame1) (auto simp: peek_def)
  consider "s \<noteq> 0" | "s = 0" "hd frame1 = PROTOCOL_SOF" | "s = 0" "hd frame1 \<noteq> PROTOCOL_SOF" by blast
  then show ?case
  proof cases
    case 1
    with eq rd have "res = (s, frame1, w1)" by simp
    with 1 r st show ?thesis by (auto simp: hunt_contract_def intro!: exI [of _ "[]"])
  next
    case 2
    with eq rd pk have "res = (0, frame1, w1)" by simp
    with 2 r st show ?thesis by (auto simp: hunt_contract_def intro!: exI [of _ "[]"])
  next
    case 3
    with eq rd pk have "f os fd frame1 D w1 = Some res" by simp
    from IH [OF this os r(2)] have h: "hunt_contract w1 frame1 D res" .
    obtain s' frame2 w2 where res: "res = (s', frame2, w2)" by (cases res)
    from h obtain junk where j: "PROTOCOL_SOF \<notin> set junk"
      "if s' = 0 then rx w1 = junk @ PROTOCOL_SOF # rx w2 \<and> hd frame2 = PROTOCOL_SOF else rx w1 = junk @ rx w2"
      unfolding hunt_contract_def res by blast
    have "later (w\<lparr>rx := rx w2\<rparr>) w2" "s' = 0x82 \<longrightarrow> D - clk w < 2 ^ 31 \<longrightarrow> D \<le> clk w2"
      using h r(3) by (auto simp: hunt_contract_def res later_iff)
    then show ?thesis
      using h j r(1) r(4) [OF 3(1)] 3(2) unfolding hunt_contract_def res
      by (intro case_prodI conjI exI [of _ "hd frame1 # junk"]) (auto split: if_splits)
  qed
qed

lemma hunt_sof_returns:
  assumes "posix os" "finite_interrupts os rank" "frame \<noteq> []"
  shows "\<exists>res. hunt_sof os fd frame D w = Some res"
  using assms(3)
proof (induction "length (rx w)" arbitrary: frame w rule: less_induct)
  case less
  have "0 + 1 \<le> length frame" using less(2) by (cases frame) auto
  from exactly.returns [OF assms(1,2) this] obtain s frame1 w1 where
    rd: "read_exactly os fd frame 0 1 D w = Some (s, frame1, w1)" by (metis prod_cases3)
  note r = read_one [OF assms(1) rd less(2)]
  show ?case
  proof (cases "s = 0")
    case False
    with rd show ?thesis by (subst hunt_sof.simps) simp
  next
    case True
    with less(1) [of w1 frame1] r rd show ?thesis
      by (subst hunt_sof.simps) (auto simp: peek_def)
  qed
qed

lemma hunt_sof_delivers:
  assumes "posix os" "finite_interrupts os rank" "delivers_by os T" "T \<le> D" "frame \<noteq> []"
    and "rx w = junk @ PROTOCOL_SOF # rest" "PROTOCOL_SOF \<notin> set junk" "clk w < T" "D - clk w < 2 ^ 31"
  shows "\<exists>w'. hunt_sof os fd frame D w = Some (0, PROTOCOL_SOF # tl frame, w') \<and> clk w' < T \<and> rx w' = rest"
  using assms(5-)
proof (induction junk arbitrary: frame w)
  case Nil
  obtain s w1 where rd: "read_exactly os fd frame 0 1 D w = Some (s, PROTOCOL_SOF # tl frame, w1)"
    "s = 0" "clk w1 < T" "rx w1 = rest"
    using exactly.delivered [OF assms(1-4), of w 0 1 frame fd] Nil by (cases frame) auto
  then show ?case by (subst hunt_sof.simps) (simp add: peek_def)
next
  case (Cons b junk)
  obtain s w1 where rd: "read_exactly os fd frame 0 1 D w = Some (s, b # tl frame, w1)"
    "s = 0" "clk w1 < T" "rx w1 = junk @ PROTOCOL_SOF # rest"
    using exactly.delivered [OF assms(1-4), of w 0 1 frame fd] Cons.prems by (cases frame) auto
  have "clk w \<le> clk w1" using read_one(3) [OF assms(1) rd(1)] Cons.prems(1) by (simp add: later_iff)
  then have "\<exists>w'. hunt_sof os fd (b # tl frame) D w1 = Some (0, PROTOCOL_SOF # tl frame, w')
     \<and> clk w' < T \<and> rx w' = rest"
    using Cons.IH [of "b # tl frame" w1] Cons.prems rd by simp
  with rd Cons.prems show ?case by (subst hunt_sof.simps) (simp add: peek_def)
qed

section \<open>Specification: what the bytes on the line say\<close>

text \<open>
  \<^term>\<open>None\<close>: the line does not hold a whole response yet. Otherwise the frame's acknowledge
  byte and data, or \<^term>\<open>None\<close> for a malformed one, and the bytes left on the line.
\<close>

definition scan_response :: "u8 list \<Rightarrow> ((u8 \<times> u8 list) option \<times> u8 list) option" where
  "scan_response bs =
     (case dropWhile (\<lambda>b. b \<noteq> PROTOCOL_SOF) bs of
        s # l # r \<Rightarrow>
          (let k = unat l in
           if k < 1 \<or> 5 < k then Some (None, r)
           else if length r < k + 2 then None
           else Some (decode_response (s # l # take (k + 2) r), drop (k + 2) r))
      | _ \<Rightarrow> None)"

definition scan_status :: "(u8 \<times> u8 list) option \<Rightarrow> mcu_status" where
  "scan_status x = (case x of None \<Rightarrow> MCUCO_STATUS_ERR_BAD_FRAME | Some _ \<Rightarrow> MCUCO_STATUS_OK)"

definition scan_result :: "protocol_response \<Rightarrow> (u8 \<times> u8 list) option \<Rightarrow> protocol_response" where
  "scan_result r x = (case x of None \<Rightarrow> r | Some (a, d) \<Rightarrow> filled r a d)"

lemma scan_response_junk:
  "PROTOCOL_SOF \<notin> set junk \<Longrightarrow>
   scan_response (junk @ PROTOCOL_SOF # l # r) =
     (let k = unat l in
      if k < 1 \<or> 5 < k then Some (None, r)
      else if length r < k + 2 then None
      else Some (decode_response (PROTOCOL_SOF # l # take (k + 2) r), drop (k + 2) r))"
proof -
  assume "PROTOCOL_SOF \<notin> set junk"
  then have "dropWhile (\<lambda>b. b \<noteq> PROTOCOL_SOF) (junk @ PROTOCOL_SOF # l # r) = PROTOCOL_SOF # l # r"
    by (subst dropWhile_append2) auto
  then show ?thesis unfolding scan_response_def PROTOCOL_SOF_def by (simp only: list.case)
qed

lemma scan_response_split:
  assumes "scan_response bs = Some x"
  obtains junk l r where "bs = junk @ PROTOCOL_SOF # l # r" "PROTOCOL_SOF \<notin> set junk"
proof -
  from assms obtain s l r where d: "dropWhile (\<lambda>b. b \<noteq> PROTOCOL_SOF) bs = s # l # r"
    by (auto simp: scan_response_def split: list.splits)
  then have "s = PROTOCOL_SOF" using hd_dropWhile [of "\<lambda>b. b \<noteq> PROTOCOL_SOF" bs] by simp
  moreover have "bs = takeWhile (\<lambda>b. b \<noteq> PROTOCOL_SOF) bs @ s # l # r"
    unfolding d [symmetric] by simp
  moreover have "PROTOCOL_SOF \<notin> set (takeWhile (\<lambda>b. b \<noteq> PROTOCOL_SOF) bs)"
    by (auto dest: set_takeWhileD)
  ultimately show ?thesis using that by metis
qed

text \<open>A frame is found exactly behind bytes that are not SOF.\<close>

lemma scan_response_frame:
  "scan_response bs = Some (Some (a, d), rest)
   \<longleftrightarrow> length d \<le> 4 \<and> (\<exists>junk. PROTOCOL_SOF \<notin> set junk \<and> bs = junk @ encode_response a d @ rest)"
proof
  assume s: "scan_response bs = Some (Some (a, d), rest)"
  then obtain junk l r where bs: "bs = junk @ PROTOCOL_SOF # l # r" and j: "PROTOCOL_SOF \<notin> set junk"
    by (rule scan_response_split)
  let ?k = "unat l"
  from s have k: "1 \<le> ?k" "?k \<le> 5" "?k + 2 \<le> length r" "rest = drop (?k + 2) r"
    and dec: "decode_response (PROTOCOL_SOF # l # take (?k + 2) r) = Some (a, d)"
    unfolding bs scan_response_junk [OF j] Let_def by (auto split: if_splits)
  from decode_response_Some [OF dec] obtain x where
    d: "length d \<le> 4" "PROTOCOL_SOF # l # take (?k + 2) r = encode_response a d @ x" by blast
  from d(2) have l: "l = byte_of (Suc (length d))" by (simp add: encode_response_Cons)
  then have "?k = Suc (length d)" using d(1) by simp
  with arg_cong [OF d(2), of length] k(3) have "x = []" by simp
  with d(2) have enc: "PROTOCOL_SOF # l # take (?k + 2) r = encode_response a d" by simp
  have "bs = junk @ (PROTOCOL_SOF # l # take (?k + 2) r) @ drop (?k + 2) r"
    unfolding bs by (simp del: PROTOCOL_SOF_def)
  then have "bs = junk @ encode_response a d @ rest"
    unfolding enc k(4) .
  with j d(1) show "length d \<le> 4 \<and> (\<exists>junk. PROTOCOL_SOF \<notin> set junk \<and> bs = junk @ encode_response a d @ rest)"
    by blast
next
  assume "length d \<le> 4 \<and> (\<exists>junk. PROTOCOL_SOF \<notin> set junk \<and> bs = junk @ encode_response a d @ rest)"
  then obtain junk where d: "length d \<le> 4" and j: "PROTOCOL_SOF \<notin> set junk"
    and bs: "bs = junk @ encode_response a d @ rest" by blast
  let ?l = "byte_of (Suc (length d))" and ?c = "u16_le (crc16 (byte_of (Suc (length d)) # a # d))"
  have bs': "bs = junk @ PROTOCOL_SOF # ?l # a # d @ ?c @ rest"
    by (simp add: bs encode_response_Cons)
  have enc: "PROTOCOL_SOF # ?l # a # d @ ?c = encode_response a d" by (simp add: encode_response_Cons)
  show "scan_response bs = Some (Some (a, d), rest)"
    unfolding bs' scan_response_junk [OF j] Let_def
    using d decode_encode_response [OF d, of a "[]"] enc by (simp add: encode_response_Cons)
qed

section \<open>Receiving refines the specification\<close>

text \<open>
  \<open>receive_contract w r t (s, r', w')\<close>: either the line held a response, the bytes up to
  its end were taken and \<open>r'\<close> says what it said; or the read failed, the caller's response is
  untouched, and a reported timeout means that the deadline has passed.
\<close>

definition receive_contract ::
  "'k world \<Rightarrow> protocol_response \<Rightarrow> int \<Rightarrow> mcu_status \<times> protocol_response ptr \<times> 'k world \<Rightarrow> bool" where
  "receive_contract w r t res \<longleftrightarrow>
     (case res of (s, r', w') \<Rightarrow>
        later (w\<lparr>rx := rx w'\<rparr>) w' \<and> suffix (rx w') (rx w)
        \<and> ((\<exists>x. scan_response (rx w) = Some (x, rx w') \<and> s = scan_status x \<and> r' = Some (scan_result r x))
           \<or> (s \<in> {0x81, 0x82} \<and> r' = Some r \<and> (s = 0x82 \<longrightarrow> t < 2 ^ 31 \<longrightarrow> clk w + t \<le> clk w'))))"

lemma receive_contract_later:
  "later w v \<Longrightarrow> receive_contract v r t res \<Longrightarrow> receive_contract w r t res"
  by (auto simp: receive_contract_def later_iff split: prod.splits)

text \<open>The frame array, filled up to the end of a response.\<close>

lemma parse_whole:
  assumes "length (data r) = 4" "length bs = unat l + 2" "1 \<le> unat l" "unat l \<le> 5" "length z = 5 - unat l"
  shows "protocol_parse_response (Some (s # l # bs @ z)) (4 + unat l) (Some r)
    = Some (scan_status (decode_response (s # l # bs)), Some (scan_result r (decode_response (s # l # bs))))"
proof -
  have n: "4 + unat l = Suc (Suc (length bs))" using assms(2) by simp
  have "take (4 + unat l) (s # l # bs @ z) = s # l # bs"
    unfolding n by simp
  then show ?thesis
    using parse_refines [of "4 + unat l" "s # l # bs @ z" r] assms
    by (simp add: scan_status_def scan_result_def split: option.splits prod.splits)
qed

text \<open>What is left of \<open>receive_response\<close> once SOF is in the frame, at offset 0.\<close>

definition receive_rest ::
  "'k os \<Rightarrow> int \<Rightarrow> u8 list \<Rightarrow> int \<Rightarrow> protocol_response ptr \<Rightarrow> 'k world
   \<Rightarrow> (mcu_status \<times> protocol_response ptr \<times> 'k world) option" where
  "receive_rest os fd frame D response w = do {
     (status, frame, w) \<leftarrow> read_exactly os fd frame 1 1 D w;
     if status \<noteq> MCUCO_STATUS_OK then Some (status, response, w)
     else do {
       l \<leftarrow> peek frame 1;
       let len = unat l;
       if len < PROTOCOL_MIN_RESPONSE_LEN \<or> len > PROTOCOL_MAX_RESPONSE_LEN
       then Some (MCUCO_STATUS_ERR_BAD_FRAME, response, w)
       else do {
         (status, frame, w) \<leftarrow> read_exactly os fd frame 2 (len + 2) D w;
         if status \<noteq> MCUCO_STATUS_OK then Some (status, response, w)
         else do {
           (status, response) \<leftarrow>
             protocol_parse_response (Some frame) (PROTOCOL_RESPONSE_OVERHEAD + len) response;
           Some (status, response, w)
         }
       }
     }
   }"

lemma receive_response_unfold:
  "receive_response os fd t (Some r) w =
    (case now_ms os w of (now, w) \<Rightarrow> do {
       (status, frame, w) \<leftarrow> hunt_sof os fd (replicate 9 0) (now + t) w;
       if status \<noteq> 0 then Some (status, Some r, w)
       else receive_rest os fd frame (now + t) (Some r) w })"
  by (simp add: receive_response_def receive_rest_def Let_def cong: if_cong split: prod.splits)

lemma receive_rest_sound:
  assumes os: "posix os" and r: "length (data r) = 4"
    and rest: "receive_rest os fd (PROTOCOL_SOF # replicate 8 0) D (Some r) w = Some (s, r', w')"
  shows "later (w\<lparr>rx := rx w'\<rparr>) w' \<and> suffix (rx w') (rx w)
    \<and> ((\<exists>x. scan_response (PROTOCOL_SOF # rx w) = Some (x, rx w') \<and> s = scan_status x \<and> r' = Some (scan_result r x))
       \<or> (s \<in> {0x81, 0x82} \<and> r' = Some r \<and> (s = 0x82 \<longrightarrow> D - clk w < 2 ^ 31 \<longrightarrow> D \<le> clk w')))"
proof -
  let ?f = "PROTOCOL_SOF # replicate 8 0"
  from rest obtain s1 f1 w1 where rd: "read_exactly os fd ?f 1 1 D w = Some (s1, f1, w1)"
    by (auto simp: receive_rest_def bind_eq_Some_conv)
  have q: "later (w\<lparr>rx := rx w1\<rparr>) w1" "suffix (rx w1) (rx w)"
    using exactly.quiet [OF os rd] by simp_all
  show ?thesis
  proof (cases "s1 = 0")
    case False
    with rest rd have "s = s1" "r' = Some r" "w' = w1" by (simp_all add: receive_rest_def)
    with False q read_exactly_status [OF rd] exactly.reads [OF os rd] show ?thesis by auto
  next
    case True
    from exactly.got [OF os rd _ True] obtain l where
      l: "rx w = l # rx w1" and f1: "f1 = PROTOCOL_SOF # l # replicate 7 0"
      by (cases "rx w") (auto simp: numeral_eq_Suc)
    let ?k = "unat l"
    have pk: "peek f1 1 = Some l" by (simp add: f1 peek_def)
    have scan: "scan_response (PROTOCOL_SOF # rx w) =
      (if ?k < 1 \<or> 5 < ?k then Some (None, rx w1)
       else if length (rx w1) < ?k + 2 then None
       else Some (decode_response (PROTOCOL_SOF # l # take (?k + 2) (rx w1)), drop (?k + 2) (rx w1)))"
      using scan_response_junk [of "[]" l "rx w1"] by (simp add: l Let_def)
    show ?thesis
    proof (cases "?k < 1 \<or> 5 < ?k")
      case bad: True
      with rest rd True pk have "s = 0x83" "r' = Some r" "w' = w1"
        by (auto simp: receive_rest_def Let_def)
      with bad q scan show ?thesis by (auto simp: scan_status_def scan_result_def)
    next
      case ok: False
      with rest rd True pk obtain s2 f2 where rd2: "read_exactly os fd f1 2 (?k + 2) D w1 = Some (s2, f2, w')"
        and s2: "if s2 \<noteq> 0 then s = s2 \<and> r' = Some r
          else protocol_parse_response (Some f2) (4 + ?k) (Some r) = Some (s, r')"
        by (auto simp: receive_rest_def Let_def bind_eq_Some_conv split: if_splits)
      have room: "2 + (?k + 2) \<le> length f1" using ok by (simp add: f1)
      have q2: "later (w\<lparr>rx := rx w'\<rparr>) w'" "suffix (rx w') (rx w)"
        using exactly.quiet [OF os rd2 room] q by (auto simp: later_iff intro: suffix_order.trans)
      show ?thesis
      proof (cases "s2 = 0")
        case False
        with s2 q q2 read_exactly_status [OF rd2] exactly.reads [OF os rd2 room] show ?thesis
          by (auto simp: later_iff)
      next
        case whole: True
        note g = exactly.got [OF os rd2 room whole]
        have "f2 = PROTOCOL_SOF # l # take (?k + 2) (rx w1) @ replicate (5 - ?k) 0"
        proof -
          have "drop (2 + (?k + 2)) f1 = replicate (5 - ?k) 0" "take 2 f1 = [PROTOCOL_SOF, l]"
            by (simp_all add: f1)
          with g show ?thesis by simp
        qed
        with s2 whole parse_whole [OF r, of "take (?k + 2) (rx w1)" l "replicate (5 - ?k) 0" PROTOCOL_SOF] ok g
        have "s = scan_status (decode_response (PROTOCOL_SOF # l # take (?k + 2) (rx w1)))"
          "r' = Some (scan_result r (decode_response (PROTOCOL_SOF # l # take (?k + 2) (rx w1))))"
          by (simp_all add: min_def)
        moreover have "drop (?k + 2) (rx w1) = rx w'" using g by simp
        ultimately show ?thesis using q2 scan ok g by auto
      qed
    qed
  qed
qed

lemma hunted_frame:
  "tl f = replicate 8 0 \<Longrightarrow> hd f = PROTOCOL_SOF \<Longrightarrow> f \<noteq> [] \<Longrightarrow> f = PROTOCOL_SOF # replicate 8 0"
  by (cases f) auto

lemma scan_response_skip:
  "PROTOCOL_SOF \<notin> set junk \<Longrightarrow> scan_response (junk @ PROTOCOL_SOF # bs) = scan_response (PROTOCOL_SOF # bs)"
  by (subst (1 2) scan_response_def, subst dropWhile_append2) auto

lemma receive_response_sound:
  assumes os: "posix os" and r: "length (data r) = 4"
    and rc: "receive_response os fd t (Some r) w = Some res"
  shows "receive_contract w r t res"
proof -
  obtain now w1 where now: "now_ms os w = (now, w1)" by fastforce
  note l = now_ms_later [OF os now]
  obtain s r' w' where res: "res = (s, r', w')" by (cases res)
  from rc now obtain s1 f w2 where h: "hunt_sof os fd (replicate 9 0) (now + t) w1 = Some (s1, f, w2)"
    and k: "if s1 \<noteq> 0 then s = s1 \<and> r' = Some r \<and> w' = w2
      else receive_rest os fd f (now + t) (Some r) w2 = Some (s, r', w')"
    by (auto simp: receive_response_unfold bind_eq_Some_conv res split: if_splits)
  have hc: "hunt_contract w1 (replicate 9 0) (now + t) (s1, f, w2)"
    using hunt_sof_contract [OF h os] by simp
  from hc obtain junk where j: "PROTOCOL_SOF \<notin> set junk"
    "if s1 = 0 then rx w1 = junk @ PROTOCOL_SOF # rx w2 \<and> hd f = PROTOCOL_SOF else rx w1 = junk @ rx w2"
    and lw: "later (w1\<lparr>rx := rx w2\<rparr>) w2"
    unfolding hunt_contract_def by blast
  have "receive_contract w1 r t res"
  proof (cases "s1 = 0")
    case False
    with hc j k l show ?thesis
      by (auto simp: receive_contract_def hunt_contract_def res suffix_def)
  next
    case True
    have f: "f = PROTOCOL_SOF # replicate 8 0"
      using hc j True by (intro hunted_frame) (auto simp: hunt_contract_def numeral_eq_Suc)
    from k True f have "receive_rest os fd (PROTOCOL_SOF # replicate 8 0) (now + t) (Some r) w2 = Some (s, r', w')"
      by simp
    note rest = receive_rest_sound [OF os r this]
    have "later (w1\<lparr>rx := rx w'\<rparr>) w'" "suffix (rx w') (rx w1)" "clk w1 \<le> clk w2"
      using rest lw j True by (auto simp: later_iff suffix_def)
    moreover have "scan_response (rx w1) = scan_response (PROTOCOL_SOF # rx w2)"
      using j True scan_response_skip by simp
    ultimately show ?thesis
      using rest l unfolding receive_contract_def res by auto
  qed
  with l show ?thesis by (blast intro: receive_contract_later)
qed

lemma receive_rest_returns:
  assumes "posix os" "finite_interrupts os rank" "length (data r) = 4" "length f = 9"
  shows "\<exists>res. receive_rest os fd f D (Some r) w = Some res"
proof -
  have "1 + 1 \<le> length f" using assms(4) by simp
  from exactly.returns [OF assms(1,2) this] obtain s1 f1 w1 where
    rd: "read_exactly os fd f 1 1 D w = Some (s1, f1, w1)" by fastforce
  have lf: "length f1 = 9" using exactly.quiet [OF assms(1) rd] assms(4) by simp
  let ?k = "unat (f1 ! 1)"
  show ?thesis
  proof (cases "s1 \<noteq> 0 \<or> ?k < 1 \<or> 5 < ?k")
    case True
    with rd lf show ?thesis by (auto simp: receive_rest_def Let_def mem_simps)
  next
    case False
    then have "2 + (?k + 2) \<le> length f1" using lf by simp
    note room = this
    from exactly.returns [OF assms(1,2) room] obtain s2 f2 w2 where
      rd2: "read_exactly os fd f1 2 (?k + 2) D w1 = Some (s2, f2, w2)" by fastforce
    have "length f2 = 9" using exactly.quiet [OF assms(1) rd2 room] lf by simp
    then obtain p where "protocol_parse_response (Some f2) (4 + ?k) (Some r) = Some p"
      using parse_refines [of "4 + ?k" f2 r] assms(3) False by auto
    with False rd rd2 lf show ?thesis
      by (cases p) (auto simp: receive_rest_def Let_def mem_simps)
  qed
qed

lemma receive_response_returns:
  assumes "posix os" "finite_interrupts os rank" "length (data r) = 4"
  shows "\<exists>res. receive_response os fd t (Some r) w = Some res"
proof -
  obtain now w1 where now: "now_ms os w = (now, w1)" by fastforce
  from hunt_sof_returns [OF assms(1,2), of "replicate 9 0" fd "now + t" w1]
  obtain s f w2 where h: "hunt_sof os fd (replicate 9 0) (now + t) w1 = Some (s, f, w2)" by auto
  have "tl f = replicate 8 0" "f \<noteq> []"
    using hunt_sof_contract [OF h assms(1)] by (auto simp: hunt_contract_def numeral_eq_Suc)
  then have "length f = 9" by (cases f) auto
  from receive_rest_returns [OF assms this, of fd "now + t" w2] now h show ?thesis
    by (auto simp: receive_response_unfold)
qed

section \<open>A delivered response is received\<close>

lemma receive_rest_delivers:
  assumes os: "posix os" "finite_interrupts os rank" "delivers_by os T" "T \<le> D" "D - clk w < 2 ^ 31"
    and r: "length (data r) = 4" and scan: "scan_response (PROTOCOL_SOF # rx w) = Some (x, rest)" and clk: "clk w < T"
  shows "\<exists>w'. receive_rest os fd (PROTOCOL_SOF # replicate 8 0) D (Some r) w
      = Some (scan_status x, Some (scan_result r x), w') \<and> clk w' < T \<and> rx w' = rest"
proof -
  let ?f = "PROTOCOL_SOF # replicate 8 0"
  obtain l rr where rx: "rx w = l # rr"
    using scan by (cases "rx w") (auto simp: scan_response_def)
  have sc: "(let k = unat l in
      if k < 1 \<or> 5 < k then Some (None, rr)
      else if length rr < k + 2 then None
      else Some (decode_response (PROTOCOL_SOF # l # take (k + 2) rr), drop (k + 2) rr)) = Some (x, rest)"
    using scan scan_response_junk [of "[]" l rr] by (simp add: rx)
  obtain w1 where rd: "read_exactly os fd ?f 1 1 D w = Some (0, PROTOCOL_SOF # l # replicate 7 0, w1)"
    and w1: "clk w1 < T" "rx w1 = rr"
    using exactly.delivered [OF os(1-5), of 1 1 ?f fd] clk rx by (auto simp: numeral_eq_Suc)
  let ?f1 = "PROTOCOL_SOF # l # replicate 7 0" and ?k = "unat l"
  have pk: "peek ?f1 1 = Some l" by (simp add: peek_def)
  show ?thesis
  proof (cases "?k < 1 \<or> 5 < ?k")
    case True
    with sc rd pk w1 show ?thesis
      by (auto simp: receive_rest_def Let_def scan_status_def scan_result_def)
  next
    case False
    have le: "clk w \<le> clk w1" using exactly.quiet [OF os(1) rd] by (simp add: later_iff)
    have enough: "?k + 2 \<le> length (rx w1)" and x: "x = decode_response (PROTOCOL_SOF # l # take (?k + 2) rr)"
      and rest: "rest = drop (?k + 2) rr"
      using sc False w1 by (auto simp: Let_def split: if_splits)
    have "take 2 ?f1 @ take (?k + 2) rr @ drop (2 + (?k + 2)) ?f1 = PROTOCOL_SOF # l # take (?k + 2) rr @ replicate (5 - ?k) 0"
      by simp
    then obtain w2 where rd2: "read_exactly os fd ?f1 2 (?k + 2) D w1
        = Some (0, PROTOCOL_SOF # l # take (?k + 2) rr @ replicate (5 - ?k) 0, w2)"
      and w2: "clk w2 < T" "rx w2 = rest"
      using exactly.delivered [OF os(1-4), of w1 2 "?k + 2" ?f1 fd] le os(5) False enough w1 rest by auto
    have "protocol_parse_response (Some (PROTOCOL_SOF # l # take (?k + 2) rr @ replicate (5 - ?k) 0)) (4 + ?k) (Some r)
      = Some (scan_status x, Some (scan_result r x))"
      using parse_whole [OF r, of "take (?k + 2) rr" l "replicate (5 - ?k) 0" PROTOCOL_SOF] False enough w1 x
      by (simp add: min_def)
    with False rd rd2 pk w2 show ?thesis by (auto simp: receive_rest_def Let_def)
  qed
qed

lemma receive_response_delivers:
  assumes os: "posix os" "finite_interrupts os rank" "delivers_by os T" "T \<le> clk w + t" "t < 2 ^ 31"
    and r: "length (data r) = 4" and scan: "scan_response (rx w) = Some (x, rest)" and clk: "clk w < T"
  shows "\<exists>w'. receive_response os fd t (Some r) w = Some (scan_status x, Some (scan_result r x), w')
      \<and> clk w' < T \<and> rx w' = rest"
proof -
  obtain now w1 where now: "now_ms os w = (now, w1)" by fastforce
  note l = now_ms_later [OF os(1) now]
  from scan obtain junk a b where rx: "rx w = junk @ PROTOCOL_SOF # a # b" and j: "PROTOCOL_SOF \<notin> set junk"
    by (rule scan_response_split)
  have c: "clk w1 < T" using delivers_clock [OF os(3) _ clk now] rx by simp
  have T: "T \<le> now + t" "now + t - clk w1 < 2 ^ 31" "rx w1 = junk @ PROTOCOL_SOF # a # b"
    using l os(4,5) rx by (auto simp: later_iff)
  from hunt_sof_delivers [OF os(1-3) T(1) _ T(3) j c T(2), of "replicate 9 0" fd]
  obtain w2 where h: "hunt_sof os fd (replicate 9 0) (now + t) w1 = Some (0, PROTOCOL_SOF # replicate 8 0, w2)"
    and w2: "clk w2 < T" "rx w2 = a # b" by (auto simp: numeral_eq_Suc)
  have "clk w1 \<le> clk w2"
    using hunt_sof_contract [OF h os(1)] by (auto simp: hunt_contract_def later_iff)
  moreover have "scan_response (PROTOCOL_SOF # rx w2) = Some (x, rest)"
    using scan rx scan_response_skip [OF j] w2 by simp
  ultimately obtain w' where
    "receive_rest os fd (PROTOCOL_SOF # replicate 8 0) (now + t) (Some r) w2
       = Some (scan_status x, Some (scan_result r x), w') \<and> clk w' < T \<and> rx w' = rest"
    using receive_rest_delivers [OF os(1-3) T(1) _ r _ w2(1), of x rest fd] T(2) by auto
  with now h show ?thesis by (simp add: receive_response_unfold)
qed

section \<open>Sending\<close>

lemma transmit_command_contract:
  assumes "posix os" "transmit_command os fd (Some f) n w = Some (s, w')" "0 < n" "n \<le> length f"
  shows "s \<in> {0, 0x81} \<and> (\<exists>k \<le> n. later (w\<lparr>tx := tx w @ take k f\<rparr>) w' \<and> (if s = 0 then k = n else k < n))"
proof -
  from assms(2,3) obtain r where wr: "uart_write os fd f n w = Some (r, w')" and s: "s = (if r < 0 then 0x81 else 0)"
    by (auto simp: transmit_command_def bind_eq_Some_conv split: if_splits)
  from uart_write_contract [OF assms(1) wr assms(4)] assms(4) obtain k where
    "k \<le> n" "later (w\<lparr>tx := tx w @ take k f\<rparr>) w'" "if 0 \<le> r then k = n else k < n"
    by (auto simp: write_contract_def min_absorb1 min_absorb2 split: if_splits)
  with s show ?thesis by (intro conjI exI [of _ k]) auto
qed

lemma transmit_command_returns:
  assumes "posix os" "finite_interrupts os rank" "n \<le> length f"
  shows "\<exists>res. transmit_command os fd (Some f) n w = Some res"
  using uart_write_loop_returns [OF assms(1,2) _ assms(3), of 0 fd w]
  by (auto simp: transmit_command_def uart_write_def)

lemma transmit_command_accepts:
  assumes "posix os" "finite_interrupts os rank" "accepts_by os D" "0 < n" "n \<le> length f" "clk w < D"
  shows "\<exists>w'. transmit_command os fd (Some f) n w = Some (0, w') \<and> clk w' < D"
  using uart_write_loop_accepts [OF assms(1-3) _ assms(5,6), of 0 fd] assms(4)
  by (auto simp: transmit_command_def uart_write_def)

section \<open>Properties\<close>

text \<open>C3. \<open>receive_response\<close> implements the specification \<open>scan_response\<close>: it returns, and either
  the bytes on the line held a response, which it consumed to its last byte and reported (OK with
  the decoded data, or MCUCO_STATUS_ERR_BAD_FRAME), or the read failed, the caller's structure
  is untouched and the status is MCUCO_STATUS_ERR_IO, or MCUCO_STATUS_ERR_NO_RESPONSE after
  the whole timeout has passed. Nothing is sent, and nothing but the line and the clock moves.\<close>

theorem receive_response_refines:
  assumes "posix os" "finite_interrupts os rank" "length (data r) = PROTOCOL_MAX_RESPONSE_DATA" "t < 2 ^ 31"
  shows "\<exists>s r' w'. receive_response os fd t (Some r) w = Some (s, r', w')
      \<and> later (w\<lparr>rx := rx w'\<rparr>) w' \<and> suffix (rx w') (rx w)
      \<and> ((\<exists>x. scan_response (rx w) = Some (x, rx w') \<and> s = scan_status x \<and> r' = Some (scan_result r x))
         \<or> (r' = Some r \<and> (s = MCUCO_STATUS_ERR_IO \<or> s = MCUCO_STATUS_ERR_NO_RESPONSE \<and> clk w + t \<le> clk w')))"
proof -
  have l: "length (data r) = 4" using assms(3) by simp
  from receive_response_returns [OF assms(1,2) l] obtain s r' w' where
    rc: "receive_response os fd t (Some r) w = Some (s, r', w')" by fastforce
  with receive_response_sound [OF assms(1) l rc] assms(4) show ?thesis
    by (auto simp: receive_contract_def)
qed

theorem receive_response_refines_witness:
  "\<exists>s r' w'. receive_response demo_os 3 100 (Some response_zero) (demo_world [9, 0xA5, 1] 1) = Some (s, r', w')
      \<and> later ((demo_world [9, 0xA5, 1] 1)\<lparr>rx := rx w'\<rparr>) w' \<and> suffix (rx w') (rx (demo_world [9, 0xA5, 1] 1))
      \<and> ((\<exists>x. scan_response (rx (demo_world [9, 0xA5, 1] 1)) = Some (x, rx w') \<and> s = scan_status x
             \<and> r' = Some (scan_result response_zero x))
         \<or> (r' = Some response_zero
             \<and> (s = MCUCO_STATUS_ERR_IO \<or> s = MCUCO_STATUS_ERR_NO_RESPONSE \<and> clk (demo_world [9, 0xA5, 1] 1) + 100 \<le> clk w')))"
  by (rule receive_response_refines [OF posix_demo finite_interrupts_demo]) simp_all

text \<open>C18. A response that is delivered in time is received: behind any bytes that are not SOF, the
  frame of acknowledge byte \<open>a\<close> and data \<open>d\<close> is found, decoded into the caller's structure, and
  the bytes behind it stay on the line.\<close>

theorem receive_response_finds_frame:
  assumes "posix os" "finite_interrupts os rank" "delivers_by os D" "D \<le> clk w + t" "t < 2 ^ 31" "clk w < D"
    and "length (data r) = 4" "length d \<le> 4" "PROTOCOL_SOF \<notin> set junk" "rx w = junk @ encode_response a d @ rest"
  shows "\<exists>w'. receive_response os fd t (Some r) w = Some (MCUCO_STATUS_OK, Some (filled r a d), w')
      \<and> rx w' = rest \<and> clk w' < D"
proof -
  have "scan_response (rx w) = Some (Some (a, d), rest)"
    using assms(8-10) by (auto simp: scan_response_frame)
  from receive_response_delivers [OF assms(1-5,7) this assms(6), of fd] show ?thesis
    by (auto simp: scan_status_def scan_result_def)
qed

theorem receive_response_finds_frame_witness:
  "\<exists>w'. receive_response demo_os 3 100 (Some response_zero) (demo_world ([1, 2] @ encode_response 1 [7] @ [5]) 3)
       = Some (MCUCO_STATUS_OK, Some (filled response_zero 1 [7]), w') \<and> rx w' = [5] \<and> clk w' < 50"
  by (rule receive_response_finds_frame [OF posix_demo finite_interrupts_demo delivers_by_demo, where junk = "[1, 2]"])
     (simp_all add: demo_world_def response_zero_def)

text \<open>C28. \<open>transmit_command\<close> refuses a NULL or empty frame without a write. Otherwise it returns, and
  sends the first \<open>n\<close> bytes of the frame in full and nothing else if its status is OK; the only
  other status is MCUCO_STATUS_ERR_IO, and then a proper prefix of them was sent.\<close>

theorem transmit_command_correct:
  assumes "posix os" "finite_interrupts os rank" "n \<le> length f"
  shows "transmit_command os fd None n w = Some (MCUCO_STATUS_ERR_ARG, w)
      \<and> transmit_command os fd (Some f) 0 w = Some (MCUCO_STATUS_ERR_ARG, w)
      \<and> (if n = 0 then True else \<exists>s w' k. transmit_command os fd (Some f) n w = Some (s, w') \<and> k \<le> n
             \<and> later (w\<lparr>tx := tx w @ take k f\<rparr>) w'
             \<and> (s = MCUCO_STATUS_OK \<and> k = n \<or> s = MCUCO_STATUS_ERR_IO \<and> k < n))"
proof (cases "n = 0")
  case False
  from transmit_command_returns [OF assms, of fd w] obtain s w' where
    tr: "transmit_command os fd (Some f) n w = Some (s, w')" by auto
  from transmit_command_contract [OF assms(1) tr _ assms(3)] False show ?thesis
    using tr by (auto simp: transmit_command_def split: if_splits)
qed (simp add: transmit_command_def)

theorem transmit_command_correct_witness:
  "transmit_command demo_os 3 None 2 (demo_world [] 0) = Some (MCUCO_STATUS_ERR_ARG, demo_world [] 0)
      \<and> transmit_command demo_os 3 (Some [1, 2]) 0 (demo_world [] 0) = Some (MCUCO_STATUS_ERR_ARG, demo_world [] 0)
      \<and> (if (2 :: nat) = 0 then True else \<exists>s w' k. transmit_command demo_os 3 (Some [1, 2]) 2 (demo_world [] 0) = Some (s, w') \<and> k \<le> 2
             \<and> later ((demo_world [] 0)\<lparr>tx := tx (demo_world [] 0) @ take k [1, 2]\<rparr>) w'
             \<and> (s = MCUCO_STATUS_OK \<and> k = 2 \<or> s = MCUCO_STATUS_ERR_IO \<and> k < 2))"
  by (rule transmit_command_correct [OF posix_demo finite_interrupts_demo]) simp

end
