(* ===== verification/Protocol.thy ===== *)
theory Protocol
  imports Wire
begin

text \<open>
  The command side of \<^verbatim>\<open>library/src/protocol.c\<close>: the range checks, \<open>build_frame\<close> and the
  sixteen builders, and the proof that every builder implements the abstract commands of
  \<open>Wire\<close>. A builder takes the buffer pointer and the length the caller claims for it, and
  returns the signed size of the C function together with the buffer's new content.
\<close>

section \<open>Range checks and the frame builder\<close>

definition is_valid_port :: "port_t \<Rightarrow> bool" where
  "is_valid_port port \<longleftrightarrow> port \<le> PORT_G"

definition is_valid_pin :: "u8 \<Rightarrow> bool" where
  "is_valid_pin pin \<longleftrightarrow> unat pin \<le> PIN_MAX"

definition is_valid_group :: "u8 \<Rightarrow> bool" where
  "is_valid_group grp \<longleftrightarrow> unat grp \<le> GROUP_MAX"

text \<open>The copy loop: \<open>buffer[COMMAND_PAYLOAD_IDX + i] = payload[i]\<close>.\<close>

function copy_payload :: "u8 list ptr \<Rightarrow> nat \<Rightarrow> nat \<Rightarrow> u8 list \<Rightarrow> u8 list option" where
  "copy_payload payload len i buf =
     (if i < len
      then do {
        b \<leftarrow> peek_ptr payload i;
        buf \<leftarrow> poke buf (3 + i) b;
        copy_payload payload len (Suc i) buf
      }
      else Some buf)"
  by pat_completeness auto
termination
  by (relation "measure (\<lambda>(payload, len, i, buf). len - i)") auto

declare copy_payload.simps [simp del]

definition arg_error :: "u8 list ptr \<Rightarrow> (int \<times> u8 list ptr) option" where
  "arg_error buffer = Some (neg_status MCUCO_STATUS_ERR_ARG, buffer)"

definition build_frame ::
  "opcode \<Rightarrow> u8 list ptr \<Rightarrow> nat \<Rightarrow> u8 list ptr \<Rightarrow> nat \<Rightarrow> (int \<times> u8 list ptr) option" where
  "build_frame op payload payload_len buffer buffer_len =
     (case buffer of
        None \<Rightarrow> arg_error buffer
      | Some buf \<Rightarrow>
          if payload_len > PROTOCOL_MAX_PAYLOAD then arg_error buffer
          else
            let frame_len = PROTOCOL_COMMAND_OVERHEAD + payload_len in
            if buffer_len < frame_len then arg_error buffer
            else do {
              buf \<leftarrow> poke buf 0 PROTOCOL_SOF;
              buf \<leftarrow> poke buf 1 (opcode_byte op);
              buf \<leftarrow> poke buf 2 (word_of_nat payload_len);
              buf \<leftarrow> copy_payload payload payload_len 0 buf;
              crc \<leftarrow> crc16_compute (Some (drop 1 buf)) (payload_len + 2);
              buf \<leftarrow> poke buf (frame_len - 2) (ucast (crc AND 0xFF));
              buf \<leftarrow> poke buf (frame_len - 1) (ucast (drop_bit 8 crc));
              Some (int frame_len, Some buf)
            })"

section \<open>The builders\<close>

definition protocol_probe :: "u8 list ptr \<Rightarrow> nat \<Rightarrow> (int \<times> u8 list ptr) option" where
  "protocol_probe buffer buffer_len = build_frame OPCODE_PROBE None 0 buffer buffer_len"

definition protocol_reset :: "u8 list ptr \<Rightarrow> nat \<Rightarrow> (int \<times> u8 list ptr) option" where
  "protocol_reset buffer buffer_len = build_frame OPCODE_RESET None 0 buffer buffer_len"

definition protocol_gpio_cfg ::
  "dir_t \<Rightarrow> port_t \<Rightarrow> u8 \<Rightarrow> u8 list ptr \<Rightarrow> nat \<Rightarrow> (int \<times> u8 list ptr) option" where
  "protocol_gpio_cfg dir port pin buffer buffer_len =
     (if dir \<noteq> DIR_INPUT \<and> dir \<noteq> DIR_OUTPUT then arg_error buffer
      else if \<not> is_valid_port port \<or> \<not> is_valid_pin pin then arg_error buffer
      else build_frame OPCODE_GPIO_CFG (Some [ucast dir, ucast port, pin]) 3 buffer buffer_len)"

definition protocol_gpio_set ::
  "level_t \<Rightarrow> port_t \<Rightarrow> u8 \<Rightarrow> u8 list ptr \<Rightarrow> nat \<Rightarrow> (int \<times> u8 list ptr) option" where
  "protocol_gpio_set level port pin buffer buffer_len =
     (if level \<noteq> LEVEL_LOW \<and> level \<noteq> LEVEL_HIGH then arg_error buffer
      else if \<not> is_valid_port port \<or> \<not> is_valid_pin pin then arg_error buffer
      else build_frame OPCODE_GPIO_WRITE (Some [ucast level, ucast port, pin]) 3 buffer buffer_len)"

definition protocol_gpio_get ::
  "port_t \<Rightarrow> u8 \<Rightarrow> u8 list ptr \<Rightarrow> nat \<Rightarrow> (int \<times> u8 list ptr) option" where
  "protocol_gpio_get port pin buffer buffer_len =
     (if \<not> is_valid_port port \<or> \<not> is_valid_pin pin then arg_error buffer
      else build_frame OPCODE_GPIO_READ (Some [ucast port, pin]) 2 buffer buffer_len)"

text \<open>
  The payload array is filled by \<^const>\<open>put_u32_le\<close> and one store; its initial content is
  never read.
\<close>

definition protocol_pwm_group_cfg ::
  "u32 \<Rightarrow> u8 \<Rightarrow> u8 list ptr \<Rightarrow> nat \<Rightarrow> (int \<times> u8 list ptr) option" where
  "protocol_pwm_group_cfg freq_hz grp buffer buffer_len =
     (if unat freq_hz < FREQ_MIN \<or> unat freq_hz > FREQ_MAX then arg_error buffer
      else if \<not> is_valid_group grp then arg_error buffer
      else do {
        (_, p) \<leftarrow> put_u32_le (Some (replicate 5 0)) freq_hz;
        payload \<leftarrow> p;
        payload \<leftarrow> poke payload 4 grp;
        build_frame OPCODE_PWM_GROUP_CFG (Some payload) 5 buffer buffer_len
      })"

definition protocol_pwm_group_get :: "u8 \<Rightarrow> u8 list ptr \<Rightarrow> nat \<Rightarrow> (int \<times> u8 list ptr) option" where
  "protocol_pwm_group_get grp buffer buffer_len =
     (if \<not> is_valid_group grp then arg_error buffer
      else build_frame OPCODE_PWM_GROUP_GET (Some [grp]) 1 buffer buffer_len)"

definition protocol_gpio_toggle ::
  "port_t \<Rightarrow> u8 \<Rightarrow> u8 list ptr \<Rightarrow> nat \<Rightarrow> (int \<times> u8 list ptr) option" where
  "protocol_gpio_toggle port pin buffer buffer_len =
     (if \<not> is_valid_port port \<or> \<not> is_valid_pin pin then arg_error buffer
      else build_frame OPCODE_GPIO_TOGGLE (Some [ucast port, pin]) 2 buffer buffer_len)"

definition protocol_gpio_irq_cfg ::
  "edge_t \<Rightarrow> port_t \<Rightarrow> u8 \<Rightarrow> u8 list ptr \<Rightarrow> nat \<Rightarrow> (int \<times> u8 list ptr) option" where
  "protocol_gpio_irq_cfg edge port pin buffer buffer_len =
     (if edge > EDGE_BOTH then arg_error buffer
      else if \<not> is_valid_port port \<or> \<not> is_valid_pin pin then arg_error buffer
      else build_frame OPCODE_GPIO_IRQ_CFG (Some [ucast edge, ucast port, pin]) 3 buffer buffer_len)"

definition protocol_gpio_irq_bind ::
  "edge_t \<Rightarrow> port_t \<Rightarrow> u8 \<Rightarrow> action_t \<Rightarrow> port_t \<Rightarrow> u8 \<Rightarrow> u8 list ptr \<Rightarrow> nat
   \<Rightarrow> (int \<times> u8 list ptr) option" where
  "protocol_gpio_irq_bind edge in_port in_pin action out_port out_pin buffer buffer_len =
     (if edge < EDGE_RISING \<or> edge > EDGE_BOTH then arg_error buffer
      else if action > ACTION_TOGGLE then arg_error buffer
      else if \<not> is_valid_port in_port \<or> \<not> is_valid_pin in_pin then arg_error buffer
      else if \<not> is_valid_port out_port \<or> \<not> is_valid_pin out_pin then arg_error buffer
      else build_frame OPCODE_GPIO_IRQ_BIND
             (Some [ucast edge, ucast in_port, in_pin, ucast action, ucast out_port, out_pin]) 6
             buffer buffer_len)"

definition protocol_gpio_irq_unbind ::
  "port_t \<Rightarrow> u8 \<Rightarrow> u8 list ptr \<Rightarrow> nat \<Rightarrow> (int \<times> u8 list ptr) option" where
  "protocol_gpio_irq_unbind port pin buffer buffer_len =
     (if \<not> is_valid_port port \<or> \<not> is_valid_pin pin then arg_error buffer
      else build_frame OPCODE_GPIO_IRQ_UNBIND (Some [ucast port, pin]) 2 buffer buffer_len)"

definition protocol_pwm_group_release :: "u8 \<Rightarrow> u8 list ptr \<Rightarrow> nat \<Rightarrow> (int \<times> u8 list ptr) option" where
  "protocol_pwm_group_release grp buffer buffer_len =
     (if \<not> is_valid_group grp then arg_error buffer
      else build_frame OPCODE_PWM_GROUP_RELEASE (Some [grp]) 1 buffer buffer_len)"

definition protocol_pwm_channel_cfg ::
  "polarity_t \<Rightarrow> port_t \<Rightarrow> u8 \<Rightarrow> u8 list ptr \<Rightarrow> nat \<Rightarrow> (int \<times> u8 list ptr) option" where
  "protocol_pwm_channel_cfg polarity port pin buffer buffer_len =
     (if polarity \<noteq> POL_ACTIVE_HIGH \<and> polarity \<noteq> POL_ACTIVE_LOW then arg_error buffer
      else if \<not> is_valid_port port \<or> \<not> is_valid_pin pin then arg_error buffer
      else build_frame OPCODE_PWM_CFG (Some [ucast polarity, ucast port, pin]) 3 buffer buffer_len)"

definition protocol_pwm_channel_set ::
  "u16 \<Rightarrow> port_t \<Rightarrow> u8 \<Rightarrow> u8 list ptr \<Rightarrow> nat \<Rightarrow> (int \<times> u8 list ptr) option" where
  "protocol_pwm_channel_set duty port pin buffer buffer_len =
     (if unat duty > DUTY_MAX then arg_error buffer
      else if \<not> is_valid_port port \<or> \<not> is_valid_pin pin then arg_error buffer
      else do {
        (_, p) \<leftarrow> put_u16_le (Some (replicate 4 0)) duty;
        payload \<leftarrow> p;
        payload \<leftarrow> poke payload 2 (ucast port);
        payload \<leftarrow> poke payload 3 pin;
        build_frame OPCODE_PWM_SET (Some payload) 4 buffer buffer_len
      })"

definition protocol_pwm_channel_get ::
  "port_t \<Rightarrow> u8 \<Rightarrow> u8 list ptr \<Rightarrow> nat \<Rightarrow> (int \<times> u8 list ptr) option" where
  "protocol_pwm_channel_get port pin buffer buffer_len =
     (if \<not> is_valid_port port \<or> \<not> is_valid_pin pin then arg_error buffer
      else build_frame OPCODE_PWM_GET (Some [ucast port, pin]) 2 buffer buffer_len)"

definition protocol_pwm_channel_release ::
  "port_t \<Rightarrow> u8 \<Rightarrow> u8 list ptr \<Rightarrow> nat \<Rightarrow> (int \<times> u8 list ptr) option" where
  "protocol_pwm_channel_release port pin buffer buffer_len =
     (if \<not> is_valid_port port \<or> \<not> is_valid_pin pin then arg_error buffer
      else build_frame OPCODE_PWM_RELEASE (Some [ucast port, pin]) 2 buffer buffer_len)"

section \<open>What build_frame writes\<close>

lemma arg_error_eq: "arg_error b = Some (- 128, b)"
  by (simp add: arg_error_def neg_status_def)

lemma copy_payload_eq:
  "i \<le> length p \<Longrightarrow> 3 + length p \<le> length buf
   \<Longrightarrow> copy_payload (Some p) (length p) i buf
     = Some (take (3 + i) buf @ drop i p @ drop (3 + length p) buf)"
proof (induction "Some p" "length p" i buf rule: copy_payload.induct)
  case (1 i buf)
  show ?case
  proof (cases "i < length p")
    case True
    let ?b = "buf[3 + i := p ! i]"
    have "copy_payload (Some p) (length p) i buf = copy_payload (Some p) (length p) (Suc i) ?b"
      using True "1.prems" by (subst copy_payload.simps) (simp add: mem_simps)
    also have "\<dots> = Some (take (Suc (3 + i)) ?b @ drop (Suc i) p @ drop (3 + length p) ?b)"
      using True "1.prems" "1.hyps" [of "p ! i" ?b] by (simp add: mem_simps)
    also have "take (Suc (3 + i)) ?b = take (3 + i) buf @ [p ! i]"
      using True "1.prems" by (subst take_Suc_conv_app_nth) auto
    finally show ?thesis
      using True by (simp add: Cons_nth_drop_Suc)
  next
    case False
    with "1.prems" show ?thesis by (subst copy_payload.simps) simp
  qed
qed

lemma copy_payload_0: "copy_payload payload 0 0 buf = Some buf"
  by (subst copy_payload.simps) simp

lemma build_frame_no_payload: "build_frame op None 0 buffer n = build_frame op (Some []) 0 buffer n"
  by (cases buffer) (simp_all add: build_frame_def copy_payload_0)

lemma build_frame_writes:
  assumes p: "length p \<le> 32" and n: "5 + length p \<le> n" and buf: "n \<le> length buf"
  shows "build_frame op (Some p) (length p) (Some buf) n
    = Some (int (5 + length p), Some (encode_frame op p @ drop (5 + length p) buf))"
proof -
  let ?h = "[PROTOCOL_SOF, opcode_byte op, word_of_nat (length p)]"
  from n buf have "4 \<le> length buf" by simp
  then obtain x0 x1 x2 x3 t where t: "buf = x0 # x1 # x2 # x3 # t" by (rule list_four)
  define m where "m = take (length p) (x3 # t)"
  have "2 \<le> length (drop (length p) (x3 # t))" using n buf t by simp
  then obtain c0 c1 r where r: "drop (length p) (x3 # t) = c0 # c1 # r"
    by (cases "drop (length p) (x3 # t)"; cases "tl (drop (length p) (x3 # t))") auto
  have m: "length m = length p" using n buf t by (simp add: m_def)
  have b: "buf = [x0, x1, x2] @ m @ [c0, c1] @ r"
    using append_take_drop_id [of "length p" "x3 # t"] r by (simp add: t m_def)
  let ?f = "?h @ p @ [c0, c1] @ r"
  have steps: "poke buf 0 PROTOCOL_SOF = Some (PROTOCOL_SOF # tl buf)"
    "poke (PROTOCOL_SOF # tl buf) 1 (opcode_byte op) = Some ([PROTOCOL_SOF, opcode_byte op] @ tl (tl buf))"
    "poke ([PROTOCOL_SOF, opcode_byte op] @ tl (tl buf)) 2 (word_of_nat (length p)) = Some (?h @ m @ [c0, c1] @ r)"
    by (simp_all add: b poke_def)
  have copy: "copy_payload (Some p) (length p) 0 (?h @ m @ [c0, c1] @ r) = Some ?f"
    using m by (simp add: copy_payload_eq eval_nat_numeral)
  define crc where "crc = crc16 (opcode_byte op # word_of_nat (length p) # p)"
  have sum: "crc16_compute (Some (drop 1 ?f)) (length p + 2) = Some crc"
    by (simp add: mem_simps crc_def)
  have tail: "poke ?f (3 + length p) l = Some (?h @ p @ [l, c1] @ r)"
    "poke (?h @ p @ [l, c1] @ r) (4 + length p) h = Some (?h @ p @ [l, h] @ r)" for l h
    using poke_mid [of "?h @ p" "3 + length p" c0 "c1 # r" l]
      poke_mid [of "?h @ p @ [l]" "4 + length p" c1 r h] by simp_all
  have "build_frame op (Some p) (length p) (Some buf) n
      = Some (int (5 + length p), Some (?h @ p @ [ucast (crc AND 0xFF), ucast (drop_bit 8 crc)] @ r))"
    using p n
    by (simp add: build_frame_def Let_def steps [simplified] copy [simplified] sum [simplified] tail [simplified])
  moreover have "drop (5 + length p) buf = r"
    using m by (simp add: b eval_nat_numeral)
  ultimately show ?thesis
    by (simp add: encode_frame_def seal_def u16_le_def ucast_and_byte crc_def)
qed

text \<open>Without room, or without a buffer, nothing is written.\<close>

lemma build_frame_rejects:
  "build_frame op payload len None n = arg_error None"
  "n < 5 + len \<Longrightarrow> build_frame op payload len buffer n = arg_error buffer"
  "32 < len \<Longrightarrow> build_frame op payload len buffer n = arg_error buffer"
  by (auto simp: build_frame_def Let_def split: option.splits)


section \<open>The contract the builders share\<close>

definition build_command ::
  "command \<Rightarrow> u8 list ptr \<Rightarrow> nat \<Rightarrow> (int \<times> u8 list ptr) option" where
  "build_command c buffer n =
     build_frame (command_opcode c) (Some (command_payload c)) (length (command_payload c)) buffer n"

text \<open>
  A builder takes its C arguments as one tuple \<open>a\<close>; \<open>mk a\<close> is the command they ask for. The
  two laws are the whole contract: an invalid request is refused before the buffer is looked
  at, a valid one is built with its opcode and payload.
\<close>

locale command_builder =
  fixes build :: "'a \<Rightarrow> u8 list ptr \<Rightarrow> nat \<Rightarrow> (int \<times> u8 list ptr) option"
    and mk :: "'a \<Rightarrow> command"
  assumes rejects: "\<not> valid_command (mk a) \<Longrightarrow> build a buffer n = arg_error buffer"
    and builds: "valid_command (mk a) \<Longrightarrow> build a buffer n = build_command (mk a) buffer n"
begin

lemma writes_frame:
  assumes "valid_command (mk a)" "length (encode_command (mk a)) \<le> n" "n \<le> length buf"
  shows "build a (Some buf) n
    = Some (int (length (encode_command (mk a))),
            Some (encode_command (mk a) @ drop (length (encode_command (mk a))) buf))"
  using assms length_command_payload [of "mk a"]
  by (simp add: builds build_command_def encode_command_def build_frame_writes)

lemma no_room: "n < length (encode_command (mk a)) \<Longrightarrow> build a buffer n = arg_error buffer"
  by (cases "valid_command (mk a)")
     (simp_all add: rejects builds build_command_def encode_command_def build_frame_rejects)

lemma no_buffer: "build a None n = arg_error None"
  by (cases "valid_command (mk a)") (simp_all add: rejects builds build_command_def build_frame_rejects)

lemma never_faults:
  assumes "n \<le> length buf"
  shows "build a (Some buf) n =
    (if valid_command (mk a) \<and> length (encode_command (mk a)) \<le> n
     then Some (int (length (encode_command (mk a))),
                Some (encode_command (mk a) @ drop (length (encode_command (mk a))) buf))
     else arg_error (Some buf))"
  using assms writes_frame rejects no_room by (auto simp: not_le)

end

lemma range_checks:
  "is_valid_port port \<longleftrightarrow> port \<le> 6" "is_valid_pin pin \<longleftrightarrow> pin \<le> 15" "is_valid_group grp \<longleftrightarrow> grp \<le> 2"
  "1000000 < unat freq \<longleftrightarrow> 1000000 < (freq :: u32)" "1000 < unat duty \<longleftrightarrow> 1000 < (duty :: u16)"
  by (simp_all add: is_valid_port_def is_valid_pin_def is_valid_group_def word_le_nat_alt word_less_nat_alt)

lemma payload_sizes: "(2 :: nat) = Suc 1" "(3 :: nat) = Suc 2" "(4 :: nat) = Suc 3" "(5 :: nat) = Suc 4" "(6 :: nat) = Suc 5"
  by simp_all

lemmas builder_simps =
  build_command_def build_frame_no_payload range_checks valid_pin_def word_le_1 word_1_le not_less unat_eq_zero
  payload_sizes

interpretation probe: command_builder "\<lambda>(_ :: unit). protocol_probe" "\<lambda>_. Probe"
  by unfold_locales (auto simp: protocol_probe_def builder_simps)

interpretation reset: command_builder "\<lambda>(_ :: unit). protocol_reset" "\<lambda>_. Reset"
  by unfold_locales (auto simp: protocol_reset_def builder_simps)

interpretation gpio_cfg: command_builder
  "\<lambda>(dir, port, pin). protocol_gpio_cfg dir port pin" "\<lambda>(dir, port, pin). Gpio_Cfg dir port pin"
  by unfold_locales (auto simp: protocol_gpio_cfg_def builder_simps)

interpretation gpio_set: command_builder
  "\<lambda>(level, port, pin). protocol_gpio_set level port pin" "\<lambda>(level, port, pin). Gpio_Set level port pin"
  by unfold_locales (auto simp: protocol_gpio_set_def builder_simps)

interpretation gpio_get: command_builder
  "\<lambda>(port, pin). protocol_gpio_get port pin" "\<lambda>(port, pin). Gpio_Get port pin"
  by unfold_locales (auto simp: protocol_gpio_get_def builder_simps)

interpretation gpio_toggle: command_builder
  "\<lambda>(port, pin). protocol_gpio_toggle port pin" "\<lambda>(port, pin). Gpio_Toggle port pin"
  by unfold_locales (auto simp: protocol_gpio_toggle_def builder_simps)

interpretation gpio_irq_cfg: command_builder
  "\<lambda>(edge, port, pin). protocol_gpio_irq_cfg edge port pin" "\<lambda>(edge, port, pin). Gpio_Irq_Cfg edge port pin"
  by unfold_locales (auto simp: protocol_gpio_irq_cfg_def builder_simps)

interpretation gpio_irq_bind: command_builder
  "\<lambda>(edge, in_port, in_pin, action, out_port, out_pin). protocol_gpio_irq_bind edge in_port in_pin action out_port out_pin" "\<lambda>(edge, in_port, in_pin, action, out_port, out_pin). Gpio_Irq_Bind edge in_port in_pin action out_port out_pin"
  by unfold_locales (auto simp: protocol_gpio_irq_bind_def builder_simps)

interpretation gpio_irq_unbind: command_builder
  "\<lambda>(port, pin). protocol_gpio_irq_unbind port pin" "\<lambda>(port, pin). Gpio_Irq_Unbind port pin"
  by unfold_locales (auto simp: protocol_gpio_irq_unbind_def builder_simps)

interpretation pwm_group_cfg: command_builder
  "\<lambda>(freq, grp). protocol_pwm_group_cfg freq grp" "\<lambda>(freq, grp). Pwm_Group_Cfg freq grp"
  by unfold_locales (auto simp: protocol_pwm_group_cfg_def builder_simps put_u32_le_eq poke_def u32_le_def)

interpretation pwm_group_get: command_builder
  "\<lambda>grp. protocol_pwm_group_get grp" "\<lambda>grp. Pwm_Group_Get grp"
  by unfold_locales (auto simp: protocol_pwm_group_get_def builder_simps)

interpretation pwm_group_release: command_builder
  "\<lambda>grp. protocol_pwm_group_release grp" "\<lambda>grp. Pwm_Group_Release grp"
  by unfold_locales (auto simp: protocol_pwm_group_release_def builder_simps)

interpretation pwm_channel_cfg: command_builder
  "\<lambda>(polarity, port, pin). protocol_pwm_channel_cfg polarity port pin" "\<lambda>(polarity, port, pin). Pwm_Channel_Cfg polarity port pin"
  by unfold_locales (auto simp: protocol_pwm_channel_cfg_def builder_simps)

interpretation pwm_channel_set: command_builder
  "\<lambda>(duty, port, pin). protocol_pwm_channel_set duty port pin" "\<lambda>(duty, port, pin). Pwm_Channel_Set duty port pin"
  by unfold_locales (auto simp: protocol_pwm_channel_set_def builder_simps put_u16_le_eq poke_def u16_le_def)

interpretation pwm_channel_get: command_builder
  "\<lambda>(port, pin). protocol_pwm_channel_get port pin" "\<lambda>(port, pin). Pwm_Channel_Get port pin"
  by unfold_locales (auto simp: protocol_pwm_channel_get_def builder_simps)

interpretation pwm_channel_release: command_builder
  "\<lambda>(port, pin). protocol_pwm_channel_release port pin" "\<lambda>(port, pin). Pwm_Channel_Release port pin"
  by unfold_locales (auto simp: protocol_pwm_channel_release_def builder_simps)

section \<open>All builders at once\<close>

text \<open>The builder a command belongs to, called with the command's fields.\<close>

fun builder_of :: "command \<Rightarrow> u8 list ptr \<Rightarrow> nat \<Rightarrow> (int \<times> u8 list ptr) option" where
  "builder_of Probe = protocol_probe"
| "builder_of Reset = protocol_reset"
| "builder_of (Gpio_Cfg dir port pin) = protocol_gpio_cfg dir port pin"
| "builder_of (Gpio_Set level port pin) = protocol_gpio_set level port pin"
| "builder_of (Gpio_Get port pin) = protocol_gpio_get port pin"
| "builder_of (Gpio_Toggle port pin) = protocol_gpio_toggle port pin"
| "builder_of (Gpio_Irq_Cfg edge port pin) = protocol_gpio_irq_cfg edge port pin"
| "builder_of (Gpio_Irq_Bind edge in_port in_pin action out_port out_pin) = protocol_gpio_irq_bind edge in_port in_pin action out_port out_pin"
| "builder_of (Gpio_Irq_Unbind port pin) = protocol_gpio_irq_unbind port pin"
| "builder_of (Pwm_Group_Cfg freq grp) = protocol_pwm_group_cfg freq grp"
| "builder_of (Pwm_Group_Get grp) = protocol_pwm_group_get grp"
| "builder_of (Pwm_Group_Release grp) = protocol_pwm_group_release grp"
| "builder_of (Pwm_Channel_Cfg polarity port pin) = protocol_pwm_channel_cfg polarity port pin"
| "builder_of (Pwm_Channel_Set duty port pin) = protocol_pwm_channel_set duty port pin"
| "builder_of (Pwm_Channel_Get port pin) = protocol_pwm_channel_get port pin"
| "builder_of (Pwm_Channel_Release port pin) = protocol_pwm_channel_release port pin"

lemma builder_of_contract:
  "command_builder builder_of (\<lambda>c. c)"
proof
  fix c :: command and buffer n
  note rejects =
    probe.rejects reset.rejects gpio_cfg.rejects
    gpio_set.rejects gpio_get.rejects gpio_toggle.rejects
    gpio_irq_cfg.rejects gpio_irq_bind.rejects gpio_irq_unbind.rejects
    pwm_group_cfg.rejects pwm_group_get.rejects pwm_group_release.rejects
    pwm_channel_cfg.rejects pwm_channel_set.rejects pwm_channel_get.rejects
    pwm_channel_release.rejects
  note builds =
    probe.builds reset.builds gpio_cfg.builds
    gpio_set.builds gpio_get.builds gpio_toggle.builds
    gpio_irq_cfg.builds gpio_irq_bind.builds gpio_irq_unbind.builds
    pwm_group_cfg.builds pwm_group_get.builds pwm_group_release.builds
    pwm_channel_cfg.builds pwm_channel_set.builds pwm_channel_get.builds
    pwm_channel_release.builds
  show "\<not> valid_command c \<Longrightarrow> builder_of c buffer n = arg_error buffer"
    by (cases c) (use rejects in force)+
  show "valid_command c \<Longrightarrow> builder_of c buffer n = build_command c buffer n"
    by (cases c) (use builds in force)+
qed

interpretation any: command_builder builder_of "\<lambda>c. c"
  by (rule builder_of_contract)

section \<open>Properties\<close>

lemma frame_example: "encode_frame OPCODE_GPIO_CFG [1, 0, 5] = [0xA5, 0x30, 3, 1, 0, 5, 0xAB, 0xE1]"
  by code_simp

text \<open>C4. Every command builder, for every argument and every buffer: a valid request that fits is
  written as its complete frame at the front of the buffer, the rest of the buffer is untouched
  and the frame's length is returned; any other request, and a NULL buffer, is refused with
  \<open>-MCUCO_STATUS_ERR_ARG\<close> and the buffer is unchanged. No builder writes past \<open>n\<close>.\<close>

theorem builders_write_frames:
  assumes "n \<le> length buf"
  shows "builder_of c (Some buf) n =
      (if valid_command c \<and> length (encode_command c) \<le> n
       then Some (int (length (encode_command c)),
                  Some (encode_command c @ drop (length (encode_command c)) buf))
       else Some (- 128, Some buf))
    \<and> builder_of c None n = Some (- 128, None)"
  using any.never_faults [OF assms] any.no_buffer by (simp_all add: arg_error_eq)

theorem builders_write_frames_witness:
  "builder_of (Gpio_Cfg 1 0 5) (Some (replicate 9 0)) 9
     = Some (8, Some [0xA5, 0x30, 3, 1, 0, 5, 0xAB, 0xE1, 0])"
  using builders_write_frames [of 9 "replicate 9 0" "Gpio_Cfg 1 0 5"]
  by (simp add: valid_pin_def encode_command_def frame_example del: builder_of.simps)

text \<open>C14. What a builder writes is what the receiver decodes: running the frame decoder on the
  bytes a builder reports gives back the command with all its fields.\<close>

theorem builders_roundtrip:
  assumes "valid_command c" "PROTOCOL_MAX_COMMAND_FRAME \<le> n" "n \<le> length buf"
  shows "\<exists>len buf'. builder_of c (Some buf) n = Some (int len, Some buf') \<and> decode_command (take len buf') = Some c"
proof -
  have "length (encode_command c) \<le> n"
    using length_command_payload [of c] assms(2) by (simp add: encode_command_def)
  with any.writes_frame [OF assms(1) _ assms(3)] decode_encode_command [OF assms(1)] show ?thesis by simp
qed

theorem builders_roundtrip_witness:
  "\<exists>len buf'. builder_of (Pwm_Group_Cfg 1000 2) (Some (replicate 37 0)) 37 = Some (int len, Some buf')
     \<and> decode_command (take len buf') = Some (Pwm_Group_Cfg 1000 2)"
  by (rule builders_roundtrip) simp_all

text \<open>C30. Frames are self-delimiting: if two streams start with what builders wrote for two valid
  commands, they are the same stream exactly if the commands and the rests are the same; so the
  frame of one command is never a prefix of the frame of another, whatever follows them.\<close>

theorem builders_prefix_free:
  assumes "valid_command c" "valid_command d" "37 \<le> length buf"
    and "builder_of c (Some buf) (length buf) = Some (int m, Some f)"
    and "builder_of d (Some buf) (length buf) = Some (int n, Some g)"
  shows "take m f @ xs = take n g @ ys \<longleftrightarrow> c = d \<and> xs = ys"
proof -
  have "length (encode_command c) \<le> length buf" "length (encode_command d) \<le> length buf"
    using length_command_payload [of c] length_command_payload [of d] assms(3) by (simp_all add: encode_command_def)
  with any.writes_frame [OF assms(1)] any.writes_frame [OF assms(2)] assms(4,5)
  have "take m f = encode_command c" "take n g = encode_command d" by auto
  then show ?thesis
    using encode_command_prefix [OF _ assms(1,2)] by auto
qed

lemma demo_frame:
  assumes "valid_command c"
  shows "\<exists>n f. builder_of c (Some (replicate 37 0)) (length (replicate 37 (0 :: u8))) = Some (int n, Some f)
     \<and> take n f = encode_command c"
proof -
  have "length (encode_command c) \<le> 37"
    using length_command_payload [of c] by (simp add: encode_command_def)
  with any.writes_frame [OF assms, of 37 "replicate 37 0"] show ?thesis by auto
qed

theorem builders_prefix_free_witness:
  "\<exists>m f n g. builder_of (Gpio_Get 1 2) (Some (replicate 37 0)) 37 = Some (int m, Some f)
     \<and> builder_of (Gpio_Toggle 1 2) (Some (replicate 37 0)) 37 = Some (int n, Some g)
     \<and> take m f = encode_command (Gpio_Get 1 2) \<and> take n g = encode_command (Gpio_Toggle 1 2)
     \<and> (\<forall>xs ys. take m f @ xs \<noteq> take n g @ ys)"
proof -
  have valid: "valid_command (Gpio_Get 1 2)" "valid_command (Gpio_Toggle 1 2)" by (simp_all add: valid_pin_def)
  obtain m f n g where built: "builder_of (Gpio_Get 1 2) (Some (replicate 37 0)) (length (replicate 37 (0 :: u8))) = Some (int m, Some f)"
      "builder_of (Gpio_Toggle 1 2) (Some (replicate 37 0)) (length (replicate 37 (0 :: u8))) = Some (int n, Some g)"
      "take m f = encode_command (Gpio_Get 1 2)" "take n g = encode_command (Gpio_Toggle 1 2)"
    using demo_frame [OF valid(1)] demo_frame [OF valid(2)] by blast
  have "take m f @ xs \<noteq> take n g @ ys" for xs ys
    using builders_prefix_free [OF valid _ built(1,2), of xs ys] by simp
  with built show ?thesis by (metis length_replicate)
qed

end
