(* ===== verification/Mcuco.thy ===== *)
theory Mcuco
  imports Transport Protocol
begin

text \<open>
  \<^verbatim>\<open>library/src/mcuco.c\<close>: the public calls. A handle is a \<open>mcuco ptr\<close>; an out-parameter is
  a pointer to its cell and is returned with what the call left in it. The calls that take no
  answer share the contract \<open>simple_call\<close>, the four that do share \<open>query_call\<close>; both contracts
  rest on \<open>request\<close>, the abstract exchange of one command for one response.
\<close>

section \<open>One exchange\<close>

record mcuco =
  mcu_fd :: int
  mcu_timeout_ms :: int

definition status_from_response :: "protocol_response \<Rightarrow> mcu_status option" where
  "status_from_response response =
     (if ack response then Some MCUCO_STATUS_OK
      else if data_len response \<noteq> 1 then Some MCUCO_STATUS_ERR_BAD_FRAME
      else do { reason \<leftarrow> peek (data response) 0; Some (ucast reason) })"

definition exchange ::
  "'k os \<Rightarrow> mcuco \<Rightarrow> u8 list ptr \<Rightarrow> int \<Rightarrow> protocol_response ptr \<Rightarrow> 'k world
   \<Rightarrow> (mcu_status \<times> protocol_response ptr \<times> 'k world) option" where
  "exchange os mcu frame frame_len response w =
     (if frame_len < 0 then Some (word_of_int (- frame_len), response, w)
      else do {
        (status, w) \<leftarrow> transmit_command os (mcu_fd mcu) frame (nat frame_len) w;
        if status \<noteq> MCUCO_STATUS_OK then Some (status, response, w)
        else do {
          (status, decoded, w) \<leftarrow>
            receive_response os (mcu_fd mcu) (mcu_timeout_ms mcu) (Some response_zero) w;
          if status \<noteq> MCUCO_STATUS_OK then Some (status, response, w)
          else do {
            decoded \<leftarrow> decoded;
            status \<leftarrow> status_from_response decoded;
            if status \<noteq> MCUCO_STATUS_OK then Some (status, response, w)
            else if response \<noteq> None then Some (MCUCO_STATUS_OK, Some decoded, w)
            else Some (MCUCO_STATUS_OK, response, w)
          }
        }
      })"

text \<open>
  The frame buffer of a call. All but \<open>mcuco_probe\<close> leave it uninitialised; the builders never
  read what they did not write (\<open>writes_frame\<close>), so its content is immaterial.
\<close>

definition fresh_frame :: "u8 list" where
  "fresh_frame = replicate PROTOCOL_MAX_COMMAND_FRAME 0"

section \<open>The calls\<close>

text \<open>The version string is generated by the build from the project's version.\<close>

definition mcuco_version :: "string \<Rightarrow> string" where
  "mcuco_version MCUCO_VERSION = MCUCO_VERSION"

text \<open>"MCUO" as raw bytes.\<close>

definition expected_magic :: "u8 list" where
  "expected_magic = [0x4D, 0x43, 0x55, 0x4F]"

definition mcuco_probe :: "'k os \<Rightarrow> mcuco ptr \<Rightarrow> 'k world \<Rightarrow> (mcu_status \<times> 'k world) option" where
  "mcuco_probe os mcu w =
     (case mcu of
        None \<Rightarrow> Some (MCUCO_STATUS_ERR_ARG, w)
      | Some m \<Rightarrow> do {
          (frame_len, frame) \<leftarrow> protocol_probe (Some fresh_frame) PROTOCOL_MAX_COMMAND_FRAME;
          (status, response, w) \<leftarrow> exchange os m frame frame_len (Some response_zero) w;
          if status \<noteq> MCUCO_STATUS_OK then Some (status, w)
          else do {
            r \<leftarrow> response;
            if data_len r \<noteq> PROBE_MAGIC_LEN \<or> take PROBE_MAGIC_LEN (data r) \<noteq> expected_magic
            then Some (MCUCO_STATUS_ERR_BAD_FRAME, w)
            else Some (MCUCO_STATUS_OK, w)
          }
        })"

definition mcuco_close :: "'k os \<Rightarrow> mcuco ptr \<Rightarrow> 'k world \<Rightarrow> 'k world" where
  "mcuco_close os mcu w =
     (case mcu of
        None \<Rightarrow> w
      | Some m \<Rightarrow> let w = close_port os (mcu_fd m) w in sys_free os w)"

definition mcuco_open ::
  "'k os \<Rightarrow> string ptr \<Rightarrow> int \<Rightarrow> 'k world \<Rightarrow> (mcuco ptr \<times> 'k world) option" where
  "mcuco_open os device_path timeout_ms w =
     (case device_path of
        None \<Rightarrow> Some (None, w\<lparr>errno := EINVAL\<rparr>)
      | Some path \<Rightarrow>
          (case sys_malloc os w of
             (False, w) \<Rightarrow> Some (None, w)
           | (True, w) \<Rightarrow>
               (case open_port os path w of
                  (fd, w) \<Rightarrow>
                    if fd < 0
                    then let reason = - fd; w = sys_free os w in Some (None, w\<lparr>errno := reason\<rparr>)
                    else
                      let mcu = \<lparr>mcu_fd = fd, mcu_timeout_ms = timeout_ms\<rparr> in do {
                        (status, w) \<leftarrow> mcuco_probe os (Some mcu) w;
                        if status \<noteq> MCUCO_STATUS_OK
                        then let w = mcuco_close os (Some mcu) w in
                          Some (None, w\<lparr>errno :=
                            if status = MCUCO_STATUS_ERR_NO_RESPONSE then ETIMEDOUT else EPROTO\<rparr>)
                        else Some (Some mcu, w)
                      })))"

definition mcuco_reset :: "'k os \<Rightarrow> mcuco ptr \<Rightarrow> 'k world \<Rightarrow> (mcu_status \<times> 'k world) option" where
  "mcuco_reset os mcu w =
     (case mcu of
        None \<Rightarrow> Some (MCUCO_STATUS_ERR_ARG, w)
      | Some m \<Rightarrow> do {
          (frame_len, frame) \<leftarrow> protocol_reset (Some fresh_frame) PROTOCOL_MAX_COMMAND_FRAME;
          (status, _, w) \<leftarrow> exchange os m frame frame_len None w;
          Some (status, w)
        })"

definition mcuco_gpio_cfg ::
  "'k os \<Rightarrow> mcuco ptr \<Rightarrow> dir_t \<Rightarrow> port_t \<Rightarrow> u8 \<Rightarrow> 'k world
   \<Rightarrow> (mcu_status \<times> 'k world) option" where
  "mcuco_gpio_cfg os mcu dir port pin w =
     (case mcu of
        None \<Rightarrow> Some (MCUCO_STATUS_ERR_ARG, w)
      | Some m \<Rightarrow> do {
          (frame_len, frame) \<leftarrow> protocol_gpio_cfg dir port pin (Some fresh_frame) PROTOCOL_MAX_COMMAND_FRAME;
          (status, _, w) \<leftarrow> exchange os m frame frame_len None w;
          Some (status, w)
        })"

definition mcuco_gpio_set ::
  "'k os \<Rightarrow> mcuco ptr \<Rightarrow> level_t \<Rightarrow> port_t \<Rightarrow> u8 \<Rightarrow> 'k world
   \<Rightarrow> (mcu_status \<times> 'k world) option" where
  "mcuco_gpio_set os mcu level port pin w =
     (case mcu of
        None \<Rightarrow> Some (MCUCO_STATUS_ERR_ARG, w)
      | Some m \<Rightarrow> do {
          (frame_len, frame) \<leftarrow> protocol_gpio_set level port pin (Some fresh_frame) PROTOCOL_MAX_COMMAND_FRAME;
          (status, _, w) \<leftarrow> exchange os m frame frame_len None w;
          Some (status, w)
        })"

definition mcuco_gpio_toggle ::
  "'k os \<Rightarrow> mcuco ptr \<Rightarrow> port_t \<Rightarrow> u8 \<Rightarrow> level_t ptr \<Rightarrow> 'k world
   \<Rightarrow> (mcu_status \<times> level_t ptr \<times> 'k world) option" where
  "mcuco_gpio_toggle os mcu port pin level w =
     (if mcu = None \<or> level = None then Some (MCUCO_STATUS_ERR_ARG, level, w)
      else do {
        m \<leftarrow> mcu;
        (frame_len, frame) \<leftarrow> protocol_gpio_toggle port pin (Some fresh_frame) PROTOCOL_MAX_COMMAND_FRAME;
        (status, response, w) \<leftarrow> exchange os m frame frame_len (Some response_zero) w;
        if status \<noteq> MCUCO_STATUS_OK then Some (status, level, w)
        else do {
          r \<leftarrow> response;
          if data_len r \<noteq> 1 then Some (MCUCO_STATUS_ERR_BAD_FRAME, level, w)
            else do {
              b \<leftarrow> peek (data r) 0;
              Some (MCUCO_STATUS_OK, Some (if b \<noteq> 0 then LEVEL_HIGH else LEVEL_LOW), w)
            }
        }
      })"

definition mcuco_gpio_get ::
  "'k os \<Rightarrow> mcuco ptr \<Rightarrow> port_t \<Rightarrow> u8 \<Rightarrow> level_t ptr \<Rightarrow> 'k world
   \<Rightarrow> (mcu_status \<times> level_t ptr \<times> 'k world) option" where
  "mcuco_gpio_get os mcu port pin level w =
     (if mcu = None \<or> level = None then Some (MCUCO_STATUS_ERR_ARG, level, w)
      else do {
        m \<leftarrow> mcu;
        (frame_len, frame) \<leftarrow> protocol_gpio_get port pin (Some fresh_frame) PROTOCOL_MAX_COMMAND_FRAME;
        (status, response, w) \<leftarrow> exchange os m frame frame_len (Some response_zero) w;
        if status \<noteq> MCUCO_STATUS_OK then Some (status, level, w)
        else do {
          r \<leftarrow> response;
          if data_len r \<noteq> 1 then Some (MCUCO_STATUS_ERR_BAD_FRAME, level, w)
            else do {
              b \<leftarrow> peek (data r) 0;
              Some (MCUCO_STATUS_OK, Some (if b \<noteq> 0 then LEVEL_HIGH else LEVEL_LOW), w)
            }
        }
      })"

definition mcuco_gpio_irq_cfg ::
  "'k os \<Rightarrow> mcuco ptr \<Rightarrow> edge_t \<Rightarrow> port_t \<Rightarrow> u8 \<Rightarrow> 'k world
   \<Rightarrow> (mcu_status \<times> 'k world) option" where
  "mcuco_gpio_irq_cfg os mcu edge port pin w =
     (case mcu of
        None \<Rightarrow> Some (MCUCO_STATUS_ERR_ARG, w)
      | Some m \<Rightarrow> do {
          (frame_len, frame) \<leftarrow> protocol_gpio_irq_cfg edge port pin (Some fresh_frame) PROTOCOL_MAX_COMMAND_FRAME;
          (status, _, w) \<leftarrow> exchange os m frame frame_len None w;
          Some (status, w)
        })"

definition mcuco_gpio_irq_bind ::
  "'k os \<Rightarrow> mcuco ptr \<Rightarrow> edge_t \<Rightarrow> port_t \<Rightarrow> u8 \<Rightarrow> action_t \<Rightarrow> port_t \<Rightarrow> u8 \<Rightarrow> 'k world
   \<Rightarrow> (mcu_status \<times> 'k world) option" where
  "mcuco_gpio_irq_bind os mcu edge in_port in_pin action out_port out_pin w =
     (case mcu of
        None \<Rightarrow> Some (MCUCO_STATUS_ERR_ARG, w)
      | Some m \<Rightarrow> do {
          (frame_len, frame) \<leftarrow> protocol_gpio_irq_bind edge in_port in_pin action out_port out_pin (Some fresh_frame) PROTOCOL_MAX_COMMAND_FRAME;
          (status, _, w) \<leftarrow> exchange os m frame frame_len None w;
          Some (status, w)
        })"

definition mcuco_gpio_irq_unbind ::
  "'k os \<Rightarrow> mcuco ptr \<Rightarrow> port_t \<Rightarrow> u8 \<Rightarrow> 'k world
   \<Rightarrow> (mcu_status \<times> 'k world) option" where
  "mcuco_gpio_irq_unbind os mcu port pin w =
     (case mcu of
        None \<Rightarrow> Some (MCUCO_STATUS_ERR_ARG, w)
      | Some m \<Rightarrow> do {
          (frame_len, frame) \<leftarrow> protocol_gpio_irq_unbind port pin (Some fresh_frame) PROTOCOL_MAX_COMMAND_FRAME;
          (status, _, w) \<leftarrow> exchange os m frame frame_len None w;
          Some (status, w)
        })"

definition mcuco_pwm_group_cfg ::
  "'k os \<Rightarrow> mcuco ptr \<Rightarrow> u32 \<Rightarrow> u8 \<Rightarrow> 'k world
   \<Rightarrow> (mcu_status \<times> 'k world) option" where
  "mcuco_pwm_group_cfg os mcu freq_hz grp w =
     (case mcu of
        None \<Rightarrow> Some (MCUCO_STATUS_ERR_ARG, w)
      | Some m \<Rightarrow> do {
          (frame_len, frame) \<leftarrow> protocol_pwm_group_cfg freq_hz grp (Some fresh_frame) PROTOCOL_MAX_COMMAND_FRAME;
          (status, _, w) \<leftarrow> exchange os m frame frame_len None w;
          Some (status, w)
        })"

definition mcuco_pwm_group_get ::
  "'k os \<Rightarrow> mcuco ptr \<Rightarrow> u8 \<Rightarrow> u32 ptr \<Rightarrow> 'k world
   \<Rightarrow> (mcu_status \<times> u32 ptr \<times> 'k world) option" where
  "mcuco_pwm_group_get os mcu grp achieved_hz w =
     (if mcu = None \<or> achieved_hz = None then Some (MCUCO_STATUS_ERR_ARG, achieved_hz, w)
      else do {
        m \<leftarrow> mcu;
        (frame_len, frame) \<leftarrow> protocol_pwm_group_get grp (Some fresh_frame) PROTOCOL_MAX_COMMAND_FRAME;
        (status, response, w) \<leftarrow> exchange os m frame frame_len (Some response_zero) w;
        if status \<noteq> MCUCO_STATUS_OK then Some (status, achieved_hz, w)
        else do {
          r \<leftarrow> response;
          if data_len r \<noteq> 4 then Some (MCUCO_STATUS_ERR_BAD_FRAME, achieved_hz, w)
            else do {
              (e, achieved_hz) \<leftarrow> get_u32_le (Some (data r)) achieved_hz;
              if e < 0 then Some (MCUCO_STATUS_ERR_ARG, achieved_hz, w)
              else Some (MCUCO_STATUS_OK, achieved_hz, w)
            }
        }
      })"

definition mcuco_pwm_group_release ::
  "'k os \<Rightarrow> mcuco ptr \<Rightarrow> u8 \<Rightarrow> 'k world
   \<Rightarrow> (mcu_status \<times> 'k world) option" where
  "mcuco_pwm_group_release os mcu grp w =
     (case mcu of
        None \<Rightarrow> Some (MCUCO_STATUS_ERR_ARG, w)
      | Some m \<Rightarrow> do {
          (frame_len, frame) \<leftarrow> protocol_pwm_group_release grp (Some fresh_frame) PROTOCOL_MAX_COMMAND_FRAME;
          (status, _, w) \<leftarrow> exchange os m frame frame_len None w;
          Some (status, w)
        })"

definition mcuco_pwm_channel_cfg ::
  "'k os \<Rightarrow> mcuco ptr \<Rightarrow> polarity_t \<Rightarrow> port_t \<Rightarrow> u8 \<Rightarrow> 'k world
   \<Rightarrow> (mcu_status \<times> 'k world) option" where
  "mcuco_pwm_channel_cfg os mcu polarity port pin w =
     (case mcu of
        None \<Rightarrow> Some (MCUCO_STATUS_ERR_ARG, w)
      | Some m \<Rightarrow> do {
          (frame_len, frame) \<leftarrow> protocol_pwm_channel_cfg polarity port pin (Some fresh_frame) PROTOCOL_MAX_COMMAND_FRAME;
          (status, _, w) \<leftarrow> exchange os m frame frame_len None w;
          Some (status, w)
        })"

definition mcuco_pwm_channel_set ::
  "'k os \<Rightarrow> mcuco ptr \<Rightarrow> u16 \<Rightarrow> port_t \<Rightarrow> u8 \<Rightarrow> 'k world
   \<Rightarrow> (mcu_status \<times> 'k world) option" where
  "mcuco_pwm_channel_set os mcu duty port pin w =
     (case mcu of
        None \<Rightarrow> Some (MCUCO_STATUS_ERR_ARG, w)
      | Some m \<Rightarrow> do {
          (frame_len, frame) \<leftarrow> protocol_pwm_channel_set duty port pin (Some fresh_frame) PROTOCOL_MAX_COMMAND_FRAME;
          (status, _, w) \<leftarrow> exchange os m frame frame_len None w;
          Some (status, w)
        })"

definition mcuco_pwm_channel_get ::
  "'k os \<Rightarrow> mcuco ptr \<Rightarrow> port_t \<Rightarrow> u8 \<Rightarrow> u16 ptr \<Rightarrow> 'k world
   \<Rightarrow> (mcu_status \<times> u16 ptr \<times> 'k world) option" where
  "mcuco_pwm_channel_get os mcu port pin duty w =
     (if mcu = None \<or> duty = None then Some (MCUCO_STATUS_ERR_ARG, duty, w)
      else do {
        m \<leftarrow> mcu;
        (frame_len, frame) \<leftarrow> protocol_pwm_channel_get port pin (Some fresh_frame) PROTOCOL_MAX_COMMAND_FRAME;
        (status, response, w) \<leftarrow> exchange os m frame frame_len (Some response_zero) w;
        if status \<noteq> MCUCO_STATUS_OK then Some (status, duty, w)
        else do {
          r \<leftarrow> response;
          if data_len r \<noteq> 2 then Some (MCUCO_STATUS_ERR_BAD_FRAME, duty, w)
            else do {
              (e, duty) \<leftarrow> get_u16_le (Some (data r)) duty;
              if e < 0 then Some (MCUCO_STATUS_ERR_ARG, duty, w)
              else Some (MCUCO_STATUS_OK, duty, w)
            }
        }
      })"

definition mcuco_pwm_channel_release ::
  "'k os \<Rightarrow> mcuco ptr \<Rightarrow> port_t \<Rightarrow> u8 \<Rightarrow> 'k world
   \<Rightarrow> (mcu_status \<times> 'k world) option" where
  "mcuco_pwm_channel_release os mcu port pin w =
     (case mcu of
        None \<Rightarrow> Some (MCUCO_STATUS_ERR_ARG, w)
      | Some m \<Rightarrow> do {
          (frame_len, frame) \<leftarrow> protocol_pwm_channel_release port pin (Some fresh_frame) PROTOCOL_MAX_COMMAND_FRAME;
          (status, _, w) \<leftarrow> exchange os m frame frame_len None w;
          Some (status, w)
        })"

section \<open>The request a call makes\<close>

text \<open>
  A builder with a buffer of its own, followed by the exchange, is this: nothing for a command
  that is not valid, its frame otherwise.
\<close>

definition request ::
  "'k os \<Rightarrow> mcuco \<Rightarrow> command \<Rightarrow> protocol_response ptr \<Rightarrow> 'k world
   \<Rightarrow> (mcu_status \<times> protocol_response ptr \<times> 'k world) option" where
  "request os m c response w =
     (if \<not> valid_command c then Some (MCUCO_STATUS_ERR_ARG, response, w)
      else exchange os m (Some (encode_command c @ drop (length (encode_command c)) fresh_frame))
             (int (length (encode_command c))) response w)"

lemma length_encode_command: "5 \<le> length (encode_command c)" "length (encode_command c) \<le> 11"
  using length_command_payload [of c] by (simp_all add: encode_command_def)

context command_builder
begin

lemma requests:
  "build a (Some fresh_frame) 37 \<bind> (\<lambda>(n, f). exchange os m f n response w \<bind> k)
   = request os m (mk a) response w \<bind> k"
proof -
  have room: "37 \<le> length fresh_frame" "length (encode_command (mk a)) \<le> 37"
    using length_encode_command(2) [of "mk a"] by (simp_all add: fresh_frame_def)
  show ?thesis
    using never_faults [OF room(1), of a] room(2)
    by (auto simp: request_def arg_error_eq exchange_def)
qed

end

text \<open>What a reply makes of the call's status.\<close>

definition reply_status :: "u8 \<Rightarrow> u8 list \<Rightarrow> mcu_status" where
  "reply_status a d =
     (if a \<noteq> 0 then MCUCO_STATUS_OK else if length d \<noteq> 1 then MCUCO_STATUS_ERR_BAD_FRAME else ucast (hd d))"

definition verdict :: "(u8 list \<Rightarrow> bool) \<Rightarrow> (u8 \<times> u8 list) option \<Rightarrow> mcu_status" where
  "verdict accepts x =
     (case x of
        None \<Rightarrow> MCUCO_STATUS_ERR_BAD_FRAME
      | Some (a, d) \<Rightarrow>
          if reply_status a d \<noteq> MCUCO_STATUS_OK then reply_status a d
          else if accepts d then MCUCO_STATUS_OK else MCUCO_STATUS_ERR_BAD_FRAME)"

text \<open>
  The contract of an exchange: the bytes sent are a prefix of the command's frame, and nothing
  but the line, the clock and errno has moved. Either a transfer failed; or the whole frame went
  out and the deadline passed; or it went out and the status is the verdict on what the line
  then said.
\<close>

definition answered ::
  "mcuco \<Rightarrow> command \<Rightarrow> (u8 list \<Rightarrow> bool) \<Rightarrow> 'k world \<Rightarrow> mcu_status \<Rightarrow> 'k world \<Rightarrow> bool" where
  "answered m c accepts w s w' \<longleftrightarrow>
     (\<exists>k \<le> length (encode_command c).
        later (w\<lparr>tx := tx w @ take k (encode_command c), rx := rx w'\<rparr>) w' \<and> suffix (rx w') (rx w)
        \<and> (s = MCUCO_STATUS_ERR_IO
           \<or> k = length (encode_command c)
             \<and> (s = MCUCO_STATUS_ERR_NO_RESPONSE
                  \<and> (mcu_timeout_ms m < 2 ^ 31 \<longrightarrow> clk w + mcu_timeout_ms m \<le> clk w')
                \<or> (\<exists>x. scan_response (rx w) = Some (x, rx w') \<and> s = verdict accepts x))))"

lemma status_from_filled:
  "length d \<le> 4 \<Longrightarrow> status_from_response (filled response_zero a d) = Some (reply_status a d)"
  by (cases d) (auto simp: status_from_response_def filled_def reply_status_def peek_def response_zero_def)

text \<open>The exchange, its parts named.\<close>

lemma request_cases:
  assumes os: "posix os" and valid: "valid_command c" and req: "request os m c r w = Some (s, r', w')"
  obtains k w1 where "k \<le> length (encode_command c)" "later (w\<lparr>tx := tx w @ take k (encode_command c)\<rparr>) w1"
      "s = 0x81" "r' = r" "w' = w1"
    | w1 s2 d where "later (w\<lparr>tx := tx w @ encode_command c\<rparr>) w1"
      "receive_contract w1 response_zero (mcu_timeout_ms m) (s2, d, w')"
      "s2 \<noteq> 0 \<Longrightarrow> s = s2 \<and> r' = r"
      "s2 = 0 \<Longrightarrow> \<exists>e. d = Some e \<and> status_from_response e = Some s
          \<and> r' = (if s = 0 then map_option (\<lambda>_. e) r else r)"
proof -
  let ?f = "encode_command c @ drop (length (encode_command c)) fresh_frame" and ?n = "length (encode_command c)"
  have n: "0 < ?n" using length_encode_command(1) [of c] by linarith
  from req valid obtain s1 w1 where tr: "transmit_command os (mcu_fd m) (Some ?f) ?n w = Some (s1, w1)"
    and k: "if s1 \<noteq> 0 then s = s1 \<and> r' = r \<and> w' = w1
      else \<exists>s2 d. receive_response os (mcu_fd m) (mcu_timeout_ms m) (Some response_zero) w1 = Some (s2, d, w')
        \<and> (if s2 \<noteq> 0 then s = s2 \<and> r' = r
           else \<exists>e. d = Some e \<and> status_from_response e = Some s \<and> r' = (if s = 0 then map_option (\<lambda>_. e) r else r))"
    by (auto simp: request_def exchange_def bind_eq_Some_conv split: if_splits)
  have le: "?n \<le> length ?f" by simp
  from transmit_command_contract [OF os tr n le] obtain j where
    j: "s1 \<in> {0, 0x81}" "j \<le> ?n" "later (w\<lparr>tx := tx w @ take j ?f\<rparr>) w1" "s1 = 0 \<longrightarrow> j = ?n"
    by (elim conjE exE) (rule that, assumption+, metis)
  have tk: "take j ?f = take j (encode_command c)" using j(2) by simp
  show ?thesis
  proof (cases "s1 = 0")
    case False
    show ?thesis
      by (rule that(1) [OF j(2) j(3) [unfolded tk]]) (use k j(1) False in auto)
  next
    case True
    with k obtain s2 d where rc: "receive_response os (mcu_fd m) (mcu_timeout_ms m) (Some response_zero) w1 = Some (s2, d, w')"
      and rest: "if s2 \<noteq> 0 then s = s2 \<and> r' = r
           else \<exists>e. d = Some e \<and> status_from_response e = Some s \<and> r' = (if s = 0 then map_option (\<lambda>_. e) r else r)"
      by auto
    have "later (w\<lparr>tx := tx w @ encode_command c\<rparr>) w1" using j True tk by simp
    from that(2) [OF this receive_response_sound [OF os length_response_zero rc]] rest show ?thesis by auto
  qed
qed

lemma request_sound:
  assumes os: "posix os" and valid: "valid_command c" and req: "request os m c r w = Some (s, r', w')"
  shows "answered m c (\<lambda>_. True) w s w'
    \<and> (if s = 0 then \<exists>a d. scan_response (rx w) = Some (Some (a, d), rx w') \<and> length d \<le> 4
          \<and> reply_status a d = 0 \<and> r' = map_option (\<lambda>_. filled response_zero a d) r
       else r' = r)"
  using os valid req
proof (cases rule: request_cases)
  case (1 k w1)
  then show ?thesis by (auto simp: answered_def later_iff)
next
  case (2 w1 s2 d)
  let ?n = "length (encode_command c)"
  have eq: "rx w1 = rx w" "clk w \<le> clk w1" using 2(1) by (auto simp: later_iff)
  have l: "later (w\<lparr>tx := tx w @ take ?n (encode_command c), rx := rx w'\<rparr>) w'" "suffix (rx w') (rx w)"
    using 2(1,2) by (auto simp: receive_contract_def later_iff)
  from 2(2) consider x where "scan_response (rx w) = Some (x, rx w')" "s2 = scan_status x" "d = Some (scan_result response_zero x)"
    | "s2 \<in> {0x81, 0x82}" "s2 = 0x82 \<longrightarrow> mcu_timeout_ms m < 2 ^ 31 \<longrightarrow> clk w + mcu_timeout_ms m \<le> clk w'"
    using eq by (auto simp: receive_contract_def)
  then show ?thesis
  proof cases
    case (1 x)
    show ?thesis
    proof (cases x)
      case None
      with 1 2 have "s = 0x83" "r' = r" by (simp_all add: scan_status_def)
      with None l 1(1) show ?thesis by (auto simp: answered_def verdict_def)
    next
      case (Some y)
      obtain a e where y: "y = (a, e)" by (cases y)
      with 1 Some have e: "length e \<le> 4" using scan_response_frame by blast
      with 1 2 Some y have s: "s = reply_status a e" "r' = (if s = 0 then map_option (\<lambda>_. filled response_zero a e) r else r)"
        by (simp_all add: scan_status_def scan_result_def status_from_filled)
      then have "s = verdict (\<lambda>_. True) x" by (simp add: Some y verdict_def)
      with l 1(1) e s Some y show ?thesis by (auto simp: answered_def)
    qed
  next
    case failed: 2
    with 2(3) have "s = s2" "r' = r" by auto
    with l failed show ?thesis by (auto simp: answered_def)
  qed
qed

lemma request_returns:
  assumes "posix os" "finite_interrupts os rank"
  shows "\<exists>res. request os m c r w = Some res"
proof (cases "valid_command c")
  case False
  then show ?thesis by (simp add: request_def)
next
  case True
  let ?n = "length (encode_command c)" and ?f = "encode_command c @ drop (length (encode_command c)) fresh_frame"
  obtain s w1 where tr: "transmit_command os (mcu_fd m) (Some ?f) ?n w = Some (s, w1)"
    using transmit_command_returns [OF assms, of ?n ?f "mcu_fd m" w] by auto
  obtain s2 d w2 where rc: "receive_response os (mcu_fd m) (mcu_timeout_ms m) (Some response_zero) w1 = Some (s2, d, w2)"
    using receive_response_returns [OF assms, of response_zero "mcu_fd m" "mcu_timeout_ms m" w1] by auto
  have "\<exists>e t. d = Some e \<and> status_from_response e = Some t" if "s2 = 0"
    using receive_response_sound [OF assms(1) _ rc] that status_from_filled
    by (auto simp: receive_contract_def scan_status_def scan_result_def scan_response_frame split: option.splits)
  with True tr rc show ?thesis by (auto simp: request_def exchange_def)
qed

lemma request_delivers:
  assumes os: "posix os" "finite_interrupts os rank" "delivers_by os D" "accepts_by os D"
    and time: "clk w < D" "D \<le> clk w + mcu_timeout_ms m" "mcu_timeout_ms m < 2 ^ 31"
    and valid: "valid_command c" and scan: "scan_response (rx w) = Some (x, rest)"
  shows "\<exists>r' w'. request os m c r w = Some (verdict (\<lambda>_. True) x, r', w')
     \<and> tx w' = tx w @ encode_command c \<and> rx w' = rest \<and> clk w' < D"
proof -
  let ?n = "length (encode_command c)" and ?f = "encode_command c @ drop (length (encode_command c)) fresh_frame"
  have n: "0 < ?n" using length_encode_command(1) [of c] by linarith
  obtain w1 where tr: "transmit_command os (mcu_fd m) (Some ?f) ?n w = Some (0, w1)" and c1: "clk w1 < D"
    using transmit_command_accepts [OF os(1,2,4) n _ time(1), of ?f "mcu_fd m"] by auto
  have w1: "later (w\<lparr>tx := tx w @ encode_command c\<rparr>) w1"
    using transmit_command_contract [OF os(1) tr n] by auto
  have D: "D \<le> clk w1 + mcu_timeout_ms m" and scan1: "scan_response (rx w1) = Some (x, rest)"
    using w1 time(2) scan by (auto simp: later_iff)
  obtain w2 where rc: "receive_response os (mcu_fd m) (mcu_timeout_ms m) (Some response_zero) w1
      = Some (scan_status x, Some (scan_result response_zero x), w2)" and w2: "clk w2 < D" "rx w2 = rest"
    using receive_response_delivers [OF os(1-3) D time(3) length_response_zero scan1 c1] by blast
  have t2: "tx w2 = tx w @ encode_command c"
    using receive_response_sound [OF os(1) length_response_zero rc] w1 by (auto simp: receive_contract_def later_iff)
  have "status_from_response (filled response_zero a d) = Some (reply_status a d)" if "x = Some (a, d)" for a d
    using scan that by (intro status_from_filled) (simp add: scan_response_frame)
  with valid tr rc w2 t2 show ?thesis
    by (cases x) (auto simp: request_def exchange_def verdict_def scan_status_def scan_result_def)
qed

section \<open>The contract of the calls\<close>

definition response_bytes :: "protocol_response ptr \<Rightarrow> u8 list" where
  "response_bytes r = (case r of None \<Rightarrow> [] | Some r \<Rightarrow> take (data_len r) (data r))"

lemma response_bytes_filled [simp]: "response_bytes (Some (filled r a d)) = d"
  by (simp add: response_bytes_def filled_def)

lemma request_None:
  "request os m c None w = request os m c (Some r) w \<bind> (\<lambda>(s, _, w). Some (s, None, w))"
  by (auto simp: request_def exchange_def bind_eq_Some_conv Let_def
      intro!: bind_option_cong split: prod.splits option.splits)

text \<open>
  \<open>api_call\<close>: a call is a request for the command \<open>mk a\<close>, and of the replies that report success
  it accepts those whose data satisfies \<open>accepts a\<close>.
\<close>

locale api_call =
  fixes run :: "'k os \<Rightarrow> mcuco \<Rightarrow> 'a \<Rightarrow> 'k world \<Rightarrow> (mcu_status \<times> 'k world) option"
    and mk :: "'a \<Rightarrow> command"
    and accepts :: "'a \<Rightarrow> u8 list \<Rightarrow> bool"
  assumes runs: "posix os \<Longrightarrow> run os m a w =
    request os m (mk a) (Some response_zero) w \<bind>
      (\<lambda>(s, r, w). Some (if s \<noteq> 0 then s else if accepts a (response_bytes r) then 0 else 0x83, w))"
begin

lemma silent: "posix os \<Longrightarrow> \<not> valid_command (mk a) \<Longrightarrow> run os m a w = Some (0x80, w)"
  by (simp add: runs request_def)

lemma contract:
  assumes os: "posix os" and valid: "valid_command (mk a)" and run: "run os m a w = Some (s, w')"
  shows "answered m (mk a) (accepts a) w s w'"
proof -
  from run obtain s1 r where rq: "request os m (mk a) (Some response_zero) w = Some (s1, r, w')"
    and s: "s = (if s1 \<noteq> 0 then s1 else if accepts a (response_bytes r) then 0 else 0x83)"
    by (auto simp: runs [OF os] bind_eq_Some_conv)
  note q = request_sound [OF os valid rq]
  have weaker: "verdict (accepts a) x = verdict (\<lambda>_. True) x" if "verdict (\<lambda>_. True) x \<noteq> 0" for x
    using that by (auto simp: verdict_def split: option.splits if_splits)
  show ?thesis
  proof (cases "s1 = 0")
    case False
    with q s weaker show ?thesis by (fastforce simp: answered_def)
  next
    case True
    with q obtain b d where "scan_response (rx w) = Some (Some (b, d), rx w')" "reply_status b d = 0"
      "r = Some (filled response_zero b d)" by auto
    with q True s show ?thesis by (auto simp: answered_def verdict_def)
  qed
qed

lemma terminates: "posix os \<Longrightarrow> finite_interrupts os rank \<Longrightarrow> \<exists>res. run os m a w = Some res"
  using request_returns [of os rank m "mk a" "Some response_zero" w] by (auto simp: runs)

lemma answered_by:
  assumes "posix os" "finite_interrupts os rank" "delivers_by os D" "accepts_by os D"
    and "clk w < D" "D \<le> clk w + mcu_timeout_ms m" "mcu_timeout_ms m < 2 ^ 31"
    and "valid_command (mk a)" "scan_response (rx w) = Some (x, rest)"
  shows "\<exists>w'. run os m a w = Some (verdict (accepts a) x, w')
     \<and> tx w' = tx w @ encode_command (mk a) \<and> rx w' = rest \<and> clk w' < D"
proof -
  from request_delivers [OF assms, of "Some response_zero"] obtain r' w' where
    rq: "request os m (mk a) (Some response_zero) w = Some (verdict (\<lambda>_. True) x, r', w')"
    and w': "tx w' = tx w @ encode_command (mk a)" "rx w' = rest" "clk w' < D" by blast
  from request_sound [OF assms(1,8) rq] assms(9) have
    "r' = Some (filled response_zero b d)" if "x = Some (b, d)" "reply_status b d = 0" for b d
    using that by (auto simp: verdict_def)
  with rq w' show ?thesis
    by (auto simp: runs [OF assms(1)] verdict_def split: option.splits)
qed

end

text \<open>\<open>simple_call\<close>: a call that returns a status only.\<close>

locale simple_call =
  fixes call :: "'k os \<Rightarrow> mcuco ptr \<Rightarrow> 'a \<Rightarrow> 'k world \<Rightarrow> (mcu_status \<times> 'k world) option"
    and mk :: "'a \<Rightarrow> command"
  assumes null_handle: "call os None a w = Some (0x80, w)"
    and sends: "call os (Some m) a w = request os m (mk a) None w \<bind> (\<lambda>(s, _, w). Some (s, w))"

sublocale simple_call \<subseteq> api: api_call "\<lambda>os m. call os (Some m)" mk "\<lambda>_ _. True"
  by unfold_locales
    (auto simp: sends request_None [of _ _ _ _ response_zero] split: prod.splits intro!: bind_option_cong)

text \<open>
  \<open>query_call\<close>: a call with an out-parameter, whose cell changes to \<open>dec\<close> of the reply's data
  when the call succeeds and is left alone otherwise.
\<close>

locale query_call =
  fixes call :: "'k os \<Rightarrow> mcuco ptr \<Rightarrow> 'a \<Rightarrow> 'v ptr \<Rightarrow> 'k world \<Rightarrow> (mcu_status \<times> 'v ptr \<times> 'k world) option"
    and mk :: "'a \<Rightarrow> command"
    and dec :: "u8 list \<Rightarrow> 'v option"
  assumes null_pointer: "mcu = None \<or> cell = None \<Longrightarrow> call os mcu a cell w = Some (0x80, cell, w)"
    and asks: "posix os \<Longrightarrow> call os (Some m) a (Some v) w =
      request os m (mk a) (Some response_zero) w \<bind>
        (\<lambda>(s, r, w). Some (if s \<noteq> 0 then (s, Some v, w)
           else (case dec (response_bytes r) of None \<Rightarrow> (0x83, Some v, w) | Some x \<Rightarrow> (0, Some x, w))))"
begin

lemma cell_written:
  assumes os: "posix os" and valid: "valid_command (mk a)" and call: "call os (Some m) a (Some v) w = Some (s, cell, w')"
  shows "if s = 0 then \<exists>b d x. scan_response (rx w) = Some (Some (b, d), rx w') \<and> reply_status b d = 0
           \<and> dec d = Some x \<and> cell = Some x
         else cell = Some v"
proof -
  from call obtain s1 r w1 where rq: "request os m (mk a) (Some response_zero) w = Some (s1, r, w1)"
    and k: "if s1 \<noteq> 0 then (s, cell, w') = (s1, Some v, w1)
      else (s, cell, w') = (case dec (response_bytes r) of None \<Rightarrow> (0x83, Some v, w1) | Some x \<Rightarrow> (0, Some x, w1))"
    by (auto simp: asks [OF os] bind_eq_Some_conv split: if_splits option.splits)
  from request_sound [OF os valid rq] k show ?thesis
    by (auto split: if_splits option.splits)
qed

end

sublocale query_call \<subseteq> api: api_call
  "\<lambda>os m (a, v) w. call os (Some m) a (Some v) w \<bind> (\<lambda>(s, _, w). Some (s, w))" "\<lambda>(a, v). mk a" "\<lambda>_ d. dec d \<noteq> None"
  by unfold_locales (auto simp: asks intro!: bind_option_cong split: prod.splits option.splits)

context query_call
begin

lemma answer_delivered:
  assumes "posix os" "finite_interrupts os rank" "delivers_by os D" "accepts_by os D"
    and "clk w < D" "D \<le> clk w + mcu_timeout_ms m" "mcu_timeout_ms m < 2 ^ 31"
    and "valid_command (mk a)" "scan_response (rx w) = Some (Some (b, d), rest)" "reply_status b d = 0" "dec d = Some x"
  shows "\<exists>w'. call os (Some m) a (Some v) w = Some (0, Some x, w')
     \<and> tx w' = tx w @ encode_command (mk a) \<and> rx w' = rest"
proof -
  have "verdict (\<lambda>d. dec d \<noteq> None) (Some (b, d)) = 0"
    using assms(10,11) by (simp add: verdict_def)
  with api.answered_by [OF assms(1-7), of "(a, v)" "Some (b, d)" rest] assms(8,9) obtain w' where
    "call os (Some m) a (Some v) w \<bind> (\<lambda>(s, _, w). Some (s, w)) = Some (0, w')"
    and w': "tx w' = tx w @ encode_command (mk a)" "rx w' = rest" by auto
  then obtain cell where c: "call os (Some m) a (Some v) w = Some (0, cell, w')"
    by (auto simp: bind_eq_Some_conv)
  from cell_written [OF assms(1,8) c] assms(9,11) have "cell = Some x" by auto
  with c w' show ?thesis by blast
qed

lemma cell_kept:
  assumes "posix os" "call os (Some m) a (Some v) w = Some (s, cell, w')" "s \<noteq> 0"
  shows "cell = Some v"
proof (cases "valid_command (mk a)")
  case True
  from cell_written [OF assms(1) True assms(2)] assms(3) show ?thesis by simp
next
  case False
  with assms show ?thesis by (auto simp: asks [OF assms(1)] request_def)
qed

lemma cell_stays: "posix os \<Longrightarrow> call os (Some m) a (Some v) w = Some (s, cell, w') \<Longrightarrow> cell \<noteq> None"
  by (auto simp: asks bind_eq_Some_conv split: if_splits option.splits)

end

section \<open>The calls honour it\<close>

interpretation reset_call: simple_call
  "\<lambda>os mcu (_ :: unit) w. mcuco_reset os mcu w" "\<lambda>_. Reset"
  by unfold_locales (auto simp: mcuco_reset_def reset.requests split: prod.splits)

interpretation gpio_cfg_call: simple_call
  "\<lambda>os mcu (dir, port, pin) w. mcuco_gpio_cfg os mcu dir port pin w" "\<lambda>(dir, port, pin). Gpio_Cfg dir port pin"
  by unfold_locales (auto simp: mcuco_gpio_cfg_def gpio_cfg.requests [of "(dir, port, pin)" for dir port pin, unfolded prod.case] split: prod.splits)

interpretation gpio_set_call: simple_call
  "\<lambda>os mcu (level, port, pin) w. mcuco_gpio_set os mcu level port pin w" "\<lambda>(level, port, pin). Gpio_Set level port pin"
  by unfold_locales (auto simp: mcuco_gpio_set_def gpio_set.requests [of "(level, port, pin)" for level port pin, unfolded prod.case] split: prod.splits)

interpretation gpio_irq_cfg_call: simple_call
  "\<lambda>os mcu (edge, port, pin) w. mcuco_gpio_irq_cfg os mcu edge port pin w" "\<lambda>(edge, port, pin). Gpio_Irq_Cfg edge port pin"
  by unfold_locales (auto simp: mcuco_gpio_irq_cfg_def gpio_irq_cfg.requests [of "(edge, port, pin)" for edge port pin, unfolded prod.case] split: prod.splits)

interpretation gpio_irq_bind_call: simple_call
  "\<lambda>os mcu (edge, in_port, in_pin, action, out_port, out_pin) w. mcuco_gpio_irq_bind os mcu edge in_port in_pin action out_port out_pin w" "\<lambda>(edge, in_port, in_pin, action, out_port, out_pin). Gpio_Irq_Bind edge in_port in_pin action out_port out_pin"
  by unfold_locales (auto simp: mcuco_gpio_irq_bind_def gpio_irq_bind.requests [of "(edge, in_port, in_pin, action, out_port, out_pin)" for edge in_port in_pin action out_port out_pin, unfolded prod.case] split: prod.splits)

interpretation gpio_irq_unbind_call: simple_call
  "\<lambda>os mcu (port, pin) w. mcuco_gpio_irq_unbind os mcu port pin w" "\<lambda>(port, pin). Gpio_Irq_Unbind port pin"
  by unfold_locales (auto simp: mcuco_gpio_irq_unbind_def gpio_irq_unbind.requests [of "(port, pin)" for port pin, unfolded prod.case] split: prod.splits)

interpretation pwm_group_cfg_call: simple_call
  "\<lambda>os mcu (freq, grp) w. mcuco_pwm_group_cfg os mcu freq grp w" "\<lambda>(freq, grp). Pwm_Group_Cfg freq grp"
  by unfold_locales (auto simp: mcuco_pwm_group_cfg_def pwm_group_cfg.requests [of "(freq, grp)" for freq grp, unfolded prod.case] split: prod.splits)

interpretation pwm_group_release_call: simple_call
  "\<lambda>os mcu grp w. mcuco_pwm_group_release os mcu grp w" "\<lambda>grp. Pwm_Group_Release grp"
  by unfold_locales (auto simp: mcuco_pwm_group_release_def pwm_group_release.requests split: prod.splits)

interpretation pwm_channel_cfg_call: simple_call
  "\<lambda>os mcu (polarity, port, pin) w. mcuco_pwm_channel_cfg os mcu polarity port pin w" "\<lambda>(polarity, port, pin). Pwm_Channel_Cfg polarity port pin"
  by unfold_locales (auto simp: mcuco_pwm_channel_cfg_def pwm_channel_cfg.requests [of "(polarity, port, pin)" for polarity port pin, unfolded prod.case] split: prod.splits)

interpretation pwm_channel_set_call: simple_call
  "\<lambda>os mcu (duty, port, pin) w. mcuco_pwm_channel_set os mcu duty port pin w" "\<lambda>(duty, port, pin). Pwm_Channel_Set duty port pin"
  by unfold_locales (auto simp: mcuco_pwm_channel_set_def pwm_channel_set.requests [of "(duty, port, pin)" for duty port pin, unfolded prod.case] split: prod.splits)

interpretation pwm_channel_release_call: simple_call
  "\<lambda>os mcu (port, pin) w. mcuco_pwm_channel_release os mcu port pin w" "\<lambda>(port, pin). Pwm_Channel_Release port pin"
  by unfold_locales (auto simp: mcuco_pwm_channel_release_def pwm_channel_release.requests [of "(port, pin)" for port pin, unfolded prod.case] split: prod.splits)

text \<open>How the answers are decoded.\<close>

definition level_of :: "u8 list \<Rightarrow> level_t option" where
  "level_of d = (if length d = 1 then Some (if hd d \<noteq> 0 then LEVEL_HIGH else LEVEL_LOW) else None)"

definition frequency_of :: "u8 list \<Rightarrow> u32 option" where
  "frequency_of d = (if length d = 4 then Some (le_u32 d) else None)"

definition duty_of :: "u8 list \<Rightarrow> u16 option" where
  "duty_of d = (if length d = 2 then Some (le_u16 d) else None)"

lemma request_bind_eq:
  assumes os: "posix os" and failed: "\<And>s r w. s \<noteq> 0 \<Longrightarrow> f (s, r, w) = g (s, r, w)"
    and answer: "\<And>b d w. length d \<le> 4 \<Longrightarrow> f (0, Some (filled response_zero b d), w) = g (0, Some (filled response_zero b d), w)"
  shows "request os m c (Some response_zero) w \<bind> f = request os m c (Some response_zero) w \<bind> g"
proof (cases "request os m c (Some response_zero) w")
  case (Some p)
  obtain s r w' where p: "p = (s, r, w')" by (cases p)
  show ?thesis
  proof (cases "s = 0")
    case True
    with Some p have "valid_command c" by (auto simp: request_def split: if_splits)
    from request_sound [OF os this Some [unfolded p]] True Some p answer show ?thesis by auto
  qed (simp add: Some p failed)
qed simp

lemma filled_simps [simp]:
  "data_len (filled r a d) = length d" "ack (filled r a d) \<longleftrightarrow> a \<noteq> 0"
  "data (filled r a d) = d @ drop (length d) (data r)"
  by (simp_all add: filled_def)

lemma answers_decoded:
  "length d = 1 \<Longrightarrow> peek (data (filled response_zero b d)) 0 = Some (hd d)"
  "length d = 2 \<Longrightarrow> get_u16_le (Some (data (filled response_zero b d))) (Some x) = Some (2, duty_of d)"
  "length d = 4 \<Longrightarrow> get_u32_le (Some (data (filled response_zero b d))) (Some y) = Some (4, frequency_of d)"
  by (cases d; simp add: peek_def response_zero_def mem_simps duty_of_def frequency_of_def)+

lemmas query_simps = level_of_def duty_of_def frequency_of_def answers_decoded

interpretation gpio_toggle_call: query_call
  "\<lambda>os mcu (port, pin) cell w. mcuco_gpio_toggle os mcu port pin cell w" "\<lambda>(port, pin). Gpio_Toggle port pin" level_of
  by unfold_locales
    (auto simp: mcuco_gpio_toggle_def gpio_toggle.requests [of "(port, pin)" for port pin, unfolded prod.case] query_simps
       simp del: filled_simps(3) intro!: request_bind_eq split: prod.splits)

interpretation gpio_get_call: query_call
  "\<lambda>os mcu (port, pin) cell w. mcuco_gpio_get os mcu port pin cell w" "\<lambda>(port, pin). Gpio_Get port pin" level_of
  by unfold_locales
    (auto simp: mcuco_gpio_get_def gpio_get.requests [of "(port, pin)" for port pin, unfolded prod.case] query_simps
       simp del: filled_simps(3) intro!: request_bind_eq split: prod.splits)

interpretation pwm_group_get_call: query_call
  "\<lambda>os mcu grp cell w. mcuco_pwm_group_get os mcu grp cell w" "\<lambda>grp. Pwm_Group_Get grp" frequency_of
  by unfold_locales
    (auto simp: mcuco_pwm_group_get_def pwm_group_get.requests query_simps
       simp del: filled_simps(3) intro!: request_bind_eq split: prod.splits)

interpretation pwm_channel_get_call: query_call
  "\<lambda>os mcu (port, pin) cell w. mcuco_pwm_channel_get os mcu port pin cell w" "\<lambda>(port, pin). Pwm_Channel_Get port pin" duty_of
  by unfold_locales
    (auto simp: mcuco_pwm_channel_get_def pwm_channel_get.requests [of "(port, pin)" for port pin, unfolded prod.case] query_simps
       simp del: filled_simps(3) intro!: request_bind_eq split: prod.splits)

interpretation probe_call: api_call
  "\<lambda>os m (_ :: unit) w. mcuco_probe os (Some m) w" "\<lambda>_. Probe" "\<lambda>_ d. d = expected_magic"
  by unfold_locales
    (auto simp: mcuco_probe_def probe.requests expected_magic_def intro!: request_bind_eq split: prod.splits)

section \<open>All calls at once\<close>

text \<open>
  The public call a command belongs to, on an open handle and with valid out-pointers. What the
  cell of a query holds before the call does not influence the status.
\<close>

fun api_run :: "'k os \<Rightarrow> mcuco \<Rightarrow> command \<Rightarrow> 'k world \<Rightarrow> (mcu_status \<times> 'k world) option" where
  "api_run os m Probe w = mcuco_probe os (Some m) w"
| "api_run os m Reset w = mcuco_reset os (Some m) w"
| "api_run os m (Gpio_Cfg dir port pin) w = mcuco_gpio_cfg os (Some m) dir port pin w"
| "api_run os m (Gpio_Set level port pin) w = mcuco_gpio_set os (Some m) level port pin w"
| "api_run os m (Gpio_Get port pin) w = mcuco_gpio_get os (Some m) port pin (Some 0) w \<bind> (\<lambda>(s, _, w). Some (s, w))"
| "api_run os m (Gpio_Toggle port pin) w = mcuco_gpio_toggle os (Some m) port pin (Some 0) w \<bind> (\<lambda>(s, _, w). Some (s, w))"
| "api_run os m (Gpio_Irq_Cfg edge port pin) w = mcuco_gpio_irq_cfg os (Some m) edge port pin w"
| "api_run os m (Gpio_Irq_Bind edge in_port in_pin action out_port out_pin) w = mcuco_gpio_irq_bind os (Some m) edge in_port in_pin action out_port out_pin w"
| "api_run os m (Gpio_Irq_Unbind port pin) w = mcuco_gpio_irq_unbind os (Some m) port pin w"
| "api_run os m (Pwm_Group_Cfg freq grp) w = mcuco_pwm_group_cfg os (Some m) freq grp w"
| "api_run os m (Pwm_Group_Get grp) w = mcuco_pwm_group_get os (Some m) grp (Some 0) w \<bind> (\<lambda>(s, _, w). Some (s, w))"
| "api_run os m (Pwm_Group_Release grp) w = mcuco_pwm_group_release os (Some m) grp w"
| "api_run os m (Pwm_Channel_Cfg polarity port pin) w = mcuco_pwm_channel_cfg os (Some m) polarity port pin w"
| "api_run os m (Pwm_Channel_Set duty port pin) w = mcuco_pwm_channel_set os (Some m) duty port pin w"
| "api_run os m (Pwm_Channel_Get port pin) w = mcuco_pwm_channel_get os (Some m) port pin (Some 0) w \<bind> (\<lambda>(s, _, w). Some (s, w))"
| "api_run os m (Pwm_Channel_Release port pin) w = mcuco_pwm_channel_release os (Some m) port pin w"

text \<open>What each command accepts as the data of a good answer.\<close>

fun answer_ok :: "command \<Rightarrow> u8 list \<Rightarrow> bool" where
  "answer_ok Probe d = (d = expected_magic)"
| "answer_ok (Gpio_Get _ _) d = (level_of d \<noteq> None)"
| "answer_ok (Gpio_Toggle _ _) d = (level_of d \<noteq> None)"
| "answer_ok (Pwm_Group_Get _) d = (frequency_of d \<noteq> None)"
| "answer_ok (Pwm_Channel_Get _ _) d = (duty_of d \<noteq> None)"
| "answer_ok _ d = True"

interpretation every: api_call api_run "\<lambda>c. c" answer_ok
proof
  fix os :: "'k os" and m c and w :: "'k world"
  assume os: "posix os"
  show "api_run os m c w = request os m c (Some response_zero) w \<bind>
      (\<lambda>(s, r, w). Some (if s \<noteq> 0 then s else if answer_ok c (response_bytes r) then 0 else 0x83, w))"
  proof (cases c)
    case Probe
    then show ?thesis using probe_call.runs [OF os, of m w] by (simp cong: if_cong)
  next
    case Reset
    then show ?thesis using reset_call.api.runs [OF os, of m w] by (simp cong: if_cong)
  next
    case (Gpio_Cfg dir port pin)
    then show ?thesis using gpio_cfg_call.api.runs [OF os, of m "(dir, port, pin)" w] by (simp cong: if_cong)
  next
    case (Gpio_Set level port pin)
    then show ?thesis using gpio_set_call.api.runs [OF os, of m "(level, port, pin)" w] by (simp cong: if_cong)
  next
    case (Gpio_Get port pin)
    then show ?thesis using gpio_get_call.api.runs [OF os, of m "((port, pin), 0)" w] by (simp cong: if_cong)
  next
    case (Gpio_Toggle port pin)
    then show ?thesis using gpio_toggle_call.api.runs [OF os, of m "((port, pin), 0)" w] by (simp cong: if_cong)
  next
    case (Gpio_Irq_Cfg edge port pin)
    then show ?thesis using gpio_irq_cfg_call.api.runs [OF os, of m "(edge, port, pin)" w] by (simp cong: if_cong)
  next
    case (Gpio_Irq_Bind edge in_port in_pin action out_port out_pin)
    then show ?thesis using gpio_irq_bind_call.api.runs [OF os, of m "(edge, in_port, in_pin, action, out_port, out_pin)" w] by (simp cong: if_cong)
  next
    case (Gpio_Irq_Unbind port pin)
    then show ?thesis using gpio_irq_unbind_call.api.runs [OF os, of m "(port, pin)" w] by (simp cong: if_cong)
  next
    case (Pwm_Group_Cfg freq grp)
    then show ?thesis using pwm_group_cfg_call.api.runs [OF os, of m "(freq, grp)" w] by (simp cong: if_cong)
  next
    case (Pwm_Group_Get grp)
    then show ?thesis using pwm_group_get_call.api.runs [OF os, of m "(grp, 0)" w] by (simp cong: if_cong)
  next
    case (Pwm_Group_Release grp)
    then show ?thesis using pwm_group_release_call.api.runs [OF os, of m grp w] by (simp cong: if_cong)
  next
    case (Pwm_Channel_Cfg polarity port pin)
    then show ?thesis using pwm_channel_cfg_call.api.runs [OF os, of m "(polarity, port, pin)" w] by (simp cong: if_cong)
  next
    case (Pwm_Channel_Set duty port pin)
    then show ?thesis using pwm_channel_set_call.api.runs [OF os, of m "(duty, port, pin)" w] by (simp cong: if_cong)
  next
    case (Pwm_Channel_Get port pin)
    then show ?thesis using pwm_channel_get_call.api.runs [OF os, of m "((port, pin), 0)" w] by (simp cong: if_cong)
  next
    case (Pwm_Channel_Release port pin)
    then show ?thesis using pwm_channel_release_call.api.runs [OF os, of m "(port, pin)" w] by (simp cong: if_cong)
  qed
qed

section \<open>Opening and closing a connection\<close>

lemma answered_keeps:
  "answered m c P w s w' \<Longrightarrow> fds w' = fds w \<and> heap w' = heap w \<and> port_tty w' = port_tty w \<and> excl w' = excl w
     \<and> nonblock w' = nonblock w \<and> clk w \<le> clk w' \<and> suffix (rx w') (rx w)"
  by (auto simp: answered_def later_iff)

lemma answered_ok:
  "answered m c P w 0 w' \<Longrightarrow> tx w' = tx w @ encode_command c
     \<and> (\<exists>b d. scan_response (rx w) = Some (Some (b, d), rx w') \<and> reply_status b d = 0 \<and> P d)"
  by (auto simp: answered_def later_iff verdict_def split: option.splits if_splits)

lemma mcuco_close_does:
  assumes "posix os" "0 \<le> mcu_fd m"
  shows "fds (mcuco_close os (Some m) w) = fds w - {mcu_fd m} \<and> heap (mcuco_close os (Some m) w) = heap w - 1
    \<and> tx (mcuco_close os (Some m) w) = tx w \<and> rx (mcuco_close os (Some m) w) = rx w"
proof -
  have "later (w\<lparr>fds := fds w - {mcu_fd m}\<rparr>) (uart_close os (mcu_fd m) w)"
    using uart_close_does [OF assms(1), of w "mcu_fd m"] assms(2) by (simp split: if_splits)
  moreover have "later (v\<lparr>heap := heap v - 1\<rparr>) (sys_free os v)" for v
    using assms(1) by (simp add: posix_def posix_heap_def)
  ultimately show ?thesis by (auto simp: mcuco_close_def close_port_def Let_def later_iff)
qed

lemma malloc_does:
  "posix os \<Longrightarrow> sys_malloc os w = (ok, w')
   \<Longrightarrow> if ok then later (w\<lparr>heap := Suc (heap w)\<rparr>) w' else later w w' \<and> errno w' = ENOMEM"
  by (simp add: posix_def posix_heap_def)

lemma free_does: "posix os \<Longrightarrow> later (w\<lparr>heap := heap w - 1\<rparr>) (sys_free os w)"
  by (simp add: posix_def posix_heap_def)

text \<open>The ways \<open>mcuco_open\<close> can end.\<close>

lemma mcuco_open_cases:
  assumes os: "posix os" and op: "mcuco_open os path t w = Some (h, w')"
  obtains (no_path) "path = None" "h = None" "w' = w\<lparr>errno := EINVAL\<rparr>"
  | (no_memory) "h = None" "later w w'" "errno w' = ENOMEM"
  | (no_port) r w1 w2 where "h = None" "later (w\<lparr>heap := Suc (heap w)\<rparr>) w1" "uart_open os (the path) w1 = (r, w2)"
      "r < 0" "w' = (sys_free os w2)\<lparr>errno := - r\<rparr>"
  | (no_mcu) r w1 w2 w3 s m where "h = None" "later (w\<lparr>heap := Suc (heap w)\<rparr>) w1" "uart_open os (the path) w1 = (r, w2)"
      "0 \<le> r" "m = \<lparr>mcu_fd = r, mcu_timeout_ms = t\<rparr>" "answered m Probe (\<lambda>d. d = expected_magic) w2 s w3" "s \<noteq> 0"
      "w' = (mcuco_close os (Some m) w3)\<lparr>errno := if s = 0x82 then ETIMEDOUT else EPROTO\<rparr>"
  | (opened) r w1 w2 m where "h = Some m" "later (w\<lparr>heap := Suc (heap w)\<rparr>) w1" "uart_open os (the path) w1 = (r, w2)"
      "0 \<le> r" "m = \<lparr>mcu_fd = r, mcu_timeout_ms = t\<rparr>" "answered m Probe (\<lambda>d. d = expected_magic) w2 0 w'"
proof (cases path)
  case None
  with op that(1) show ?thesis by (auto simp: mcuco_open_def)
next
  case (Some p)
  obtain ok w1 where mal: "sys_malloc os w = (ok, w1)" by fastforce
  show ?thesis
  proof (cases ok)
    case False
    with op Some mal malloc_does [OF os mal] that(2) show ?thesis by (auto simp: mcuco_open_def)
  next
    case True
    obtain r w2 where uo: "uart_open os p w1 = (r, w2)" by fastforce
    have l: "later (w\<lparr>heap := Suc (heap w)\<rparr>) w1" using malloc_does [OF os mal] True by simp
    show ?thesis
    proof (cases "r < 0")
      case neg: True
      with op Some mal True uo l that(3) show ?thesis by (auto simp: mcuco_open_def open_port_def Let_def)
    next
      case False
      let ?m = "\<lparr>mcu_fd = r, mcu_timeout_ms = t\<rparr>"
      from op Some mal True uo False obtain s w3 where pr: "mcuco_probe os (Some ?m) w2 = Some (s, w3)"
        and k: "if s \<noteq> 0 then h = None \<and> w' = (mcuco_close os (Some ?m) w3)\<lparr>errno := if s = 0x82 then ETIMEDOUT else EPROTO\<rparr>
          else h = Some ?m \<and> w' = w3"
        by (auto simp: mcuco_open_def open_port_def Let_def bind_eq_Some_conv split: if_splits)
      have a: "answered ?m Probe (\<lambda>d. d = expected_magic) w2 s w3"
        using probe_call.contract [OF os _ pr] by simp
      show ?thesis
      proof (cases "s = 0")
        case True
        with that(5) [OF _ l _ _ refl] uo Some False k a show ?thesis by simp
      next
        case nz: False
        with that(4) [OF _ l _ _ refl a] uo Some False k show ?thesis by simp
      qed
    qed
  qed
qed

lemma mcuco_open_effect:
  assumes os: "posix os" and op: "mcuco_open os path t w = Some (h, w')"
  shows "case h of
      None \<Rightarrow> fds w' = fds w \<and> heap w' = heap w
    | Some m \<Rightarrow> 0 \<le> mcu_fd m \<and> mcu_fd m \<notin> fds w \<and> fds w' = insert (mcu_fd m) (fds w) \<and> heap w' = Suc (heap w)
        \<and> mcu_timeout_ms m = t \<and> settings_ok (port_tty w') \<and> excl w' \<and> \<not> nonblock w'
        \<and> tx w' = tx w @ encode_command Probe
        \<and> (\<exists>pre b. b \<noteq> 0 \<and> rx w = pre @ encode_response b expected_magic @ rx w')"
  using os op
proof (cases rule: mcuco_open_cases)
  case no_path
  then show ?thesis by simp
next
  case no_memory
  then show ?thesis by (simp add: later_iff)
next
  case (no_port r w1 w2)
  with uart_open_does [OF os no_port(3)] free_does [OF os, of w2] show ?thesis
    by (simp add: later_iff)
next
  case (no_mcu r w1 w2 w3 s m)
  with uart_open_does [OF os no_mcu(3)] answered_keeps [OF no_mcu(6)] mcuco_close_does [OF os, of m w3]
  show ?thesis by (auto simp: later_iff)
next
  case (opened r w1 w2 m)
  note u = uart_open_does [OF os opened(3)] and k = answered_keeps [OF opened(6)] and a = answered_ok [OF opened(6)]
  from a obtain b where b: "scan_response (rx w2) = Some (Some (b, expected_magic), rx w')" "reply_status b expected_magic = 0"
    by blast
  then have "b \<noteq> 0" by (auto simp: reply_status_def expected_magic_def split: if_splits)
  moreover obtain junk where "rx w2 = junk @ encode_response b expected_magic @ rx w'"
    using b(1) by (auto simp: scan_response_frame)
  moreover obtain old where "rx w = old @ rx w2" using u opened(2) by (auto simp: suffix_def later_iff)
  ultimately have "\<exists>pre b. b \<noteq> 0 \<and> rx w = pre @ encode_response b expected_magic @ rx w'"
    by (intro exI [of _ "old @ junk"] exI [of _ b]) simp
  with u k a opened show ?thesis by (simp add: later_iff)
qed

lemma mcuco_open_terminates:
  assumes "posix os" "finite_interrupts os rank"
  shows "\<exists>res. mcuco_open os path t w = Some res"
proof (cases path)
  case (Some p)
  obtain ok w1 where mal: "sys_malloc os w = (ok, w1)" by fastforce
  obtain r w2 where uo: "open_port os p w1 = (r, w2)" by fastforce
  obtain s w3 where "mcuco_probe os (Some \<lparr>mcu_fd = r, mcu_timeout_ms = t\<rparr>) w2 = Some (s, w3)"
    using probe_call.terminates [OF assms, of "\<lparr>mcu_fd = r, mcu_timeout_ms = t\<rparr>" w2] by auto
  with Some mal uo show ?thesis by (cases ok) (simp_all add: mcuco_open_def Let_def)
qed (simp add: mcuco_open_def)

text \<open>errno of a failure.\<close>

lemma mcuco_open_errno:
  assumes os: "posix os" and op: "mcuco_open os path t w = Some (None, w')"
  shows "0 < errno w' \<and> prefix (tx w) (tx w')
    \<and> (tx w' \<noteq> tx w \<longrightarrow> errno w' = ETIMEDOUT \<and> tx w' = tx w @ encode_command Probe \<or> errno w' = EPROTO)"
  using os op
proof (cases rule: mcuco_open_cases)
  case (no_port r w1 w2)
  with uart_open_does [OF os no_port(3)] free_does [OF os, of w2] show ?thesis
    by (auto simp: later_iff)
next
  case (no_mcu r w1 w2 w3 s m)
  have "tx w2 = tx w" using uart_open_does [OF os no_mcu(3)] no_mcu(2) by (simp add: later_iff)
  with no_mcu mcuco_close_does [OF os, of m w3] show ?thesis
    by (auto simp: answered_def later_iff verdict_def reply_status_def split: option.splits if_splits)
qed (auto simp: later_iff)

section \<open>Properties\<close>

text \<open>C26. A query writes its out-parameter only when it succeeds: on every other status, from an
  argument refused on the host to a malformed answer, the caller's variable keeps its value.\<close>

theorem query_keeps_cell:
  assumes "posix os"
  shows "(case mcuco_gpio_get os (Some m) port pin (Some l) w of
         None \<Rightarrow> True | Some (s, cell, _) \<Rightarrow> if s = MCUCO_STATUS_OK then True else cell = Some l)
   \<and> (case mcuco_gpio_toggle os (Some m) port pin (Some l) w of
         None \<Rightarrow> True | Some (s, cell, _) \<Rightarrow> if s = MCUCO_STATUS_OK then True else cell = Some l)
   \<and> (case mcuco_pwm_group_get os (Some m) grp (Some f) w of
         None \<Rightarrow> True | Some (s, cell, _) \<Rightarrow> if s = MCUCO_STATUS_OK then True else cell = Some f)
   \<and> (case mcuco_pwm_channel_get os (Some m) port pin (Some d) w of
         None \<Rightarrow> True | Some (s, cell, _) \<Rightarrow> if s = MCUCO_STATUS_OK then True else cell = Some d)"
  using gpio_get_call.cell_kept [OF assms, of m "(port, pin)" l w]
    gpio_toggle_call.cell_kept [OF assms, of m "(port, pin)" l w]
    pwm_group_get_call.cell_kept [OF assms, of m grp f w]
    pwm_channel_get_call.cell_kept [OF assms, of m "(port, pin)" d w]
  by (auto split: option.splits prod.splits)

theorem query_keeps_cell_witness:
  "case mcuco_gpio_get demo_os (Some \<lparr>mcu_fd = 3, mcu_timeout_ms = 10\<rparr>) 9 0 (Some 7) (demo_world [] 0) of
     None \<Rightarrow> True | Some (s, cell, _) \<Rightarrow> if s = MCUCO_STATUS_OK then True else cell = Some 7"
  using query_keeps_cell [OF posix_demo, where m = "\<lparr>mcu_fd = 3, mcu_timeout_ms = 10\<rparr>" and port = 9 and pin = 0
      and l = 7 and w = "demo_world [] 0"] by blast

text \<open>C27. Reading back a frequency end to end: if the MCU's acknowledgement, carrying \<open>hz\<close> in four
  bytes, is delivered in time behind any bytes that are not SOF, \<open>mcuco_pwm_group_get\<close> returns OK
  with exactly \<open>hz\<close> in the caller's variable, having sent exactly the frame of its command.\<close>

theorem pwm_group_get_reads:
  assumes "posix os" "finite_interrupts os rank" "delivers_by os D" "accepts_by os D"
    and "clk w < D" "D \<le> clk w + mcu_timeout_ms m" "mcu_timeout_ms m < 2 ^ 31"
    and "grp \<le> 2" "a \<noteq> 0" "PROTOCOL_SOF \<notin> set junk" "rx w = junk @ encode_response a (u32_le hz) @ rest"
  shows "\<exists>w'. mcuco_pwm_group_get os (Some m) grp (Some old) w = Some (MCUCO_STATUS_OK, Some hz, w')
     \<and> tx w' = tx w @ encode_command (Pwm_Group_Get grp) \<and> rx w' = rest"
proof -
  have "scan_response (rx w) = Some (Some (a, u32_le hz), rest)"
    using assms(10,11) by (auto simp: scan_response_frame)
  from pwm_group_get_call.answer_delivered [OF assms(1-7) _ this, of grp hz old] assms(8,9) show ?thesis
    by (simp add: reply_status_def frequency_of_def le_u32_inverse)
qed

theorem pwm_group_get_reads_witness:
  "\<exists>w'. mcuco_pwm_group_get demo_os (Some \<lparr>mcu_fd = 3, mcu_timeout_ms = 100\<rparr>) 1 (Some 0)
       (demo_world ([7] @ encode_response 1 (u32_le 1000) @ []) 2) = Some (MCUCO_STATUS_OK, Some 1000, w')
     \<and> tx w' = tx (demo_world ([7] @ encode_response 1 (u32_le 1000) @ []) 2) @ encode_command (Pwm_Group_Get 1) \<and> rx w' = []"
  by (rule pwm_group_get_reads [OF posix_demo finite_interrupts_demo delivers_by_demo [of 90] accepts_by_demo, where junk = "[7]"])
     (simp_all add: demo_world_def)

text \<open>The same for a duty cycle: \<open>mcuco_pwm_channel_get\<close> returns the two-byte value the MCU
  acknowledged.\<close>

theorem pwm_channel_get_reads:
  assumes "posix os" "finite_interrupts os rank" "delivers_by os D" "accepts_by os D"
    and "clk w < D" "D \<le> clk w + mcu_timeout_ms m" "mcu_timeout_ms m < 2 ^ 31"
    and "port \<le> PORT_G" "pin \<le> 15" "a \<noteq> 0" "PROTOCOL_SOF \<notin> set junk"
    and "rx w = junk @ encode_response a (u16_le v) @ rest"
  shows "\<exists>w'. mcuco_pwm_channel_get os (Some m) port pin (Some old) w = Some (MCUCO_STATUS_OK, Some v, w')
     \<and> tx w' = tx w @ encode_command (Pwm_Channel_Get port pin) \<and> rx w' = rest"
proof -
  have "scan_response (rx w) = Some (Some (a, u16_le v), rest)"
    using assms(11,12) by (auto simp: scan_response_frame)
  from pwm_channel_get_call.answer_delivered [OF assms(1-7) _ this, of "(port, pin)" v old] assms(8-10) show ?thesis
    by (simp add: reply_status_def duty_of_def le_u16_inverse valid_pin_def)
qed

theorem pwm_channel_get_reads_witness:
  "\<exists>w'. mcuco_pwm_channel_get demo_os (Some \<lparr>mcu_fd = 3, mcu_timeout_ms = 100\<rparr>) 0 8 (Some 0)
       (demo_world ([] @ encode_response 1 (u16_le 250) @ [3]) 0) = Some (MCUCO_STATUS_OK, Some 250, w')
     \<and> tx w' = tx (demo_world ([] @ encode_response 1 (u16_le 250) @ [3]) 0) @ encode_command (Pwm_Channel_Get 0 8) \<and> rx w' = [3]"
  by (rule pwm_channel_get_reads [OF posix_demo finite_interrupts_demo delivers_by_demo [of 90] accepts_by_demo, where junk = "[]"])
     (simp_all add: demo_world_def)

text \<open>C33. A negative acknowledgement with reason byte 0 is taken for success: the call returns
  MCUCO_STATUS_OK, and \<open>mcuco_gpio_get\<close> even stores the reason byte as the level of the pin,
  which is therefore read as low.\<close>

theorem nack_reason_zero_is_success:
  assumes "posix os" "finite_interrupts os rank" "delivers_by os D" "accepts_by os D"
    and "clk w < D" "D \<le> clk w + mcu_timeout_ms m" "mcu_timeout_ms m < 2 ^ 31"
    and "port \<le> PORT_G" "pin \<le> 15" "rx w = encode_response 0 [0] @ rest"
  shows "\<exists>w'. mcuco_gpio_get os (Some m) port pin (Some old) w = Some (MCUCO_STATUS_OK, Some LEVEL_LOW, w')"
proof -
  have "scan_response (rx w) = Some (Some (0, [0]), rest)"
    using assms(10) by (auto simp: scan_response_frame intro: exI [of _ "[]"])
  from gpio_get_call.answer_delivered [OF assms(1-7) _ this, of "(port, pin)" 0 old] assms(8,9) show ?thesis
    by (auto simp: reply_status_def level_of_def valid_pin_def)
qed

theorem nack_reason_zero_is_success_witness:
  "\<exists>w'. mcuco_gpio_get demo_os (Some \<lparr>mcu_fd = 3, mcu_timeout_ms = 100\<rparr>) 0 5 (Some 1)
     (demo_world (encode_response 0 [0] @ []) 0) = Some (MCUCO_STATUS_OK, Some LEVEL_LOW, w')"
  by (rule nack_reason_zero_is_success [OF posix_demo finite_interrupts_demo delivers_by_demo [of 90] accepts_by_demo])
     (simp_all add: demo_world_def)

text \<open>C34. A complete late reply is taken for the answer to the next command: with the whole response
  to an abandoned command still queued, \<open>mcuco_gpio_get\<close> returns that response's level and leaves
  the genuine answer on the line for the call after it.\<close>

theorem late_reply_answers_next_command:
  assumes "posix os" "finite_interrupts os rank" "delivers_by os D" "accepts_by os D"
    and "clk w < D" "D \<le> clk w + mcu_timeout_ms m" "mcu_timeout_ms m < 2 ^ 31"
    and "port \<le> PORT_G" "pin \<le> 15"
    and "rx w = encode_response 1 [b] @ encode_response 1 [c]"
  shows "\<exists>w'. mcuco_gpio_get os (Some m) port pin (Some old) w
       = Some (MCUCO_STATUS_OK, Some (if b \<noteq> 0 then LEVEL_HIGH else LEVEL_LOW), w')
     \<and> rx w' = encode_response 1 [c]"
proof -
  have "scan_response (rx w) = Some (Some (1, [b]), encode_response 1 [c])"
    using assms(10) by (auto simp: scan_response_frame intro: exI [of _ "[]"])
  from gpio_get_call.answer_delivered [OF assms(1-7) _ this, of "(port, pin)" "if b \<noteq> 0 then LEVEL_HIGH else LEVEL_LOW" old]
    assms(8,9) show ?thesis
    by (auto simp: reply_status_def level_of_def valid_pin_def)
qed

theorem late_reply_answers_next_command_witness:
  "\<exists>w'. mcuco_gpio_get demo_os (Some \<lparr>mcu_fd = 3, mcu_timeout_ms = 100\<rparr>) 0 5 (Some 0)
       (demo_world (encode_response 1 [1] @ encode_response 1 [0]) 0)
       = Some (MCUCO_STATUS_OK, Some (if (1 :: u8) \<noteq> 0 then LEVEL_HIGH else LEVEL_LOW), w')
     \<and> rx w' = encode_response 1 [0]"
  by (rule late_reply_answers_next_command [OF posix_demo finite_interrupts_demo delivers_by_demo [of 90] accepts_by_demo])
     (simp_all add: demo_world_def)

text \<open>C10. \<open>mcuco_open\<close> returns, and leaks nothing: if it fails, the descriptors and the allocations
  are what they were; if it succeeds, the handle owns one new descriptor and one allocation, the
  port is configured and claimed, exactly the probe frame was sent, and the MCU answered it with
  an acknowledgement carrying the magic "MCUO".\<close>

theorem mcuco_open_correct:
  assumes "posix os" "finite_interrupts os rank"
  shows "\<exists>h w'. mcuco_open os path t w = Some (h, w') \<and>
     (case h of
        None \<Rightarrow> fds w' = fds w \<and> heap w' = heap w
      | Some m \<Rightarrow> mcu_fd m \<notin> fds w \<and> fds w' = insert (mcu_fd m) (fds w) \<and> heap w' = Suc (heap w)
          \<and> mcu_timeout_ms m = t \<and> settings_ok (port_tty w') \<and> excl w' \<and> \<not> nonblock w'
          \<and> tx w' = tx w @ encode_command Probe
          \<and> (\<exists>pre b. b \<noteq> 0 \<and> rx w = pre @ encode_response b expected_magic @ rx w'))"
proof -
  from mcuco_open_terminates [OF assms] obtain h w' where op: "mcuco_open os path t w = Some (h, w')" by fastforce
  with mcuco_open_effect [OF assms(1) op] show ?thesis by (cases h) auto
qed

theorem mcuco_open_correct_witness:
  "\<exists>h w'. mcuco_open demo_os (Some ''/dev/ttyACM0'') 100 (demo_world [1] 1) = Some (h, w') \<and>
     (case h of
        None \<Rightarrow> fds w' = fds (demo_world [1] 1) \<and> heap w' = heap (demo_world [1] 1)
      | Some m \<Rightarrow> mcu_fd m \<notin> fds (demo_world [1] 1) \<and> fds w' = insert (mcu_fd m) (fds (demo_world [1] 1))
          \<and> heap w' = Suc (heap (demo_world [1] 1))
          \<and> mcu_timeout_ms m = 100 \<and> settings_ok (port_tty w') \<and> excl w' \<and> \<not> nonblock w'
          \<and> tx w' = tx (demo_world [1] 1) @ encode_command Probe
          \<and> (\<exists>pre b. b \<noteq> 0 \<and> rx (demo_world [1] 1) = pre @ encode_response b expected_magic @ rx w'))"
  by (rule mcuco_open_correct [OF posix_demo finite_interrupts_demo])

text \<open>C29. A failed \<open>mcuco_open\<close> always says why: errno is positive, and once anything has been sent
  it is ETIMEDOUT (then the whole probe went out) or EPROTO, whatever \<open>close\<close> and \<open>free\<close> did to
  errno on the way out.\<close>

theorem mcuco_open_sets_errno:
  assumes "posix os" "mcuco_open os path t w = Some (None, w')"
  shows "0 < errno w'
    \<and> (tx w' = tx w \<or> errno w' = ETIMEDOUT \<and> tx w' = tx w @ encode_command Probe \<or> errno w' = EPROTO)"
  using mcuco_open_errno [OF assms] by blast

theorem mcuco_open_sets_errno_witness:
  "0 < errno ((demo_world [] 0)\<lparr>errno := EINVAL\<rparr>)
    \<and> (tx ((demo_world [] 0)\<lparr>errno := EINVAL\<rparr>) = tx (demo_world [] 0)
       \<or> errno ((demo_world [] 0)\<lparr>errno := EINVAL\<rparr>) = ETIMEDOUT
           \<and> tx ((demo_world [] 0)\<lparr>errno := EINVAL\<rparr>) = tx (demo_world [] 0) @ encode_command Probe
       \<or> errno ((demo_world [] 0)\<lparr>errno := EINVAL\<rparr>) = EPROTO)"
  by (rule mcuco_open_sets_errno [OF posix_demo, of None 5]) (simp add: mcuco_open_def)

lemma open_demo_port:
  "sys_malloc demo_os (demo_world bs 0) = (True, (demo_world bs 0)\<lparr>heap := 1\<rparr>)"
  "uart_open demo_os p ((demo_world bs 0)\<lparr>heap := 1\<rparr>) =
     (3, (demo_world bs 0)\<lparr>heap := 1, fds := {3}, excl := True, port_tty := \<lparr>c_iflag = 0, c_oflag = 0, c_cflag = 0x8B0,
          c_lflag = 0, c_vmin = 0, c_vtime = 0, c_ispeed = 0x1002, c_ospeed = 0x1002\<rparr>\<rparr>)"
  by (simp_all add: demo_os_def demo_world_def uart_open_def configure_port_def claim_port_def wanted_tty_def
      cfmakeraw_def cfgetospeed_def MCU_BAUD_def)

lemma mcuco_open_demo_rest:
  "\<exists>w'. mcuco_open demo_os (Some p) 100 (demo_world (encode_response 1 expected_magic @ bs) 0)
     = Some (Some \<lparr>mcu_fd = 3, mcu_timeout_ms = 100\<rparr>, w') \<and> rx w' = bs \<and> 0 \<le> clk w' \<and> clk w' < 90"
proof -
  let ?bs = "encode_response 1 expected_magic @ bs"
  obtain w2 where uo: "uart_open demo_os p ((demo_world ?bs 0)\<lparr>heap := 1\<rparr>) = (3, w2)"
    and w2: "rx w2 = ?bs" "clk w2 = 0"
    using open_demo_port(2) [of p ?bs] by (simp add: demo_world_def)
  have "scan_response (rx w2) = Some (Some (1, expected_magic), bs)"
    using w2 by (auto simp: scan_response_frame expected_magic_def intro: exI [of _ "[]"])
  from probe_call.answered_by [OF posix_demo finite_interrupts_demo delivers_by_demo [of 90] accepts_by_demo, of w2
      "\<lparr>mcu_fd = 3, mcu_timeout_ms = 100\<rparr>", OF _ _ _ _ this] w2
  obtain w3 where pr: "mcuco_probe demo_os (Some \<lparr>mcu_fd = 3, mcu_timeout_ms = 100\<rparr>) w2 = Some (0, w3)"
    "rx w3 = bs" "clk w3 < 90"
    by (auto simp: verdict_def reply_status_def)
  from probe_call.contract [OF posix_demo _ pr(1)] have "0 \<le> clk w3"
    using answered_keeps [of _ _ _ w2 0 w3] w2(2) by fastforce
  with uo pr show ?thesis by (simp add: mcuco_open_def open_demo_port(1) open_port_def Let_def)
qed

lemma mcuco_open_demo:
  "\<exists>w'. mcuco_open demo_os (Some p) 100 (demo_world (encode_response 1 expected_magic) 0)
     = Some (Some \<lparr>mcu_fd = 3, mcu_timeout_ms = 100\<rparr>, w')"
  using mcuco_open_demo_rest [of p "[]"] by auto

text \<open>\<open>mcuco_close\<close> undoes \<open>mcuco_open\<close>: closing a handle right after opening it restores the
  open descriptors and the number of allocations, and sends nothing.\<close>

theorem mcuco_close_restores:
  assumes "posix os" "mcuco_open os path t w = Some (Some m, w')"
  shows "fds (mcuco_close os (Some m) w') = fds w \<and> heap (mcuco_close os (Some m) w') = heap w
    \<and> tx (mcuco_close os (Some m) w') = tx w'"
  using mcuco_open_effect [OF assms] mcuco_close_does [OF assms(1), of m w'] by simp

theorem mcuco_close_restores_witness:
  "\<exists>w'. mcuco_open demo_os (Some ''/dev/ttyACM0'') 100 (demo_world (encode_response 1 expected_magic) 0)
       = Some (Some \<lparr>mcu_fd = 3, mcu_timeout_ms = 100\<rparr>, w')
     \<and> fds (mcuco_close demo_os (Some \<lparr>mcu_fd = 3, mcu_timeout_ms = 100\<rparr>) w') = {}
     \<and> heap (mcuco_close demo_os (Some \<lparr>mcu_fd = 3, mcu_timeout_ms = 100\<rparr>) w') = 0"
proof -
  from mcuco_open_demo [of "''/dev/ttyACM0''"] obtain w' where
    op: "mcuco_open demo_os (Some ''/dev/ttyACM0'') 100 (demo_world (encode_response 1 expected_magic) 0)
       = Some (Some \<lparr>mcu_fd = 3, mcu_timeout_ms = 100\<rparr>, w')" by blast
  from mcuco_close_restores [OF posix_demo op] op show ?thesis by (auto simp: demo_world_def)
qed

end
