(* ===== verification/Process.thy ===== *)
theory Process
  imports Mcuco
begin

text \<open>
  The programs' side of the model: a process with its output streams, and the signal handlers
  and the \<open>stop_requested\<close> flag of the examples, around the world of theory Posix, and the
  operations the programs share. A program is a function of the process that returns its exit
  code and the process at exit.
\<close>

section \<open>The process\<close>

text \<open>
  What was written on stdout and stderr, the installed signal handlers by signal number and the
  flag \<open>stop_requested\<close> (only the examples have them), and the world the library calls act on.
  The one handler in the programs is \<open>request_stop\<close>.
\<close>

datatype signal_handler = REQUEST_STOP

record 'k process =
  p_out :: string
  p_err :: string
  p_handlers :: "int \<rightharpoonup> signal_handler"
  p_stop :: int
  p_world :: "'k world"

definition newline :: string where
  "newline = [CHR 0x0A]"

text \<open>\<open>%u\<close> of \<open>printf\<close>.\<close>

fun decimal :: "nat \<Rightarrow> string" where
  "decimal n = (if n < 10 then [char_of (48 + n)] else decimal (n div 10) @ [char_of (48 + n mod 10)])"

declare decimal.simps [simp del]

text \<open>\<open>printf\<close> and \<open>fprintf (stderr, ...)\<close> of a text without conversions left.\<close>

definition print_out :: "string \<Rightarrow> 'k process \<Rightarrow> 'k process" where
  "print_out s p = p\<lparr>p_out := p_out p @ s\<rparr>"

definition print_err :: "string \<Rightarrow> 'k process \<Rightarrow> 'k process" where
  "print_err s p = p\<lparr>p_err := p_err p @ s\<rparr>"

text \<open>A library call made by the process.\<close>

definition call_in ::
  "('k world \<Rightarrow> ('a \<times> 'k world) option) \<Rightarrow> 'k process \<Rightarrow> ('a \<times> 'k process) option" where
  "call_in f p = do { (x, w) \<leftarrow> f (p_world p); Some (x, p\<lparr>p_world := w\<rparr>) }"

lemma print_simps [simp]:
  "p_world (print_out s p) = p_world p" "p_world (print_err s p) = p_world p"
  "p_err (print_out s p) = p_err p" "p_err (print_err s p) = p_err p @ s"
  "p_out (print_out s p) = p_out p @ s" "p_out (print_err s p) = p_out p"
  "p_stop (print_out s p) = p_stop p" "p_stop (print_err s p) = p_stop p"
  "p_handlers (print_out s p) = p_handlers p" "p_handlers (print_err s p) = p_handlers p"
  by (simp_all add: print_out_def print_err_def)

lemma call_in_Some:
  "call_in f p = Some (x, p') \<longleftrightarrow> (\<exists>w. f (p_world p) = Some (x, w) \<and> p' = p\<lparr>p_world := w\<rparr>)"
  by (auto simp: call_in_def bind_eq_Some_conv)

section \<open>A process for the witnesses\<close>

definition demo_process :: "u8 list \<Rightarrow> nat process" where
  "demo_process bs = \<lparr>p_out = [], p_err = [], p_handlers = Map.empty, p_stop = 0, p_world = demo_world bs 0\<rparr>"

end
