(* ===== verification/Commands.thy ===== *)
theory Commands
  imports Process
begin

text \<open>
  \<^verbatim>\<open>cli/commands.c\<close>: the word parsers, the command table, the argument parser, and the
  run functions with what they print. A C string is a list of characters without its NUL.
  The parsers that take a number go through \<open>strtoul\<close>, modelled as the C standard has it for
  base 10 and a 64-bit \<open>unsigned long\<close>.
\<close>

section \<open>The C library\<close>

definition is_space :: "char \<Rightarrow> bool" where
  "is_space c \<longleftrightarrow> c \<in> {CHR '' '', CHR 0x09, CHR 0x0A, CHR 0x0B, CHR 0x0C, CHR 0x0D}"

definition is_digit :: "char \<Rightarrow> bool" where
  "is_digit c \<longleftrightarrow> 48 \<le> (of_char c :: nat) \<and> (of_char c :: nat) \<le> 57"

definition digit_value :: "char \<Rightarrow> nat" where
  "digit_value c = of_char c - 48"

definition digits_value :: "string \<Rightarrow> nat" where
  "digits_value ds = foldl (\<lambda>v c. 10 * v + digit_value c) 0 ds"

definition ULONG_MAX :: nat where
  "ULONG_MAX = 2 ^ 64 - 1"

text \<open>
  The value, the string from where \<open>end\<close> points on, and whether errno was set to ERANGE. A
  minus sign negates the value in the unsigned type; a word with no digits is not converted,
  and \<open>end\<close> is then the word itself.
\<close>

definition strtoul :: "string \<Rightarrow> nat \<times> string \<times> bool" where
  "strtoul word =
     (let s = dropWhile is_space word;
          neg = (s \<noteq> [] \<and> hd s = CHR ''-'');
          t = (if s \<noteq> [] \<and> (hd s = CHR ''-'' \<or> hd s = CHR ''+'') then tl s else s);
          ds = takeWhile is_digit t;
          v = digits_value ds
      in if ds = [] then (0, word, False)
         else if ULONG_MAX < v then (ULONG_MAX, dropWhile is_digit t, True)
         else (if neg \<and> v \<noteq> 0 then ULONG_MAX + 1 - v else v, dropWhile is_digit t, False))"

text \<open>\<open>%-ns\<close> of \<open>printf\<close>.\<close>

definition pad :: "nat \<Rightarrow> string \<Rightarrow> string" where
  "pad n s = s @ replicate (n - length s) CHR '' ''"

section \<open>Words\<close>

text \<open>A parser returns the value it stores, or \<^term>\<open>None\<close> when it returns -1 and stores nothing.\<close>

definition parse_direction :: "string \<Rightarrow> dir_t option" where
  "parse_direction word =
     (if word = ''input'' then Some DIR_INPUT
      else if word = ''output'' then Some DIR_OUTPUT
      else None)"

definition parse_level :: "string \<Rightarrow> level_t option" where
  "parse_level word =
     (if word = ''low'' then Some LEVEL_LOW
      else if word = ''high'' then Some LEVEL_HIGH
      else None)"

definition first_char :: "string \<Rightarrow> nat" where
  "first_char word = (case word of [] \<Rightarrow> 0 | c # _ \<Rightarrow> of_char c)"

text \<open>A word that starts below A or above G, or has a second character, is refused.\<close>

definition parse_port :: "string \<Rightarrow> port_t option" where
  "parse_port word =
     (if first_char word < 65 \<or> first_char word > 71 \<or> tl word \<noteq> [] then None
      else Some (word_of_nat (first_char word - 65)))"

definition parse_pin :: "string \<Rightarrow> u8 option" where
  "parse_pin word =
     (if first_char word < 48 \<or> first_char word > 57 then None
      else (case strtoul word of
              (v, rest, _) \<Rightarrow> if rest \<noteq> [] \<or> v > PIN_MAX then None else Some (word_of_nat v)))"

definition parse_timer :: "string \<Rightarrow> u8 option" where
  "parse_timer word =
     (if first_char word < 48 \<or> first_char word > 57 then None
      else (case strtoul word of
              (v, rest, _) \<Rightarrow> if rest \<noteq> [] \<or> v > GROUP_MAX then None else Some (word_of_nat v)))"

definition parse_frequency :: "string \<Rightarrow> u32 option" where
  "parse_frequency word =
     (case strtoul word of
        (v, rest, _) \<Rightarrow> if rest \<noteq> [] \<or> v < FREQ_MIN \<or> v > FREQ_MAX then None else Some (word_of_nat v))"

definition parse_polarity :: "string \<Rightarrow> polarity_t option" where
  "parse_polarity word =
     (if word = ''active-high'' then Some POL_ACTIVE_HIGH
      else if word = ''active-low'' then Some POL_ACTIVE_LOW
      else None)"

definition parse_duty :: "string \<Rightarrow> u16 option" where
  "parse_duty word =
     (if first_char word < 48 \<or> first_char word > 57 then None
      else (case strtoul word of
              (percent, rest, _) \<Rightarrow>
                if rest \<noteq> [] \<or> percent > DUTY_MAX div 10 then None else Some (word_of_nat (percent * 10))))"

definition parse_edge :: "string \<Rightarrow> edge_t option" where
  "parse_edge word =
     (if word = ''off'' then Some EDGE_OFF
      else if word = ''rising'' then Some EDGE_RISING
      else if word = ''falling'' then Some EDGE_FALLING
      else if word = ''both'' then Some EDGE_BOTH
      else None)"

definition parse_bind_edge :: "string \<Rightarrow> edge_t option" where
  "parse_bind_edge word = (if word = ''off'' then None else parse_edge word)"

definition parse_action :: "string \<Rightarrow> action_t option" where
  "parse_action word =
     (if word = ''low'' then Some ACTION_LOW
      else if word = ''high'' then Some ACTION_HIGH
      else if word = ''toggle'' then Some ACTION_TOGGLE
      else None)"

section \<open>Values\<close>

datatype word_kind =
    WORD_NONE | WORD_DIRECTION | WORD_LEVEL | WORD_PORT | WORD_PIN | WORD_FREQUENCY | WORD_TIMER
  | WORD_POLARITY | WORD_DUTY | WORD_EDGE | WORD_BIND_EDGE | WORD_ACTION | WORD_OUT_PORT | WORD_OUT_PIN

record mcuco_args =
  arg_direction :: dir_t
  arg_level :: level_t
  arg_port :: port_t
  arg_pin :: u8
  arg_frequency_hz :: u32
  arg_timer :: u8
  arg_polarity :: polarity_t
  arg_duty_tenths :: u16
  arg_edge :: edge_t
  arg_action :: action_t
  arg_out_port :: port_t
  arg_out_pin :: u8

definition args_zero :: mcuco_args where
  "args_zero = \<lparr>arg_direction = 0, arg_level = 0, arg_port = 0, arg_pin = 0, arg_frequency_hz = 0,
     arg_timer = 0, arg_polarity = 0, arg_duty_tenths = 0, arg_edge = 0, arg_action = 0,
     arg_out_port = 0, arg_out_pin = 0\<rparr>"

text \<open>0 with the value stored, or -1 with the arguments as they were.\<close>

definition store_value ::
  "'a option \<Rightarrow> ('a \<Rightarrow> mcuco_args \<Rightarrow> mcuco_args) \<Rightarrow> mcuco_args \<Rightarrow> int \<times> mcuco_args" where
  "store_value r upd args = (case r of None \<Rightarrow> (- 1, args) | Some x \<Rightarrow> (0, upd x args))"

fun parse_value :: "word_kind \<Rightarrow> string \<Rightarrow> mcuco_args \<Rightarrow> int \<times> mcuco_args" where
  "parse_value WORD_DIRECTION word args = store_value (parse_direction word) (\<lambda>x a. a\<lparr>arg_direction := x\<rparr>) args"
| "parse_value WORD_LEVEL word args = store_value (parse_level word) (\<lambda>x a. a\<lparr>arg_level := x\<rparr>) args"
| "parse_value WORD_PORT word args = store_value (parse_port word) (\<lambda>x a. a\<lparr>arg_port := x\<rparr>) args"
| "parse_value WORD_PIN word args = store_value (parse_pin word) (\<lambda>x a. a\<lparr>arg_pin := x\<rparr>) args"
| "parse_value WORD_FREQUENCY word args = store_value (parse_frequency word) (\<lambda>x a. a\<lparr>arg_frequency_hz := x\<rparr>) args"
| "parse_value WORD_TIMER word args = store_value (parse_timer word) (\<lambda>x a. a\<lparr>arg_timer := x\<rparr>) args"
| "parse_value WORD_POLARITY word args = store_value (parse_polarity word) (\<lambda>x a. a\<lparr>arg_polarity := x\<rparr>) args"
| "parse_value WORD_DUTY word args = store_value (parse_duty word) (\<lambda>x a. a\<lparr>arg_duty_tenths := x\<rparr>) args"
| "parse_value WORD_EDGE word args = store_value (parse_edge word) (\<lambda>x a. a\<lparr>arg_edge := x\<rparr>) args"
| "parse_value WORD_BIND_EDGE word args = store_value (parse_bind_edge word) (\<lambda>x a. a\<lparr>arg_edge := x\<rparr>) args"
| "parse_value WORD_ACTION word args = store_value (parse_action word) (\<lambda>x a. a\<lparr>arg_action := x\<rparr>) args"
| "parse_value WORD_OUT_PORT word args = store_value (parse_port word) (\<lambda>x a. a\<lparr>arg_out_port := x\<rparr>) args"
| "parse_value WORD_OUT_PIN word args = store_value (parse_pin word) (\<lambda>x a. a\<lparr>arg_out_pin := x\<rparr>) args"
| "parse_value WORD_NONE word args = (- 1, args)"

section \<open>The run functions\<close>

text \<open>Each returns the status, what it printed on stdout, and the world.\<close>

type_synonym 'k run_fn =
  "'k os \<Rightarrow> mcuco ptr \<Rightarrow> mcuco_args \<Rightarrow> 'k world \<Rightarrow> (mcu_status \<times> string \<times> 'k world) option"

definition print_level :: "level_t \<Rightarrow> string" where
  "print_level level = (if level = LEVEL_HIGH then ''high'' else ''low'') @ newline"

definition run_probe :: "'k run_fn" where
  "run_probe os mcu args w =
     do { (status, w) \<leftarrow> mcuco_probe os mcu w; Some (status, [], w) }"

definition run_reset :: "'k run_fn" where
  "run_reset os mcu args w =
     do { (status, w) \<leftarrow> mcuco_reset os mcu w; Some (status, [], w) }"

definition run_gpio_cfg :: "'k run_fn" where
  "run_gpio_cfg os mcu args w =
     do { (status, w) \<leftarrow> mcuco_gpio_cfg os mcu (arg_direction args) (arg_port args) (arg_pin args) w; Some (status, [], w) }"

definition run_gpio_set :: "'k run_fn" where
  "run_gpio_set os mcu args w =
     do { (status, w) \<leftarrow> mcuco_gpio_set os mcu (arg_level args) (arg_port args) (arg_pin args) w; Some (status, [], w) }"

definition run_gpio_get :: "'k run_fn" where
  "run_gpio_get os mcu args w = do {
     (status, cell, w) \<leftarrow> mcuco_gpio_get os mcu (arg_port args) (arg_pin args) (Some LEVEL_LOW) w;
     level \<leftarrow> cell;
     if status = MCUCO_STATUS_OK then Some (status, print_level level, w)
     else Some (status, [], w)
   }"

definition run_gpio_toggle :: "'k run_fn" where
  "run_gpio_toggle os mcu args w = do {
     (status, cell, w) \<leftarrow> mcuco_gpio_toggle os mcu (arg_port args) (arg_pin args) (Some LEVEL_LOW) w;
     level \<leftarrow> cell;
     if status = MCUCO_STATUS_OK then Some (status, print_level level, w)
     else Some (status, [], w)
   }"

definition run_timer_cfg :: "'k run_fn" where
  "run_timer_cfg os mcu args w =
     do { (status, w) \<leftarrow> mcuco_pwm_group_cfg os mcu (arg_frequency_hz args) (arg_timer args) w; Some (status, [], w) }"

definition run_timer_release :: "'k run_fn" where
  "run_timer_release os mcu args w =
     do { (status, w) \<leftarrow> mcuco_pwm_group_release os mcu (arg_timer args) w; Some (status, [], w) }"

definition run_timer_get :: "'k run_fn" where
  "run_timer_get os mcu args w = do {
     (status, cell, w) \<leftarrow> mcuco_pwm_group_get os mcu (arg_timer args) (Some 0) w;
     achieved_hz \<leftarrow> cell;
     if status = MCUCO_STATUS_OK then Some (status, decimal (unat achieved_hz) @ newline, w)
     else Some (status, [], w)
   }"

definition run_pwm_cfg :: "'k run_fn" where
  "run_pwm_cfg os mcu args w =
     do { (status, w) \<leftarrow> mcuco_pwm_channel_cfg os mcu (arg_polarity args) (arg_port args) (arg_pin args) w; Some (status, [], w) }"

definition run_pwm_set :: "'k run_fn" where
  "run_pwm_set os mcu args w =
     do { (status, w) \<leftarrow> mcuco_pwm_channel_set os mcu (arg_duty_tenths args) (arg_port args) (arg_pin args) w; Some (status, [], w) }"

definition run_pwm_release :: "'k run_fn" where
  "run_pwm_release os mcu args w =
     do { (status, w) \<leftarrow> mcuco_pwm_channel_release os mcu (arg_port args) (arg_pin args) w; Some (status, [], w) }"

definition run_pwm_get :: "'k run_fn" where
  "run_pwm_get os mcu args w = do {
     (status, cell, w) \<leftarrow> mcuco_pwm_channel_get os mcu (arg_port args) (arg_pin args) (Some 0) w;
     duty_tenths \<leftarrow> cell;
     if status = MCUCO_STATUS_OK then Some (status, decimal (unat (duty_tenths div 10)) @ ''.'' @ decimal (unat (duty_tenths mod 10)) @ newline, w)
     else Some (status, [], w)
   }"

definition run_irq_cfg :: "'k run_fn" where
  "run_irq_cfg os mcu args w =
     do { (status, w) \<leftarrow> mcuco_gpio_irq_cfg os mcu (arg_edge args) (arg_port args) (arg_pin args) w; Some (status, [], w) }"

definition run_irq_bind :: "'k run_fn" where
  "run_irq_bind os mcu args w =
     do { (status, w) \<leftarrow> mcuco_gpio_irq_bind os mcu (arg_edge args) (arg_port args) (arg_pin args)
         (arg_action args) (arg_out_port args) (arg_out_pin args) w; Some (status, [], w) }"

definition run_irq_unbind :: "'k run_fn" where
  "run_irq_unbind os mcu args w =
     do { (status, w) \<leftarrow> mcuco_gpio_irq_unbind os mcu (arg_port args) (arg_pin args) w; Some (status, [], w) }"

section \<open>The command table\<close>

record 'k command_row =
  row_subsystem :: string
  row_verb :: string
  row_value_count :: nat
  row_values :: "word_kind list"
  row_run :: "'k run_fn"
  row_usage :: string
  row_summary :: string

text \<open>The slots of \<open>values\<close> a row does not name are zero, that is \<^const>\<open>WORD_NONE\<close>.\<close>

definition MAX_VALUE_WORDS :: nat where
  "MAX_VALUE_WORDS = 6"

definition table_row ::
  "string \<Rightarrow> string \<Rightarrow> nat \<Rightarrow> word_kind list \<Rightarrow> 'k run_fn \<Rightarrow> string \<Rightarrow> string \<Rightarrow> 'k command_row" where
  "table_row s v n ks f u m =
     \<lparr>row_subsystem = s, row_verb = v, row_value_count = n,
      row_values = ks @ replicate (MAX_VALUE_WORDS - length ks) WORD_NONE,
      row_run = f, row_usage = u, row_summary = m\<rparr>"

definition commands :: "'k command_row list" where
  "commands =
    [table_row ''mcu'' ''probe'' 0 [WORD_NONE] run_probe
       '''' ''check the link'',
     table_row ''mcu'' ''reset'' 0 [WORD_NONE] run_reset
       '''' ''reboot the MCU'',
     table_row ''gpio'' ''cfg'' 3 [WORD_DIRECTION, WORD_PORT, WORD_PIN] run_gpio_cfg
       ''<input|output> <pin>'' (''set a pin'' @ [CHR 0x27] @ ''s direction''),
     table_row ''gpio'' ''set'' 3 [WORD_LEVEL, WORD_PORT, WORD_PIN] run_gpio_set
       ''<low|high> <pin>'' ''drive an output pin'',
     table_row ''gpio'' ''get'' 2 [WORD_PORT, WORD_PIN] run_gpio_get
       ''<pin>'' ''-> low | high'',
     table_row ''gpio'' ''toggle'' 2 [WORD_PORT, WORD_PIN] run_gpio_toggle
       ''<pin>'' ''-> the level after the flip'',
     table_row ''timer'' ''cfg'' 2 [WORD_FREQUENCY, WORD_TIMER] run_timer_cfg
       ''<1-1000000> <0-2>'' ''Hz, then which timer'',
     table_row ''timer'' ''get'' 1 [WORD_TIMER] run_timer_get
       ''<0-2>'' ''-> achieved Hz'',
     table_row ''timer'' ''release'' 1 [WORD_TIMER] run_timer_release
       ''<0-2>'' ''stop it, freezing its pins'',
     table_row ''pwm'' ''cfg'' 3 [WORD_POLARITY, WORD_PORT, WORD_PIN] run_pwm_cfg
       ''<polarity> <pin>'' ''claim a pin, silent at 0%'',
     table_row ''pwm'' ''set'' 3 [WORD_DUTY, WORD_PORT, WORD_PIN] run_pwm_set
       ''<0-100> <pin>'' ''percent, then the pin'',
     table_row ''pwm'' ''get'' 2 [WORD_PORT, WORD_PIN] run_pwm_get
       ''<pin>'' ''-> percent, one decimal'',
     table_row ''pwm'' ''release'' 2 [WORD_PORT, WORD_PIN] run_pwm_release
       ''<pin>'' ''free one pin'',
     table_row ''irq'' ''cfg'' 3 [WORD_EDGE, WORD_PORT, WORD_PIN] run_irq_cfg
       ''<edge> <pin>'' ''arm or disarm a trigger'',
     table_row ''irq'' ''bind'' 6 [WORD_BIND_EDGE, WORD_PORT, WORD_PIN, WORD_ACTION, WORD_OUT_PORT, WORD_OUT_PIN] run_irq_bind
       ''<edge> <pin> <action> <pin>'' ''drive one pin from another'',
     table_row ''irq'' ''unbind'' 2 [WORD_PORT, WORD_PIN] run_irq_unbind
       ''<pin>'' ''drop the action, stay armed'']"

text \<open>The first row with the two words.\<close>

definition mcuco_find_command :: "string \<Rightarrow> string \<Rightarrow> 'k command_row ptr" where
  "mcuco_find_command subsystem verb =
     find (\<lambda>row. row_subsystem row = subsystem \<and> row_verb row = verb) commands"

section \<open>Parsing a command line\<close>

text \<open>The loop over the value words; they start at word 2.\<close>

function parse_words ::
  "word_kind list \<Rightarrow> nat \<Rightarrow> string list \<Rightarrow> nat \<Rightarrow> mcuco_args \<Rightarrow> (int \<times> mcuco_args) option" where
  "parse_words kinds count words i args =
     (if i < count
      then do {
        kind \<leftarrow> peek kinds i;
        word \<leftarrow> peek words (2 + i);
        (case parse_value kind word args of
           (r, args) \<Rightarrow> if r \<noteq> 0 then Some (- 1, args) else parse_words kinds count words (Suc i) args)
      }
      else Some (0, args))"
  by pat_completeness auto
termination
  by (relation "measure (\<lambda>(kinds, count, words, i, args). count - i)") auto

declare parse_words.simps [simp del]

text \<open>Returns 0 or -1 with the new values of \<open>*command\<close> and \<open>*mcuco_args\<close>.\<close>

definition args_parse_mcuco ::
  "int \<Rightarrow> string list \<Rightarrow> 'k command_row ptr \<Rightarrow> mcuco_args \<Rightarrow> (int \<times> 'k command_row ptr \<times> mcuco_args) option" where
  "args_parse_mcuco word_count words command args =
     (if word_count < 2 then Some (- 1, command, args)
      else do {
        subsystem \<leftarrow> peek words 0;
        verb \<leftarrow> peek words 1;
        (case mcuco_find_command subsystem verb of
           None \<Rightarrow> Some (- 1, command, args)
         | Some found \<Rightarrow>
             if word_count \<noteq> 2 + int (row_value_count found) then Some (- 1, command, args)
             else do {
               (r, args) \<leftarrow> parse_words (row_values found) (row_value_count found) words 0 args;
               if r \<noteq> 0 then Some (- 1, command, args) else Some (0, Some found, args)
             })
      })"

definition mcuco_run_command ::
  "'k os \<Rightarrow> mcuco ptr \<Rightarrow> 'k command_row ptr \<Rightarrow> mcuco_args \<Rightarrow> 'k world
   \<Rightarrow> (mcu_status \<times> string \<times> 'k world) option" where
  "mcuco_run_command os mcu command args w =
     (case command of
        None \<Rightarrow> Some (MCUCO_STATUS_ERR_ARG, [], w)
      | Some row \<Rightarrow> row_run row os mcu args w)"

text \<open>The listing; \<open>prev\<close> is the subsystem of the row before, if there is one.\<close>

fun print_rows :: "string option \<Rightarrow> 'k command_row list \<Rightarrow> string" where
  "print_rows prev [] = []"
| "print_rows prev (row # rows) =
     (let starts_subsystem = (prev \<noteq> Some (row_subsystem row)) in
      (if starts_subsystem \<and> prev \<noteq> None then newline else [])
      @ ''  '' @ pad 6 (if starts_subsystem then row_subsystem row else []) @ '' '' @ pad 8 (row_verb row)
      @ '' '' @ pad 28 (row_usage row) @ '' '' @ row_summary row @ newline
      @ print_rows (Some (row_subsystem row)) rows)"

definition mcuco_print_commands :: string where
  "mcuco_print_commands = print_rows None (commands :: unit command_row list)"

end
