(* ===== verification/Command_Line.thy ===== *)
theory Command_Line
  imports Commands
begin

text \<open>
  What \<^verbatim>\<open>cli/commands.c\<close> promises, proved of the definitions in theory Commands. The word
  parsers share one contract (locale \<open>value_parser\<close>: what is accepted is valid, and the canonical
  word of every valid value is read back), interpreted on each of them. Above it: the loop over
  the words, the command a row denotes (\<open>denotes\<close>), the run functions against the public API,
  and command lines as a notation for commands (\<open>words_of\<close>).
\<close>

section \<open>Numbers\<close>

lemma digits_value_append: "digits_value (xs @ [c]) = 10 * digits_value xs + digit_value c"
  by (simp add: digits_value_def)

lemma digit_char: "n < 10 \<Longrightarrow> is_digit (char_of (48 + n)) \<and> digit_value (char_of (48 + n)) = n"
  by (simp add: is_digit_def digit_value_def)

lemma decimal_digits: "list_all is_digit (decimal n) \<and> decimal n \<noteq> [] \<and> digits_value (decimal n) = n"
proof (induction n rule: decimal.induct)
  case (1 n)
  show ?case
  proof (cases "n < 10")
    case True
    then show ?thesis
      using digit_char [OF True] by (subst (1 2 3) decimal.simps) (simp add: digits_value_def)
  next
    case False
    have d: "is_digit (char_of (48 + n mod 10)) \<and> digit_value (char_of (48 + n mod 10)) = n mod 10"
      by (rule digit_char) simp
    have "decimal n = decimal (n div 10) @ [char_of (48 + n mod 10)]"
      using False by (subst decimal.simps) simp
    with 1 [OF False] d show ?thesis by (simp add: digits_value_append)
  qed
qed

lemma digit_no_space: "is_digit c \<Longrightarrow> \<not> is_space c \<and> c \<noteq> CHR ''-'' \<and> c \<noteq> CHR ''+''"
  by (auto simp: is_digit_def is_space_def)

lemma strtoul_digits:
  assumes "list_all is_digit ds" "ds \<noteq> []" "digits_value ds \<le> ULONG_MAX"
  shows "strtoul ds = (digits_value ds, [], False)"
proof -
  obtain c cs where ds: "ds = c # cs" using assms(2) by (cases ds) auto
  have t: "takeWhile is_digit ds = ds" "dropWhile is_digit ds = []"
    using assms(1) by (auto simp: list_all_iff takeWhile_eq_all_conv dropWhile_eq_Nil_conv)
  have h: "dropWhile is_space ds = ds" "hd ds \<noteq> CHR ''-''" "hd ds \<noteq> CHR ''+''"
    using assms(1) digit_no_space [of c] by (simp_all add: ds)
  show ?thesis
    using assms(2,3) by (simp add: strtoul_def Let_def t h)
qed

lemma strtoul_decimal: "n \<le> ULONG_MAX \<Longrightarrow> strtoul (decimal n) = (n, [], False)"
  using strtoul_digits [of "decimal n"] decimal_digits [of n] by simp

lemma first_char_decimal: "48 \<le> first_char (decimal n) \<and> first_char (decimal n) \<le> 57"
  using decimal_digits [of n] by (cases "decimal n") (auto simp: first_char_def is_digit_def)

section \<open>The contract of the word parsers\<close>

text \<open>
  \<open>parse\<close> accepts only values that satisfy \<open>valid\<close>, and reads back the canonical word \<open>name\<close>
  of every valid value.
\<close>

locale value_parser =
  fixes parse :: "string \<Rightarrow> 'a option"
    and valid :: "'a \<Rightarrow> bool"
    and name :: "'a \<Rightarrow> string"
  assumes sound: "parse word = Some x \<Longrightarrow> valid x"
    and complete: "valid x \<Longrightarrow> parse (name x) = Some x"
begin

lemma name_inj: "valid x \<Longrightarrow> valid y \<Longrightarrow> name x = name y \<Longrightarrow> x = y"
  using complete [of x] complete [of y] by (metis option.inject)

lemma accepts_exactly: "(\<exists>word. parse word = Some x) \<longleftrightarrow> valid x"
proof
  assume "\<exists>word. parse word = Some x"
  then obtain word where "parse word = Some x" ..
  then show "valid x" by (rule sound)
next
  assume "valid x"
  then have "parse (name x) = Some x" by (rule complete)
  then show "\<exists>word. parse word = Some x" ..
qed

end

definition direction_name :: "dir_t \<Rightarrow> string" where
  "direction_name d = (if d = DIR_INPUT then ''input'' else ''output'')"

definition level_name :: "level_t \<Rightarrow> string" where
  "level_name l = (if l = LEVEL_LOW then ''low'' else ''high'')"

definition port_name :: "port_t \<Rightarrow> string" where
  "port_name p = [char_of (65 + unat p)]"

definition polarity_name :: "polarity_t \<Rightarrow> string" where
  "polarity_name p = (if p = POL_ACTIVE_HIGH then ''active-high'' else ''active-low'')"

definition edge_name :: "edge_t \<Rightarrow> string" where
  "edge_name e = (if e = EDGE_OFF then ''off'' else if e = EDGE_RISING then ''rising''
     else if e = EDGE_FALLING then ''falling'' else ''both'')"

definition action_name :: "action_t \<Rightarrow> string" where
  "action_name a = (if a = ACTION_LOW then ''low'' else if a = ACTION_HIGH then ''high'' else ''toggle'')"

lemma word_le_2: "(d :: u32) \<le> 2 \<longleftrightarrow> d = 0 \<or> d = 1 \<or> d = 2"
  by (auto simp: word_le_nat_alt word_unat_eq_iff)

lemma word_le_3: "(d :: u32) \<le> 3 \<longleftrightarrow> d = 0 \<or> d = 1 \<or> d = 2 \<or> d = 3"
  by (auto simp: word_le_nat_alt word_unat_eq_iff)

interpretation direction: value_parser parse_direction "\<lambda>d. d \<le> 1" direction_name
  by unfold_locales (auto simp: parse_direction_def direction_name_def word_le_1 split: if_splits)

interpretation level: value_parser parse_level "\<lambda>l. l \<le> 1" level_name
  by unfold_locales (auto simp: parse_level_def level_name_def word_le_1 split: if_splits)

interpretation polarity: value_parser parse_polarity "\<lambda>p. p \<le> 1" polarity_name
  by unfold_locales (auto simp: parse_polarity_def polarity_name_def word_le_1 split: if_splits)

interpretation edge: value_parser parse_edge "\<lambda>e. e \<le> 3" edge_name
  by unfold_locales (auto simp: parse_edge_def edge_name_def word_le_3 split: if_splits)

interpretation bind_edge: value_parser parse_bind_edge "\<lambda>e. 1 \<le> e \<and> e \<le> 3" edge_name
  by unfold_locales
    (auto simp: parse_bind_edge_def parse_edge_def edge_name_def word_le_3 split: if_splits)

interpretation action: value_parser parse_action "\<lambda>a. a \<le> 2" action_name
  by unfold_locales (auto simp: parse_action_def action_name_def word_le_2 split: if_splits)

lemma unat_le_numeral: "unat (x :: u32) \<le> 6 \<longleftrightarrow> x \<le> 6" "unat (y :: u8) \<le> 15 \<longleftrightarrow> y \<le> 15"
  "unat (y :: u8) \<le> 2 \<longleftrightarrow> y \<le> 2" "unat (x :: u32) \<le> 1000000 \<longleftrightarrow> x \<le> 1000000" "unat (z :: u16) \<le> 1000 \<longleftrightarrow> z \<le> 1000"
  "1 \<le> unat x \<longleftrightarrow> 1 \<le> x"
  by (simp_all add: word_le_nat_alt)

interpretation port: value_parser parse_port "\<lambda>p. p \<le> 6" port_name
proof
  fix word x
  assume "parse_port word = Some x"
  then have x: "x = word_of_nat (first_char word - 65)" "first_char word - 65 \<le> 6"
    by (auto simp: parse_port_def split: if_splits)
  then show "x \<le> (6 :: u32)" by (simp add: word_le_nat_alt unat_of_nat)
next
  fix x :: u32
  assume "x \<le> 6"
  then have "unat x \<le> 6" by (simp add: word_le_nat_alt)
  then show "parse_port (port_name x) = Some x"
    by (simp add: parse_port_def port_name_def first_char_def)
qed

lemma strtoul_unat: "unat x \<le> 1000000 \<Longrightarrow> strtoul (decimal (unat x)) = (unat x, [], False)"
  by (rule strtoul_decimal) (simp add: ULONG_MAX_def)

interpretation pin: value_parser parse_pin "\<lambda>n. n \<le> 15" "\<lambda>n. decimal (unat n)"
proof
  fix word x
  assume "parse_pin word = Some x"
  then obtain v where "x = word_of_nat v" "v \<le> 15" by (auto simp: parse_pin_def split: if_splits prod.splits)
  then show "x \<le> (15 :: u8)" by (simp add: word_le_nat_alt)
next
  fix x :: u8
  assume "x \<le> 15"
  then have "unat x \<le> 15" by (simp add: word_le_nat_alt)
  then show "parse_pin (decimal (unat x)) = Some x"
    using first_char_decimal [of "unat x"] strtoul_unat [of x] by (simp add: parse_pin_def)
qed

interpretation timer: value_parser parse_timer "\<lambda>n. n \<le> 2" "\<lambda>n. decimal (unat n)"
proof
  fix word x
  assume "parse_timer word = Some x"
  then obtain v where "x = word_of_nat v" "v \<le> 2" by (auto simp: parse_timer_def split: if_splits prod.splits)
  then show "x \<le> (2 :: u8)" by (simp add: word_le_nat_alt)
next
  fix x :: u8
  assume "x \<le> 2"
  then have "unat x \<le> 2" by (simp add: word_le_nat_alt)
  then show "parse_timer (decimal (unat x)) = Some x"
    using first_char_decimal [of "unat x"] strtoul_unat [of x] by (simp add: parse_timer_def)
qed

interpretation frequency: value_parser parse_frequency "\<lambda>f. 1 \<le> f \<and> f \<le> 1000000" "\<lambda>f. decimal (unat f)"
proof
  fix word x
  assume "parse_frequency word = Some x"
  then obtain v where "x = word_of_nat v" "1 \<le> v" "v \<le> 1000000"
    by (auto simp: parse_frequency_def split: if_splits prod.splits)
  then show "1 \<le> x \<and> x \<le> (1000000 :: u32)" by (simp add: word_le_nat_alt unat_of_nat)
next
  fix x :: u32
  assume "1 \<le> x \<and> x \<le> 1000000"
  then have "1 \<le> unat x" "unat x \<le> 1000000" by (simp_all add: word_le_nat_alt)
  then show "parse_frequency (decimal (unat x)) = Some x"
    using strtoul_unat [of x] by (simp add: parse_frequency_def)
qed

interpretation duty: value_parser parse_duty "\<lambda>d. d \<le> 1000 \<and> unat d mod 10 = 0" "\<lambda>d. decimal (unat d div 10)"
proof
  fix word x
  assume "parse_duty word = Some x"
  then obtain v where "x = word_of_nat (v * 10)" "v \<le> 100" "v * 10 \<le> 1000"
    by (auto simp: parse_duty_def split: if_splits prod.splits)
  moreover have "unat (word_of_nat n :: u16) = n" if "n \<le> 1000" for n
    using that by (simp add: unat_of_nat)
  ultimately have "unat x = v * 10" "v \<le> 100" by metis+
  then show "x \<le> (1000 :: u16) \<and> unat x mod 10 = 0" by (simp add: word_le_nat_alt)
next
  fix x :: u16
  assume "x \<le> 1000 \<and> unat x mod 10 = 0"
  then have x: "unat x \<le> 1000" "unat x div 10 * 10 = unat x" by (auto simp: word_le_nat_alt)
  then have "strtoul (decimal (unat x div 10)) = (unat x div 10, [], False)"
    by (intro strtoul_decimal) (simp add: ULONG_MAX_def)
  moreover have "(word_of_nat (unat x div 10 * 10) :: u16) = x" by (simp only: x) simp
  ultimately show "parse_duty (decimal (unat x div 10)) = Some x"
    using x first_char_decimal [of "unat x div 10"] by (simp add: parse_duty_def)
qed

section \<open>The loop over the words\<close>

fun parse_all :: "word_kind list \<Rightarrow> string list \<Rightarrow> mcuco_args \<Rightarrow> int \<times> mcuco_args" where
  "parse_all (k # ks) (w # ws) args =
     (case parse_value k w args of (r, args) \<Rightarrow> if r \<noteq> 0 then (- 1, args) else parse_all ks ws args)"
| "parse_all _ _ args = (0, args)"

lemma parse_words_all:
  assumes "n \<le> length ks" "length words = 2 + n" "i \<le> n"
  shows "parse_words ks n words i args = Some (parse_all (drop i (take n ks)) (drop (2 + i) words) args)"
  using assms(3)
proof (induction "n - i" arbitrary: i args)
  case 0
  then show ?case by (subst parse_words.simps) simp
next
  case (Suc d)
  then have i: "i < n" by simp
  have k: "drop i (take n ks) = ks ! i # drop (Suc i) (take n ks)"
    using assms(1) i by (simp add: Cons_nth_drop_Suc [symmetric])
  have w: "drop (2 + i) words = words ! (2 + i) # drop (2 + Suc i) words"
    using assms(2) i by (simp add: Cons_nth_drop_Suc [symmetric])
  have p: "peek ks i = Some (ks ! i)" "peek words (2 + i) = Some (words ! (2 + i))"
    using assms i by (simp_all add: peek_def)
  obtain r a where v: "parse_value (ks ! i) (words ! (2 + i)) args = (r, a)" by fastforce
  have "parse_words ks n words i args = (if r \<noteq> 0 then Some (- 1, a) else parse_words ks n words (Suc i) a)"
    using i p v by (subst parse_words.simps) simp
  then show ?case
    unfolding k w using v Suc i by simp
qed

section \<open>What the rows mean\<close>

text \<open>The command a row asks for, by its two words.\<close>

definition row_command :: "string \<Rightarrow> string \<Rightarrow> mcuco_args \<Rightarrow> command" where
  "row_command s v a =
     (if s = ''mcu'' then (if v = ''probe'' then Probe else Reset)
      else if s = ''gpio'' then
        (if v = ''cfg'' then Gpio_Cfg (arg_direction a) (arg_port a) (arg_pin a)
         else if v = ''set'' then Gpio_Set (arg_level a) (arg_port a) (arg_pin a)
         else if v = ''get'' then Gpio_Get (arg_port a) (arg_pin a)
         else Gpio_Toggle (arg_port a) (arg_pin a))
      else if s = ''timer'' then
        (if v = ''cfg'' then Pwm_Group_Cfg (arg_frequency_hz a) (arg_timer a)
         else if v = ''get'' then Pwm_Group_Get (arg_timer a)
         else Pwm_Group_Release (arg_timer a))
      else if s = ''pwm'' then
        (if v = ''cfg'' then Pwm_Channel_Cfg (arg_polarity a) (arg_port a) (arg_pin a)
         else if v = ''set'' then Pwm_Channel_Set (arg_duty_tenths a) (arg_port a) (arg_pin a)
         else if v = ''get'' then Pwm_Channel_Get (arg_port a) (arg_pin a)
         else Pwm_Channel_Release (arg_port a) (arg_pin a))
      else
        (if v = ''cfg'' then Gpio_Irq_Cfg (arg_edge a) (arg_port a) (arg_pin a)
         else if v = ''bind'' then Gpio_Irq_Bind (arg_edge a) (arg_port a) (arg_pin a)
           (arg_action a) (arg_out_port a) (arg_out_pin a)
         else Gpio_Irq_Unbind (arg_port a) (arg_pin a)))"

definition denotes :: "'k command_row \<Rightarrow> mcuco_args \<Rightarrow> command" where
  "denotes row a = row_command (row_subsystem row) (row_verb row) a"

lemma store_value_0 [simp]:
  "(store_value r upd args = (0, b)) \<longleftrightarrow> (\<exists>x. r = Some x \<and> b = upd x args)"
  by (auto simp: store_value_def split: option.splits)

lemma commands_cases:
  assumes "row \<in> set commands"
  obtains "row = commands ! 0" | "row = commands ! 1" | "row = commands ! 2" | "row = commands ! 3"
    | "row = commands ! 4" | "row = commands ! 5" | "row = commands ! 6" | "row = commands ! 7"
    | "row = commands ! 8" | "row = commands ! 9" | "row = commands ! 10" | "row = commands ! 11"
    | "row = commands ! 12" | "row = commands ! 13" | "row = commands ! 14" | "row = commands ! 15"
  using assms by (auto simp: commands_def)

lemma rows_fit: "row \<in> set commands \<Longrightarrow> row_value_count row \<le> length (row_values row) \<and> length (row_values row) = 6"
  by (auto simp: commands_def table_row_def MAX_VALUE_WORDS_def)

lemma rows_distinct: "distinct (map (\<lambda>row. (row_subsystem row, row_verb row)) commands)"
  by (simp add: commands_def table_row_def)

text \<open>Values that pass a row's parsers make its command valid.\<close>

lemmas parsers_sound =
  direction.sound level.sound polarity.sound edge.sound bind_edge.sound action.sound port.sound pin.sound
  timer.sound frequency.sound duty.sound

lemma parse_all_0 [simp]:
  "parse_all (k # ks) (w # ws) a = (0, b) \<longleftrightarrow> (\<exists>c. parse_value k w a = (0, c) \<and> parse_all ks ws c = (0, b))"
  by (auto split: prod.splits if_splits)

declare parse_all.simps(1) [simp del]

lemma rows_valid:
  assumes "row \<in> set commands" "parse_all (take (row_value_count row) (row_values row)) ws a = (0, b)"
    and "length ws = row_value_count row"
  shows "valid_command (denotes row b)"
  using assms(1)
proof (cases rule: commands_cases)
qed (use assms(2,3) in \<open>auto simp: commands_def table_row_def denotes_def row_command_def length_Suc_conv
      numeral_eq_Suc valid_pin_def dest!: parsers_sound\<close>)

lemma bind_printed:
  assumes "\<And>s cell w'. r = Some (s, cell, w') \<Longrightarrow> cell \<noteq> None"
  shows "(r \<bind> (\<lambda>(s, cell, w). cell \<bind> (\<lambda>x. if s = MCUCO_STATUS_OK then Some (s, f x, w) else Some (s, [], w))))
      \<bind> (\<lambda>(s, out, w). Some (s, w)) = r \<bind> (\<lambda>(s, _, w). Some (s, w))"
proof (cases r)
  case (Some t)
  obtain s cell w' where t: "t = (s, cell, w')" by (cases t)
  with assms Some obtain x where "cell = Some x" by blast
  with Some t show ?thesis by simp
qed simp

lemma rows_run:
  assumes "row \<in> set commands" "posix os"
  shows "row_run row os (Some m) a w \<bind> (\<lambda>(s, out, w). Some (s, w)) = api_run os m (denotes row a) w"
proof -
  note stays = gpio_get_call.cell_stays [OF assms(2), of m "(p, n)" 0 for p n, unfolded prod.case]
    gpio_toggle_call.cell_stays [OF assms(2), of m "(p, n)" 0 for p n, unfolded prod.case]
    pwm_group_get_call.cell_stays [OF assms(2), of m _ 0]
    pwm_channel_get_call.cell_stays [OF assms(2), of m "(p, n)" 0 for p n, unfolded prod.case]
  have q: "run_gpio_get os (Some m) a w \<bind> (\<lambda>(s, out, w). Some (s, w)) = api_run os m (Gpio_Get (arg_port a) (arg_pin a)) w"
    "run_gpio_toggle os (Some m) a w \<bind> (\<lambda>(s, out, w). Some (s, w)) = api_run os m (Gpio_Toggle (arg_port a) (arg_pin a)) w"
    "run_timer_get os (Some m) a w \<bind> (\<lambda>(s, out, w). Some (s, w)) = api_run os m (Pwm_Group_Get (arg_timer a)) w"
    "run_pwm_get os (Some m) a w \<bind> (\<lambda>(s, out, w). Some (s, w)) = api_run os m (Pwm_Channel_Get (arg_port a) (arg_pin a)) w"
    unfolding run_gpio_get_def run_gpio_toggle_def run_timer_get_def run_pwm_get_def api_run.simps LEVEL_LOW_def
    by (rule bind_printed, erule stays)+
  have r: "r \<bind> (\<lambda>y. (case y of (s, w) \<Rightarrow> Some (s, [] :: string, w)) \<bind> (\<lambda>(s, out, w). Some (s, w))) = r"
    for r :: "(mcu_status \<times> 'a world) option" by (cases r) auto
  show ?thesis
    using assms(1)
  proof (cases rule: commands_cases)
  qed (simp_all add: commands_def table_row_def denotes_def row_command_def q r
      run_probe_def run_reset_def run_gpio_cfg_def run_gpio_set_def run_timer_cfg_def run_timer_release_def
      run_pwm_cfg_def run_pwm_set_def run_pwm_release_def run_irq_cfg_def run_irq_bind_def run_irq_unbind_def
      del: api_run.simps(5,6,11,15))
qed

section \<open>What the run functions print\<close>

text \<open>The line a query prints for the data of its answer.\<close>

fun rendered :: "command \<Rightarrow> u8 list \<Rightarrow> string" where
  "rendered (Gpio_Get _ _) d = (if hd d \<noteq> 0 then ''high'' else ''low'') @ newline"
| "rendered (Gpio_Toggle _ _) d = (if hd d \<noteq> 0 then ''high'' else ''low'') @ newline"
| "rendered (Pwm_Group_Get _) d = decimal (unat (le_u32 d)) @ newline"
| "rendered (Pwm_Channel_Get _ _) d =
     decimal (unat (le_u16 d) div 10) @ ''.'' @ decimal (unat (le_u16 d) mod 10) @ newline"
| "rendered _ _ = []"

definition prints :: "command \<Rightarrow> 'k world \<Rightarrow> mcu_status \<Rightarrow> string \<Rightarrow> 'k world \<Rightarrow> bool" where
  "prints c w s out w' \<longleftrightarrow>
     (if s = MCUCO_STATUS_OK
      then \<exists>b d. scan_response (rx w) = Some (Some (b, d), rx w') \<and> reply_status b d = MCUCO_STATUS_OK \<and> out = rendered c d
      else out = [])"

lemma silent_prints:
  assumes "posix os" "valid_command c" "api_run os m c w = Some (s, w')" "\<And>d. rendered c d = []"
  shows "prints c w s [] w'"
  using answered_ok every.contract [OF assms(1,2,3)] assms(4) unfolding prints_def by fastforce

context query_call
begin

lemma printed:
  assumes os: "posix os" and valid: "valid_command (mk a)"
    and run: "call os (Some m) a (Some v) w \<bind> (\<lambda>(s, cell, w). cell \<bind> (\<lambda>x.
      if s = MCUCO_STATUS_OK then Some (s, f x, w) else Some (s, [], w))) = Some (s, out, w')"
    and f: "\<And>d x. dec d = Some x \<Longrightarrow> rendered (mk a) d = f x"
  shows "prints (mk a) w s out w'"
proof -
  from run obtain s1 cell w1 x where c: "call os (Some m) a (Some v) w = Some (s1, cell, w1)" "cell = Some x"
    and k: "(if s1 = MCUCO_STATUS_OK then Some (s1, f x, w1) else Some (s1, [], w1)) = Some (s, out, w')"
    by (auto simp: bind_eq_Some_conv)
  from cell_written [OF os valid c(1)] c(2) k f show ?thesis
    unfolding prints_def by (auto split: if_splits)
qed

end

lemma rows_print:
  assumes os: "posix os" and row: "row \<in> set commands" and valid: "valid_command (denotes row a)"
    and run: "row_run row os (Some m) a w = Some (s, out, w')"
  shows "prints (denotes row a) w s out w'"
proof -
  have api: "api_run os m (denotes row a) w = Some (s, w')"
    using rows_run [OF row os, of m a w] run by simp
  have quiet: "prints (denotes row a) w s out w'" if "out = []" "\<And>d. rendered (denotes row a) d = []"
    using silent_prints [OF os valid api] that by simp
  have l: "rendered (Gpio_Get q n) d = print_level x" "rendered (Gpio_Toggle q n) d = print_level x"
    if "level_of d = Some x" for q n d x
    using that by (auto simp: level_of_def print_level_def split: if_splits)
  have f: "rendered (Pwm_Group_Get g) d = decimal (unat x) @ newline" if "frequency_of d = Some x" for g d x
    using that by (auto simp: frequency_of_def split: if_splits)
  have u: "rendered (Pwm_Channel_Get q n) d = decimal (unat (x div 10)) @ ''.'' @ decimal (unat (x mod 10)) @ newline"
    if "duty_of d = Some x" for q n d x
    using that by (auto simp: duty_of_def unat_div unat_mod split: if_splits)
  show ?thesis
    using row
  proof (cases rule: commands_cases)
    case 5
    then have c: "denotes row a = Gpio_Get (arg_port a) (arg_pin a)" "row_run row = run_gpio_get"
      by (simp_all add: commands_def table_row_def denotes_def row_command_def)
    with gpio_get_call.printed [OF os, of "(arg_port a, arg_pin a)", unfolded prod.case, OF _ run [unfolded c(2) run_gpio_get_def] l(1)] valid
    show ?thesis by simp
  next
    case 6
    then have c: "denotes row a = Gpio_Toggle (arg_port a) (arg_pin a)" "row_run row = run_gpio_toggle"
      by (simp_all add: commands_def table_row_def denotes_def row_command_def)
    with gpio_toggle_call.printed [OF os, of "(arg_port a, arg_pin a)", unfolded prod.case, OF _ run [unfolded c(2) run_gpio_toggle_def] l(2)] valid
    show ?thesis by simp
  next
    case 8
    then have c: "denotes row a = Pwm_Group_Get (arg_timer a)" "row_run row = run_timer_get"
      by (simp_all add: commands_def table_row_def denotes_def row_command_def)
    with pwm_group_get_call.printed [OF os, of "arg_timer a", OF _ run [unfolded c(2) run_timer_get_def] f] valid
    show ?thesis by simp
  next
    case 12
    then have c: "denotes row a = Pwm_Channel_Get (arg_port a) (arg_pin a)" "row_run row = run_pwm_get"
      by (simp_all add: commands_def table_row_def denotes_def row_command_def)
    with pwm_channel_get_call.printed [OF os, of "(arg_port a, arg_pin a)", unfolded prod.case, OF _ run [unfolded c(2) run_pwm_get_def] u] valid
    show ?thesis by simp
  qed (rule quiet; use run in \<open>auto simp: commands_def table_row_def denotes_def row_command_def bind_eq_Some_conv
      run_probe_def run_reset_def run_gpio_cfg_def run_gpio_set_def run_timer_cfg_def run_timer_release_def
      run_pwm_cfg_def run_pwm_set_def run_pwm_release_def run_irq_cfg_def run_irq_bind_def run_irq_unbind_def\<close>)+
qed

section \<open>Command lines\<close>

text \<open>The words a user types for a command, and the commands a command line can express.\<close>

fun words_of :: "command \<Rightarrow> string list" where
  "words_of Probe = [''mcu'', ''probe'']"
| "words_of Reset = [''mcu'', ''reset'']"
| "words_of (Gpio_Cfg d p n) = [''gpio'', ''cfg'', direction_name d, port_name p, decimal (unat n)]"
| "words_of (Gpio_Set l p n) = [''gpio'', ''set'', level_name l, port_name p, decimal (unat n)]"
| "words_of (Gpio_Get p n) = [''gpio'', ''get'', port_name p, decimal (unat n)]"
| "words_of (Gpio_Toggle p n) = [''gpio'', ''toggle'', port_name p, decimal (unat n)]"
| "words_of (Gpio_Irq_Cfg e p n) = [''irq'', ''cfg'', edge_name e, port_name p, decimal (unat n)]"
| "words_of (Gpio_Irq_Bind e p n a q k) =
     [''irq'', ''bind'', edge_name e, port_name p, decimal (unat n), action_name a, port_name q, decimal (unat k)]"
| "words_of (Gpio_Irq_Unbind p n) = [''irq'', ''unbind'', port_name p, decimal (unat n)]"
| "words_of (Pwm_Group_Cfg f g) = [''timer'', ''cfg'', decimal (unat f), decimal (unat g)]"
| "words_of (Pwm_Group_Get g) = [''timer'', ''get'', decimal (unat g)]"
| "words_of (Pwm_Group_Release g) = [''timer'', ''release'', decimal (unat g)]"
| "words_of (Pwm_Channel_Cfg l p n) = [''pwm'', ''cfg'', polarity_name l, port_name p, decimal (unat n)]"
| "words_of (Pwm_Channel_Set d p n) = [''pwm'', ''set'', decimal (unat d div 10), port_name p, decimal (unat n)]"
| "words_of (Pwm_Channel_Get p n) = [''pwm'', ''get'', port_name p, decimal (unat n)]"
| "words_of (Pwm_Channel_Release p n) = [''pwm'', ''release'', port_name p, decimal (unat n)]"

definition typable :: "command \<Rightarrow> bool" where
  "typable c \<longleftrightarrow> valid_command c \<and> (case c of Pwm_Channel_Set d _ _ \<Rightarrow> unat d mod 10 = 0 | _ \<Rightarrow> True)"

lemma find_command_cases:
  "mcuco_find_command s v = Some row \<Longrightarrow> row \<in> set commands \<and> row_subsystem row = s \<and> row_verb row = v"
  by (auto simp: mcuco_find_command_def find_Some_iff)

lemma args_parse_eq:
  assumes "length words = 2 + n" "mcuco_find_command (words ! 0) (words ! 1) = Some row" "row_value_count row = n"
  shows "args_parse_mcuco (int (length words)) words command a =
    (case parse_all (take n (row_values row)) (drop 2 words) a of
       (r, b) \<Rightarrow> Some (if r \<noteq> 0 then (- 1, command, b) else (0, Some row, b)))"
proof -
  have "n \<le> length (row_values row)"
    using find_command_cases [OF assms(2)] rows_fit assms(3) by blast
  from parse_words_all [OF this assms(1), of 0 a] assms show ?thesis
    by (auto simp: args_parse_mcuco_def peek_def split: prod.splits)
qed

lemma args_parse_accepts:
  assumes "args_parse_mcuco n words command a = Some (0, c, b)" "n = int (length words)"
  shows "\<exists>row. c = Some row \<and> row \<in> set commands \<and> length words = 2 + row_value_count row
    \<and> parse_all (take (row_value_count row) (row_values row)) (drop 2 words) a = (0, b)"
proof -
  from assms have two: "2 \<le> length words" by (auto simp: args_parse_mcuco_def split: if_splits)
  then obtain s v vs where words: "words = s # v # vs" by (auto simp: numeral_eq_Suc Suc_le_length_iff)
  show ?thesis
  proof (cases "mcuco_find_command s v :: 'a command_row ptr")
    case None
    with assms words show ?thesis by (simp add: args_parse_mcuco_def peek_def)
  next
    case (Some row)
    with assms words have "int (length vs) = int (row_value_count row)"
      by (auto simp: args_parse_mcuco_def peek_def split: if_splits)
    then have n: "length words = 2 + row_value_count row" by (simp add: words)
    from Some have f: "mcuco_find_command (words ! 0) (words ! 1) = Some row" by (simp add: words)
    from assms args_parse_eq [OF n f refl, of command a] find_command_cases [OF f] n show ?thesis
      by (auto split: prod.splits if_splits)
  qed
qed

lemmas row_defs = commands_def table_row_def mcuco_find_command_def MAX_VALUE_WORDS_def

lemmas parsers_complete =
  direction.complete level.complete polarity.complete edge.complete bind_edge.complete action.complete
  port.complete pin.complete timer.complete frequency.complete duty.complete

lemma typable_words:
  assumes "typable c"
  shows "\<exists>row b. mcuco_find_command (words_of c ! 0) (words_of c ! 1) = Some row
     \<and> length (words_of c) = 2 + row_value_count row
     \<and> parse_all (take (row_value_count row) (row_values row)) (drop 2 (words_of c)) args_zero = (0, b)
     \<and> denotes row b = c"
  using assms
  by (cases c) (simp_all add: row_defs typable_def parsers_complete valid_pin_def denotes_def row_command_def store_value_def)

section \<open>Numbers on the command line\<close>

lemma strtoul_first_digit:
  assumes "48 \<le> first_char word" "first_char word \<le> 57"
  shows "strtoul word = (if ULONG_MAX < digits_value (takeWhile is_digit word)
     then (ULONG_MAX, dropWhile is_digit word, True)
     else (digits_value (takeWhile is_digit word), dropWhile is_digit word, False))"
proof -
  obtain c cs where w: "word = c # cs" using assms by (cases word) (simp_all add: first_char_def)
  with assms have c: "is_digit c" by (simp add: first_char_def is_digit_def)
  then have "dropWhile is_space word = word" "hd word \<noteq> CHR ''-''" "hd word \<noteq> CHR ''+''" "takeWhile is_digit word \<noteq> []"
    using digit_no_space [of c] by (simp_all add: w)
  then show ?thesis by (simp add: strtoul_def Let_def)
qed

lemma number_word:
  assumes "k \<le> ULONG_MAX - 1"
  shows "(if first_char word < 48 \<or> first_char word > 57 then None
     else (case strtoul word of (v, rest, _) \<Rightarrow> if rest \<noteq> [] \<or> v > k then None else Some (f v)))
   = (if word \<noteq> [] \<and> list_all is_digit word \<and> digits_value word \<le> k then Some (f (digits_value word)) else None)"
proof (cases "48 \<le> first_char word \<and> first_char word \<le> 57")
  case True
  have ne: "word \<noteq> []" using True by (auto simp: first_char_def)
  have k: "\<not> ULONG_MAX \<le> k" using assms by (simp add: ULONG_MAX_def)
  have digit: "(first_char word < 48 \<or> first_char word > 57) = False" using True by simp
  note read = strtoul_first_digit [OF conjunct1 [OF True] conjunct2 [OF True]]
  show ?thesis
  proof (cases "list_all is_digit word")
    case all: True
    then have t: "takeWhile is_digit word = word" "dropWhile is_digit word = []"
      by (simp_all add: takeWhile_eq_all_conv dropWhile_eq_Nil_conv list_all_iff)
    show ?thesis unfolding digit read t using ne all k by simp
  next
    case False
    then have "dropWhile is_digit word \<noteq> []" by (simp add: dropWhile_eq_Nil_conv list_all_iff)
    then show ?thesis
      unfolding digit read using False by (simp split: if_splits del: dropWhile_eq_Nil_conv)
  qed
next
  case False
  then have "\<not> (word \<noteq> [] \<and> list_all is_digit word)"
    by (cases word) (auto simp: first_char_def is_digit_def)
  then show ?thesis using False by auto
qed

text \<open>C22. The numeric word parsers accept exactly the words that are non-empty, all digits and in
  range (pins 0 to 15, timers 0 to 2, duties 0 to 100 percent, stored in tenths), and store that
  number: no sign, no white space, no trailing text, and no number that overflows
  \<open>unsigned long\<close> gets through.\<close>

theorem number_words_exact:
  "parse_pin word =
     (if word \<noteq> [] \<and> list_all is_digit word \<and> digits_value word \<le> 15
      then Some (word_of_nat (digits_value word)) else None)
   \<and> parse_timer word =
     (if word \<noteq> [] \<and> list_all is_digit word \<and> digits_value word \<le> 2
      then Some (word_of_nat (digits_value word)) else None)
   \<and> parse_duty word =
     (if word \<noteq> [] \<and> list_all is_digit word \<and> digits_value word \<le> 100
      then Some (word_of_nat (10 * digits_value word)) else None)"
proof (intro conjI)
  have big: "15 \<le> ULONG_MAX - 1" "2 \<le> ULONG_MAX - 1" "1000 div 10 \<le> ULONG_MAX - 1"
    by (simp_all add: ULONG_MAX_def)
  note pin = number_word [OF big(1), of word word_of_nat] and timer = number_word [OF big(2), of word word_of_nat]
    and duty = number_word [OF big(3), of word "\<lambda>v. word_of_nat (v * 10)"]
  show "parse_pin word = (if word \<noteq> [] \<and> list_all is_digit word \<and> digits_value word \<le> 15
      then Some (word_of_nat (digits_value word)) else None)"
    unfolding parse_pin_def PIN_MAX_def by (rule pin)
  show "parse_timer word = (if word \<noteq> [] \<and> list_all is_digit word \<and> digits_value word \<le> 2
      then Some (word_of_nat (digits_value word)) else None)"
    unfolding parse_timer_def GROUP_MAX_def by (rule timer)
  show "parse_duty word = (if word \<noteq> [] \<and> list_all is_digit word \<and> digits_value word \<le> 100
      then Some (word_of_nat (10 * digits_value word)) else None)"
    unfolding parse_duty_def DUTY_MAX_def by (rule trans [OF duty]) (simp add: mult.commute)
qed

text \<open>
  The words \<open>strtoul\<close> reads completely, and the value it has for them: white space, an optional
  sign, digits. A minus sign negates in \<open>unsigned long\<close>, so the value wraps around.
\<close>

definition unsigned_word :: "string \<Rightarrow> nat \<Rightarrow> bool" where
  "unsigned_word word v \<longleftrightarrow>
     (\<exists>spaces sign ds. word = spaces @ sign @ ds \<and> list_all is_space spaces \<and> sign \<in> {[], ''+'', ''-''}
        \<and> list_all is_digit ds \<and> ds \<noteq> [] \<and> digits_value ds < 2 ^ 64
        \<and> v = (if sign = ''-'' then nat ((- int (digits_value ds)) mod 2 ^ 64) else digits_value ds))"

lemma wraps_eq:
  assumes "n < 2 ^ 64"
  shows "nat ((- int n) mod 2 ^ 64) = (if n = 0 then 0 else 2 ^ 64 - n)"
proof (cases "n = 0")
  case False
  have "(- int n) mod 2 ^ 64 = (2 ^ 64 - int n) mod 2 ^ 64" by (metis add_uminus_conv_diff minus_mod_self2 mod_add_self1)
  also have "\<dots> = 2 ^ 64 - int n" using False assms by (intro mod_pos_pos_trivial) auto
  finally show ?thesis using False by simp
qed simp

lemma strtoul_reads:
  assumes "list_all is_space spaces" "sign \<in> {[], ''+'', ''-''}" "list_all is_digit ds" "ds \<noteq> []"
  shows "strtoul (spaces @ sign @ ds) =
    (if digits_value ds < 2 ^ 64
     then (if sign = ''-'' then nat ((- int (digits_value ds)) mod 2 ^ 64) else digits_value ds, [], False)
     else (ULONG_MAX, [], True))"
proof -
  obtain c cs where ds: "ds = c # cs" using assms(4) by (cases ds) auto
  have t: "takeWhile is_digit ds = ds" "dropWhile is_digit ds = []"
    using assms(3) by (auto simp: list_all_iff takeWhile_eq_all_conv dropWhile_eq_Nil_conv)
  have c: "\<not> is_space c" "c \<noteq> CHR ''-''" "c \<noteq> CHR ''+''"
    using assms(3) digit_no_space [of c] by (simp_all add: ds)
  have "dropWhile is_space (sign @ ds) = sign @ ds"
    using assms(2) c by (auto simp: ds is_space_def)
  then have s: "dropWhile is_space (spaces @ sign @ ds) = sign @ ds"
    using assms(1) by (simp add: dropWhile_append2 list_all_iff)
  have body: "(if sign @ ds \<noteq> [] \<and> (hd (sign @ ds) = CHR ''-'' \<or> hd (sign @ ds) = CHR ''+'') then tl (sign @ ds) else sign @ ds) = ds"
    and neg: "(sign @ ds \<noteq> [] \<and> hd (sign @ ds) = CHR ''-'') = (sign = ''-'')"
    using assms(2) c by (auto simp: ds)
  show ?thesis
    unfolding strtoul_def Let_def s body neg t using assms(4) wraps_eq [of "digits_value ds"]
    by (auto simp: ULONG_MAX_def)
qed

lemma strtoul_whole:
  assumes "strtoul word = (v, [], erange)" "word \<noteq> []"
  obtains spaces sign ds where "word = spaces @ sign @ ds" "list_all is_space spaces" "sign \<in> {[], ''+'', ''-''}"
    "list_all is_digit ds" "ds \<noteq> []"
proof -
  define s where "s = dropWhile is_space word"
  define t where "t = (if s \<noteq> [] \<and> (hd s = CHR ''-'' \<or> hd s = CHR ''+'') then tl s else s)"
  define sign where "sign = (if s \<noteq> [] \<and> (hd s = CHR ''-'' \<or> hd s = CHR ''+'') then [hd s] else [])"
  have "s = sign @ t" by (simp add: sign_def t_def)
  then have "word = takeWhile is_space word @ sign @ t" by (metis s_def takeWhile_dropWhile_id)
  moreover have "sign \<in> {[], ''+'', ''-''}" by (auto simp: sign_def)
  moreover have "takeWhile is_digit t \<noteq> [] \<and> dropWhile is_digit t = []"
    using assms unfolding strtoul_def Let_def s_def [symmetric] t_def [symmetric] by (auto split: if_splits)
  then have "list_all is_digit t \<and> t \<noteq> []" by (auto simp: list_all_iff dropWhile_eq_Nil_conv)
  moreover have "list_all is_space (takeWhile is_space word)" by (auto simp: list_all_iff dest: set_takeWhileD)
  ultimately show thesis using that by blast
qed

text \<open>A parser that takes what \<open>strtoul\<close> reads to the end, between two bounds.\<close>

lemma strtoul_between:
  assumes "lo \<ge> 1" "hi < ULONG_MAX"
  shows "(\<exists>erange. strtoul word = (v, [], erange) \<and> lo \<le> v \<and> v \<le> hi) \<longleftrightarrow> unsigned_word word v \<and> lo \<le> v \<and> v \<le> hi"
proof
  assume "\<exists>erange. strtoul word = (v, [], erange) \<and> lo \<le> v \<and> v \<le> hi"
  then obtain erange where read: "strtoul word = (v, [], erange)" and v: "lo \<le> v" "v \<le> hi" by blast
  have "word \<noteq> []" using read v(1) assms(1) by (auto simp: strtoul_def)
  with read obtain spaces sign ds where word: "word = spaces @ sign @ ds" "list_all is_space spaces"
    "sign \<in> {[], ''+'', ''-''}" "list_all is_digit ds" "ds \<noteq> []" by (rule strtoul_whole)
  with strtoul_reads [OF word(2-5)] read v(2) assms(2) have "digits_value ds < 2 ^ 64"
    "v = (if sign = ''-'' then nat ((- int (digits_value ds)) mod 2 ^ 64) else digits_value ds)"
    by (simp_all split: if_splits)
  with word v show "unsigned_word word v \<and> lo \<le> v \<and> v \<le> hi" unfolding unsigned_word_def by blast
next
  assume "unsigned_word word v \<and> lo \<le> v \<and> v \<le> hi"
  then show "\<exists>erange. strtoul word = (v, [], erange) \<and> lo \<le> v \<and> v \<le> hi"
    unfolding unsigned_word_def by (elim exE conjE, intro exI [of _ False]) (simp add: strtoul_reads del: insert_iff)
qed

text \<open>C36. The frequency parser accepts exactly the words made of white space, an optional sign and
  digits whose value in \<open>unsigned long\<close> is 1 to 1000000, and reads that value. It has no check of
  the first character, so unlike the other number parsers it takes leading white space and a
  sign, and a minus sign wraps: minus 18446744073709550616 is read as 1000 Hz.\<close>

theorem frequency_words_exact:
  "(parse_frequency word = Some f \<longleftrightarrow> unsigned_word word (unat f) \<and> 1 \<le> f \<and> f \<le> 1000000)
   \<and> parse_frequency ''-18446744073709550616'' = Some 1000"
proof
  have "parse_frequency word = Some f \<longleftrightarrow> (\<exists>erange. strtoul word = (unat f, [], erange) \<and> 1 \<le> unat f \<and> unat f \<le> 1000000)"
  proof
    assume "parse_frequency word = Some f"
    then obtain v erange where v: "strtoul word = (v, [], erange)" "1 \<le> v" "v \<le> 1000000" "f = word_of_nat v"
      by (auto simp: parse_frequency_def split: prod.splits if_splits)
    moreover have "unat f = v" using v by (simp add: unat_of_nat)
    ultimately show "\<exists>erange. strtoul word = (unat f, [], erange) \<and> 1 \<le> unat f \<and> unat f \<le> 1000000" by auto
  qed (auto simp: parse_frequency_def)
  also have "\<dots> \<longleftrightarrow> unsigned_word word (unat f) \<and> 1 \<le> unat f \<and> unat f \<le> 1000000"
    by (rule strtoul_between) (simp_all add: ULONG_MAX_def)
  finally show "parse_frequency word = Some f \<longleftrightarrow> unsigned_word word (unat f) \<and> 1 \<le> f \<and> f \<le> 1000000"
    by (simp add: word_le_nat_alt)
  show "parse_frequency ''-18446744073709550616'' = Some 1000"
    by (simp add: parse_frequency_def strtoul_def ULONG_MAX_def is_space_def is_digit_def digits_value_def digit_value_def)
qed

section \<open>Accepted lines\<close>

text \<open>Every field of the arguments within the range of its C type's enumerators or unit.\<close>

definition args_typed :: "mcuco_args \<Rightarrow> bool" where
  "args_typed a \<longleftrightarrow> arg_direction a \<le> 1 \<and> arg_level a \<le> 1 \<and> valid_pin (arg_port a) (arg_pin a)
     \<and> arg_frequency_hz a \<le> 1000000 \<and> arg_timer a \<le> 2 \<and> arg_polarity a \<le> 1 \<and> arg_duty_tenths a \<le> 1000
     \<and> arg_edge a \<le> 3 \<and> arg_action a \<le> 2 \<and> valid_pin (arg_out_port a) (arg_out_pin a)"

lemma parse_value_typed: "args_typed a \<Longrightarrow> args_typed (snd (parse_value k word a))"
  by (cases k)
    (auto simp: store_value_def args_typed_def valid_pin_def split: option.splits dest: parsers_sound)

lemma parse_all_typed: "args_typed a \<Longrightarrow> args_typed (snd (parse_all ks ws a))"
proof (induction ks ws a rule: parse_all.induct)
  case (1 k ks w ws a)
  show ?case
    using parse_value_typed [OF 1(2), of k w] 1(1)
    by (auto simp: parse_all.simps(1) split: prod.splits)
qed auto

lemma args_parse_cases:
  obtains (refused) b where "args_parse_mcuco (int (length words)) words command a = Some (- 1, command, b)"
      "b = a \<or> (\<exists>ks ws. b = snd (parse_all ks ws a))"
    | (accepted) row b where "args_parse_mcuco (int (length words)) words command a = Some (0, Some row, b)"
      "row \<in> set commands" "length words = 2 + row_value_count row"
      "parse_all (take (row_value_count row) (row_values row)) (drop 2 words) a = (0, b)"
proof (cases "length words < 2")
  case True
  then show ?thesis by (intro refused [of a]) (simp_all add: args_parse_mcuco_def)
next
  case False
  then obtain s v vs where words: "words = s # v # vs" by (auto simp: numeral_eq_Suc not_less Suc_le_length_iff)
  show ?thesis
  proof (cases "mcuco_find_command s v :: 'a command_row ptr")
    case None
    then show ?thesis by (intro refused [of a]) (simp_all add: words args_parse_mcuco_def peek_def)
  next
    case (Some row)
    then have f: "mcuco_find_command (words ! 0) (words ! 1) = Some row" by (simp add: words)
    show ?thesis
    proof (cases "length words = 2 + row_value_count row")
      case True
      obtain r b where p: "parse_all (take (row_value_count row) (row_values row)) (drop 2 words) a = (r, b)"
        by fastforce
      show ?thesis
      proof (cases "r = 0")
        case zero: True
        with args_parse_eq [OF True f refl, of command a] p show ?thesis
          by (intro accepted [of row b]) (simp_all add: True find_command_cases [OF f])
      next
        case False
        moreover have "b = snd (parse_all (take (row_value_count row) (row_values row)) (drop 2 words) a)"
          using p by simp
        ultimately show ?thesis using args_parse_eq [OF True f refl, of command a] p
          by (intro refused [of b] disjI2) (simp, blast)
      qed
    next
      case False
      with Some show ?thesis by (intro refused [of a]) (simp_all add: words args_parse_mcuco_def peek_def)
    qed
  qed
qed

text \<open>C21. Whatever the words are, \<open>args_parse_mcuco\<close> returns 0 or -1 without a stray access, leaves
  the arguments well typed (every enumerator, pin, timer and duty in range, so that no later
  conversion truncates), and touches the command pointer only when it accepts, and then with
  a row of the table.\<close>

theorem args_parse_typed:
  assumes "args_typed a"
  shows "\<exists>r c b. args_parse_mcuco (int (length words)) words command a = Some (r, c, b) \<and> args_typed b
     \<and> (r = - 1 \<and> c = command \<or> r = 0 \<and> (\<exists>row \<in> set commands. c = Some row))"
  using parse_all_typed [OF assms] assms
  by (cases rule: args_parse_cases [of words command a]) (auto, metis snd_conv)

theorem args_parse_typed_witness:
  "args_typed args_zero
   \<and> (\<exists>r c b. args_parse_mcuco 3 [''timer'', ''get'', ''3''] (None :: unit command_row ptr) args_zero = Some (r, c, b)
        \<and> args_typed b \<and> (r = - 1 \<and> c = None \<or> r = 0 \<and> (\<exists>row \<in> set commands. c = Some row)))"
proof -
  have "args_typed args_zero" by (simp add: args_typed_def args_zero_def valid_pin_def)
  with args_parse_typed [OF this, of "[''timer'', ''get'', ''3'']" None] show ?thesis by simp
qed

text \<open>C8. An accepted command line is a valid command, and running it is exactly that call of the
  public API: \<open>args_parse_mcuco\<close> returning 0 yields a row of the table whose command, read off
  the parsed values, is one the library will send; \<open>mcuco_run_command\<close> returns the status and
  the world of that call, and prints the value of the answer for a query that succeeded and
  nothing otherwise.\<close>

theorem accepted_line_runs:
  assumes "posix os" "args_parse_mcuco (int (length words)) words command a = Some (0, cmd, b)"
  shows "\<exists>row \<in> set commands. cmd = Some row \<and> valid_command (denotes row b)
     \<and> mcuco_run_command os (Some m) cmd b w \<bind> (\<lambda>(s, out, w). Some (s, w)) = api_run os m (denotes row b) w
     \<and> (case mcuco_run_command os (Some m) cmd b w of None \<Rightarrow> True | Some (s, out, w') \<Rightarrow> prints (denotes row b) w s out w')"
proof -
  obtain row where row: "cmd = Some row" "row \<in> set commands" "length words = 2 + row_value_count row"
    and p: "parse_all (take (row_value_count row) (row_values row)) (drop 2 words) a = (0, b)"
    using args_parse_accepts [OF assms(2) refl] by blast
  have "valid_command (denotes row b)"
    by (rule rows_valid [OF row(2) p]) (simp add: row(3))
  with row rows_run [OF row(2) assms(1), of m b w] rows_print [OF assms(1) row(2), of b m w] show ?thesis
    by (intro bexI [of _ row]) (auto simp: mcuco_run_command_def split: option.split)
qed

theorem accepted_line_runs_witness:
  "\<exists>row \<in> set commands. valid_command (denotes row (args_zero\<lparr>arg_timer := 2\<rparr>))
     \<and> mcuco_run_command demo_os (Some \<lparr>mcu_fd = 3, mcu_timeout_ms = 100\<rparr>) (Some row) (args_zero\<lparr>arg_timer := 2\<rparr>) (demo_world [1] 1)
         \<bind> (\<lambda>(s, out, w). Some (s, w))
       = api_run demo_os \<lparr>mcu_fd = 3, mcu_timeout_ms = 100\<rparr> (denotes row (args_zero\<lparr>arg_timer := 2\<rparr>)) (demo_world [1] 1)"
proof -
  have "parse_timer ''2'' = Some 2"
    using timer.complete [of 2] by (simp add: decimal.simps char_of_def bit_0)
  then have "args_parse_mcuco (int (length [''timer'', ''get'', ''2''])) [''timer'', ''get'', ''2''] None args_zero
      = Some (0, Some (commands ! 7), args_zero\<lparr>arg_timer := 2\<rparr>)"
    by (subst args_parse_eq [of _ 1 "commands ! 7"]) (simp_all add: row_defs store_value_def parse_all.simps)
  from accepted_line_runs [OF posix_demo this] show ?thesis by auto
qed

lemma typable_parsed:
  fixes command :: "'k command_row ptr"
  assumes "typable c"
  shows "\<exists>row b. args_parse_mcuco (int (length (words_of c))) (words_of c) command args_zero = Some (0, Some row, b)
     \<and> row \<in> set commands \<and> denotes row b = c"
proof -
  from typable_words [OF assms] obtain row :: "'k command_row" and b
    where f: "mcuco_find_command (words_of c ! 0) (words_of c ! 1) = Some row"
      and n: "length (words_of c) = 2 + row_value_count row"
      and p: "parse_all (take (row_value_count row) (row_values row)) (drop 2 (words_of c)) args_zero = (0, b)"
      and d: "denotes row b = c" by blast
  from args_parse_eq [OF n f refl, of command args_zero] p d find_command_cases [OF f] show ?thesis by auto
qed

text \<open>C13. Every command has a command line: for each command the library will send (duties in whole
  percent, the unit of the command line), its words are accepted and give back exactly that
  command.\<close>

theorem command_line_roundtrip:
  fixes command :: "'k command_row ptr"
  assumes "typable c"
  shows "\<exists>row b. args_parse_mcuco (int (length (words_of c))) (words_of c) command args_zero = Some (0, Some row, b)
     \<and> denotes row b = c"
  using typable_parsed [OF assms, of command] by blast

theorem command_line_roundtrip_witness:
  "\<exists>row b. args_parse_mcuco 5 [''pwm'', ''set'', ''50'', ''C'', ''13''] (None :: unit command_row ptr) args_zero
       = Some (0, Some row, b) \<and> denotes row b = Pwm_Channel_Set 500 2 13"
proof -
  have t: "typable (Pwm_Channel_Set 500 2 13)" by (simp add: typable_def valid_pin_def)
  have "decimal 50 = ''50''" "decimal 13 = ''13''" by (simp_all add: decimal.simps char_of_def bit_0)
  then have "words_of (Pwm_Channel_Set 500 2 13) = [''pwm'', ''set'', ''50'', ''C'', ''13'']"
    by (simp add: port_name_def char_of_def bit_0)
  with command_line_roundtrip [OF t, of None] show ?thesis by simp
qed

end
