(* ===== verification/Session.thy ===== *)
theory Session
  imports Mcuco
begin

text \<open>
  A client of \<^verbatim>\<open>library/include/mcuco.h\<close>: any sequence of calls on one open handle, in any
  order and with any arguments. \<open>api_step\<close> is one public call, \<open>session\<close> a run of them. The invariant says what every such run leaves on the wire and what it leaves alone.
\<close>

section \<open>Steps\<close>

definition step_contract :: "mcuco \<Rightarrow> 'k world \<Rightarrow> command \<Rightarrow> mcu_status \<Rightarrow> 'k world \<Rightarrow> bool" where
  "step_contract m w c s w' \<longleftrightarrow>
     (if valid_command c then answered m c (answer_ok c) w s w' else s = MCUCO_STATUS_ERR_ARG \<and> w' = w)"

inductive api_step :: "'k os \<Rightarrow> mcuco \<Rightarrow> 'k world \<Rightarrow> command \<Rightarrow> mcu_status \<Rightarrow> 'k world \<Rightarrow> bool"
  for os :: "'k os" and m :: mcuco
where
  call: "api_run os m c w = Some (s, w') \<Longrightarrow> api_step os m w c s w'"

inductive_simps api_step_iff: "api_step os m w c s w'"

lemma api_step_contract:
  "posix os \<Longrightarrow> api_step os m w c s w' \<Longrightarrow> step_contract m w c s w'"
  using every.silent [of os c m w] every.contract [of os c m w s w']
  by (auto simp: api_step_iff step_contract_def)

lemma api_step_terminates:
  "posix os \<Longrightarrow> finite_interrupts os rank \<Longrightarrow> \<exists>s w'. api_step os m w c s w'"
  using every.terminates [of os rank m c w] by (auto simp: api_step_iff)

section \<open>Runs\<close>

inductive session ::
  "'k os \<Rightarrow> mcuco \<Rightarrow> 'k world \<Rightarrow> (command \<times> mcu_status) list \<Rightarrow> 'k world \<Rightarrow> bool"
  for os :: "'k os" and m :: mcuco
where
  session_nil: "session os m w [] w"
| session_call: "api_step os m w c s v \<Longrightarrow> session os m v tr w' \<Longrightarrow> session os m w ((c, s) # tr) w'"

inductive_cases session_nilE: "session os m w [] w'"
inductive_cases session_callE: "session os m w (cs # tr) w'"

lemma session_append:
  "session os m u tr v \<Longrightarrow> session os m v tr' w \<Longrightarrow> session os m u (tr @ tr') w"
  by (induction rule: session.induct) (auto intro: session.intros)

text \<open>
  What one call may put on the wire: nothing for a request that is not valid; otherwise a
  prefix of its frame, and the whole frame unless the call reports an I/O error.
\<close>

definition on_wire :: "command \<times> mcu_status \<Rightarrow> u8 list \<Rightarrow> bool" where
  "on_wire cs f \<longleftrightarrow>
     (case cs of (c, s) \<Rightarrow>
        if valid_command c then prefix f (encode_command c) \<and> (s \<noteq> MCUCO_STATUS_ERR_IO \<longrightarrow> f = encode_command c)
        else f = [])"

definition session_inv ::
  "'k world \<Rightarrow> (command \<times> mcu_status) list \<Rightarrow> 'k world \<Rightarrow> bool" where
  "session_inv w tr w' \<longleftrightarrow>
     fds w' = fds w \<and> heap w' = heap w \<and> port_tty w' = port_tty w \<and> excl w' = excl w \<and> nonblock w' = nonblock w
     \<and> clk w \<le> clk w' \<and> suffix (rx w') (rx w)
     \<and> (\<exists>fs. list_all2 on_wire tr fs \<and> tx w' = tx w @ concat fs)"

lemma step_on_wire:
  assumes "step_contract m w c s w'"
  shows "\<exists>f. on_wire (c, s) f \<and> tx w' = tx w @ f"
proof (cases "valid_command c")
  case True
  with assms obtain k where "k \<le> length (encode_command c)" "tx w' = tx w @ take k (encode_command c)"
    "s \<noteq> 0x81 \<longrightarrow> k = length (encode_command c)"
    by (auto simp: step_contract_def answered_def later_iff)
  with True show ?thesis
    by (intro exI [of _ "take k (encode_command c)"]) (auto simp: on_wire_def take_is_prefix)
qed (use assms in \<open>auto simp: step_contract_def on_wire_def\<close>)

lemma step_inv:
  assumes "step_contract m w c s v"
  shows "fds v = fds w \<and> heap v = heap w \<and> port_tty v = port_tty w \<and> excl v = excl w \<and> nonblock v = nonblock w
     \<and> clk w \<le> clk v \<and> suffix (rx v) (rx w)"
  using assms answered_keeps [of m c "answer_ok c" w s v] by (cases "valid_command c") (auto simp: step_contract_def)

lemma session_inv_step:
  assumes "step_contract m w c s v" "session_inv v tr w'"
  shows "session_inv w ((c, s) # tr) w'"
proof -
  obtain f where f: "on_wire (c, s) f" "tx v = tx w @ f" using step_on_wire [OF assms(1)] by blast
  from assms(2) obtain fs where "list_all2 on_wire tr fs" "tx w' = tx v @ concat fs"
    by (auto simp: session_inv_def)
  with f have "list_all2 on_wire ((c, s) # tr) (f # fs)" "tx w' = tx w @ concat (f # fs)" by simp_all
  then have sent: "\<exists>fs. list_all2 on_wire ((c, s) # tr) fs \<and> tx w' = tx w @ concat fs" by blast
  note step = step_inv [OF assms(1)]
  have "suffix (rx w') (rx w)"
    using step assms(2) unfolding session_inv_def by (blast intro: suffix_order.trans)
  then show ?thesis
    using step assms(2) sent unfolding session_inv_def by simp
qed

lemma session_keeps_inv:
  assumes "posix os" "session os m w tr w'"
  shows "session_inv w tr w'"
  using assms(2)
proof (induction rule: session.induct)
  case (session_nil w)
  show ?case by (auto simp: session_inv_def intro: exI [of _ "[]"])
next
  case (session_call w c s v tr w')
  then show ?case using api_step_contract [OF assms(1)] session_inv_step by blast
qed

section \<open>The stream at the other end\<close>

text \<open>
  The receiver's view of the byte stream: it cuts a frame by its LEN byte, decodes it, and goes
  on behind it; \<^term>\<open>None\<close> if it meets anything that is not a valid command.
\<close>

function decode_stream :: "u8 list \<Rightarrow> command list option" where
  "decode_stream bs =
     (if bs = [] then Some []
      else if length bs < 5 then None
      else do {
        let n = 5 + unat (bs ! 2);
        c \<leftarrow> decode_command (take n bs);
        cs \<leftarrow> decode_stream (drop n bs);
        Some (c # cs)
      })"
  by pat_completeness auto
termination by (relation "measure length") auto

declare decode_stream.simps [simp del]

lemma decode_stream_frame:
  assumes "valid_command c"
  shows "decode_stream (encode_command c @ bs) = map_option ((#) c) (decode_stream bs)"
proof -
  have l: "length (encode_command c) = 5 + length (command_payload c)"
    and len: "encode_command c ! 2 = byte_of (length (command_payload c))"
    by (simp_all add: encode_command_def encode_frame_def seal_def byte_of_def)
  have p: "length (command_payload c) < 256" using length_command_payload [of c] by simp
  then have cut: "5 + unat ((encode_command c @ bs) ! 2) = length (encode_command c)"
    by (simp add: nth_append l len)
  show ?thesis
    by (subst decode_stream.simps)
      (use decode_encode_command [OF assms] l in
        \<open>auto simp: cut Let_def map_option_case split: option.splits\<close>)
qed

lemma decode_stream_frames:
  "(\<And>c. c \<in> set cs \<Longrightarrow> valid_command c) \<Longrightarrow> decode_stream (concat (map encode_command cs)) = Some cs"
proof (induction cs)
  case Nil
  show ?case by (subst decode_stream.simps) simp
qed (simp add: decode_stream_frame)

text \<open>
  If no call of a session reports an I/O error, the receiver decodes from the bytes sent exactly
  the valid requests, in order.
\<close>

lemma session_stream:
  assumes "posix os" "session os m w tr w'" "\<forall>cs \<in> set tr. snd cs \<noteq> MCUCO_STATUS_ERR_IO"
  shows "\<exists>sent. tx w' = tx w @ sent \<and> decode_stream sent = Some (filter valid_command (map fst tr))"
proof -
  from session_keeps_inv [OF assms(1,2)] obtain fs where
    fs: "list_all2 on_wire tr fs" "tx w' = tx w @ concat fs" by (auto simp: session_inv_def)
  have "concat fs = concat (map encode_command (filter valid_command (map fst tr)))"
    using fs(1) assms(3) by (induction rule: list_all2_induct) (auto simp: on_wire_def)
  with fs(2) decode_stream_frames [of "filter valid_command (map fst tr)"] show ?thesis by auto
qed

section \<open>Properties\<close>

text \<open>C2. Every public call on an open handle returns, with any arguments. A request with an argument
  out of range is refused with MCUCO_STATUS_ERR_ARG and the world is exactly as before. A valid
  one sends a prefix of its frame and nothing else; either a transfer failed (ERR_IO), or the
  whole frame went out and the status is ERR_NO_RESPONSE after the full timeout or the verdict
  on the response the line held.\<close>

theorem api_call_correct:
  assumes "posix os" "finite_interrupts os rank"
  shows "\<exists>s w'. api_run os m c w = Some (s, w') \<and>
     (if valid_command c
      then \<exists>k \<le> length (encode_command c).
             later (w\<lparr>tx := tx w @ take k (encode_command c), rx := rx w'\<rparr>) w' \<and> suffix (rx w') (rx w)
             \<and> (s = MCUCO_STATUS_ERR_IO
                \<or> k = length (encode_command c)
                  \<and> (s = MCUCO_STATUS_ERR_NO_RESPONSE
                       \<and> (if mcu_timeout_ms m < 2 ^ 31 then clk w + mcu_timeout_ms m \<le> clk w' else True)
                     \<or> (\<exists>x. scan_response (rx w) = Some (x, rx w') \<and> s = verdict (answer_ok c) x)))
      else s = MCUCO_STATUS_ERR_ARG \<and> w' = w)"
proof -
  from every.terminates [OF assms] obtain s w' where run: "api_run os m c w = Some (s, w')" by fastforce
  then have "step_contract m w c s w'"
    using api_step_contract [OF assms(1)] by (auto simp: api_step_iff)
  with run show ?thesis unfolding step_contract_def answered_def by (auto split: if_splits)
qed

theorem api_call_correct_witness:
  "\<exists>s w'. api_run demo_os \<lparr>mcu_fd = 3, mcu_timeout_ms = 10\<rparr> (Gpio_Get 9 0) (demo_world [] 0) = Some (s, w')
     \<and> s = MCUCO_STATUS_ERR_ARG \<and> w' = demo_world [] 0"
  using api_call_correct [OF posix_demo finite_interrupts_demo, of "\<lparr>mcu_fd = 3, mcu_timeout_ms = 10\<rparr>" "Gpio_Get 9 0" "demo_world [] 0"]
  by (simp add: valid_pin_def del: api_run.simps)

text \<open>C7. A valid call whose answer is delivered in time ends as the answer says: an acknowledgement
  with the data the command expects gives MCUCO_STATUS_OK, and a negative one with a single
  reason byte gives that reason, untranslated.\<close>

theorem api_call_follows_reply:
  assumes "posix os" "finite_interrupts os rank" "delivers_by os D" "accepts_by os D"
    and "clk w < D" "D \<le> clk w + mcu_timeout_ms m" "mcu_timeout_ms m < 2 ^ 31" "valid_command c"
    and "PROTOCOL_SOF \<notin> set junk" "rx w = junk @ encode_response a d @ rest" "length d \<le> 4"
    and "(a \<noteq> 0 \<and> answer_ok c d \<and> s = MCUCO_STATUS_OK) \<or> (\<exists>reason. a = 0 \<and> d = [reason] \<and> reason \<noteq> 0 \<and> s = ucast reason)"
  shows "\<exists>w'. api_run os m c w = Some (s, w') \<and> tx w' = tx w @ encode_command c \<and> rx w' = rest"
proof -
  have scan: "scan_response (rx w) = Some (Some (a, d), rest)"
    using assms(9-11) by (auto simp: scan_response_frame)
  have "(ucast reason :: mcu_status) \<noteq> 0" if "reason \<noteq> 0" for reason :: u8
  proof -
    have "unat reason < 2 ^ 32" using unsigned_less [of reason, where ?'a = nat] by simp
    then show ?thesis using that by (simp add: unsigned_ucast_eq word_unat_eq_iff take_bit_nat_eq_self)
  qed
  with assms(12) have "verdict (answer_ok c) (Some (a, d)) = s"
    by (auto simp: verdict_def reply_status_def)
  with every.answered_by [OF assms(1-8) scan] show ?thesis by auto
qed

theorem api_call_follows_reply_witness:
  "\<exists>w'. api_run demo_os \<lparr>mcu_fd = 3, mcu_timeout_ms = 100\<rparr> (Gpio_Set 1 0 5) (demo_world ([] @ encode_response 0 [6] @ []) 1)
       = Some (6, w') \<and> tx w' = tx (demo_world ([] @ encode_response 0 [6] @ []) 1) @ encode_command (Gpio_Set 1 0 5) \<and> rx w' = []"
  by (rule api_call_follows_reply [OF posix_demo finite_interrupts_demo delivers_by_demo [of 90] accepts_by_demo,
        where junk = "[]" and a = 0 and d = "[6]"])
     (simp_all add: demo_world_def valid_pin_def)

text \<open>C12. Invariant of every session, whatever the sequence of calls, arguments and failures: the
  descriptors, the allocations and the port's settings never change, received bytes are only
  consumed, and the bytes sent are, call by call, a prefix of that call's frame, the whole frame
  unless it reported an I/O error, and nothing for a refused request.\<close>

theorem session_invariant:
  assumes "posix os" "session os m w tr w'"
  shows "fds w' = fds w \<and> heap w' = heap w \<and> port_tty w' = port_tty w \<and> excl w' = excl w
     \<and> clk w \<le> clk w' \<and> suffix (rx w') (rx w)
     \<and> (\<exists>fs. list_all2 on_wire tr fs \<and> tx w' = tx w @ concat fs)"
  using session_keeps_inv [OF assms] by (simp add: session_inv_def)

lemma session_demo:
  "\<exists>w'. session demo_os \<lparr>mcu_fd = 3, mcu_timeout_ms = 100\<rparr> (demo_world (encode_response 1 []) 0)
     [(Gpio_Set 1 9 0, MCUCO_STATUS_ERR_ARG), (Gpio_Set 1 0 5, MCUCO_STATUS_OK)] w'"
proof -
  let ?m = "\<lparr>mcu_fd = 3, mcu_timeout_ms = 100\<rparr>" and ?w = "demo_world (encode_response 1 []) 0"
  have 1: "api_run demo_os ?m (Gpio_Set 1 9 0) ?w = Some (0x80, ?w)"
    by (rule every.silent [OF posix_demo]) (simp add: valid_pin_def)
  have "scan_response (rx ?w) = Some (Some (1, []), [])"
    by (auto simp: scan_response_frame demo_world_def intro: exI [of _ "[]"])
  from every.answered_by [OF posix_demo finite_interrupts_demo delivers_by_demo [of 90] accepts_by_demo,
      of ?w ?m "Gpio_Set 1 0 5", OF _ _ _ _ this]
  obtain w' where 2: "api_run demo_os ?m (Gpio_Set 1 0 5) ?w = Some (0, w')"
    by (auto simp: verdict_def reply_status_def demo_world_def valid_pin_def simp del: api_run.simps)
  from 1 2 show ?thesis by (auto simp del: api_run.simps intro!: session.intros call)
qed

theorem session_invariant_witness:
  "\<exists>w' :: nat world. fds w' = {} \<and> (\<exists>fs. list_all2 on_wire
     [(Gpio_Set 1 9 0, MCUCO_STATUS_ERR_ARG), (Gpio_Set 1 0 5, MCUCO_STATUS_OK)] fs \<and> tx w' = concat fs)"
proof -
  from session_demo obtain w' where s: "session demo_os \<lparr>mcu_fd = 3, mcu_timeout_ms = 100\<rparr> (demo_world (encode_response 1 []) 0)
     [(Gpio_Set 1 9 0, MCUCO_STATUS_ERR_ARG), (Gpio_Set 1 0 5, MCUCO_STATUS_OK)] w'" ..
  have w: "fds (demo_world bs k) = {}" "tx (demo_world bs k) = []" for bs k by (simp_all add: demo_world_def)
  note inv = session_invariant [OF posix_demo s, unfolded w append_Nil]
  from inv have "fds w' = {}" by (elim conjE)
  moreover from inv have "\<exists>fs. list_all2 on_wire
     [(Gpio_Set 1 9 0, MCUCO_STATUS_ERR_ARG), (Gpio_Set 1 0 5, MCUCO_STATUS_OK)] fs \<and> tx w' = concat fs"
    by (elim conjE)
  ultimately show ?thesis by blast
qed

text \<open>C1. End to end: if no call of a session reported an I/O error, then decoding the bytes the
  session sent gives exactly the valid requests of the session with all their arguments, in
  order, and nothing else.\<close>

theorem session_decodes:
  assumes "posix os" "session os m w tr w'" "\<forall>cs \<in> set tr. snd cs \<noteq> MCUCO_STATUS_ERR_IO"
  shows "\<exists>sent. tx w' = tx w @ sent \<and> decode_stream sent = Some (filter valid_command (map fst tr))"
  using session_stream [OF assms] .

theorem session_decodes_witness:
  "\<exists>sent. decode_stream sent = Some [Gpio_Set 1 0 5]"
proof -
  from session_demo obtain w' where s: "session demo_os \<lparr>mcu_fd = 3, mcu_timeout_ms = 100\<rparr> (demo_world (encode_response 1 []) 0)
     [(Gpio_Set 1 9 0, MCUCO_STATUS_ERR_ARG), (Gpio_Set 1 0 5, MCUCO_STATUS_OK)] w'" ..
  from session_decodes [OF posix_demo s] show ?thesis by (auto simp: valid_pin_def)
qed

end
