(* ===== verification/Cli_Main.thy ===== *)
theory Cli_Main
  imports Command_Line Session "HOL-Library.Multiset"
begin

text \<open>
  \<^verbatim>\<open>cli/main.c\<close>. \<open>getopt_long\<close> is not code of the repository: it is a parameter, a record of
  the function that does one call and of the variable \<open>optind\<close>, over a state of its own; what
  the program relies on is the hypothesis \<open>getopt_contract\<close>. The version strings are generated
  by the build and are arguments.
\<close>

section \<open>Options\<close>

record config =
  cfg_device_path :: "string ptr"
  cfg_timeout :: u16
  cfg_help :: bool
  cfg_version :: bool

definition TIMEOUT_MIN_MS :: nat where
  "TIMEOUT_MIN_MS = 20"

definition TIMEOUT_MAX_MS :: nat where
  "TIMEOUT_MAX_MS = 10000"

text \<open>\<open>end == word\<close> when nothing was converted; errno is set when the number is too large.\<close>

definition parse_timeout :: "string \<Rightarrow> u16 option" where
  "parse_timeout word =
     (case strtoul word of
        (v, rest, erange) \<Rightarrow>
          if erange \<or> rest = word \<or> rest \<noteq> [] \<or> v < TIMEOUT_MIN_MS \<or> v > TIMEOUT_MAX_MS then None
          else Some (word_of_nat v))"

text \<open>
  One call of \<open>getopt_long (argc, argv, "d:t:hV", longopts, &opti)\<close>: the option character or a
  negative number at the end, \<open>optarg\<close>, what it printed on stderr, and \<open>argv\<close>, which it may
  permute.
\<close>

record 'g getopt =
  getopt_next :: "string list \<Rightarrow> 'g \<Rightarrow> int \<times> string ptr \<times> string \<times> string list \<times> 'g"
  getopt_optind :: "'g \<Rightarrow> int"

text \<open>
  Documented behaviour: \<open>argv\<close> is only permuted; an option uses up part of it, so there are
  finitely many; \<open>d\<close> and \<open>t\<close>, which take an argument, have one; and at the end \<open>optind\<close> is the
  index of the first operand, behind the program's name.
\<close>

definition getopt_contract :: "'g getopt \<Rightarrow> (string list \<Rightarrow> 'g \<Rightarrow> nat) \<Rightarrow> bool" where
  "getopt_contract go left \<longleftrightarrow>
     (\<forall>argv g c arg msg argv' g'. argv \<noteq> [] \<and> getopt_next go argv g = (c, arg, msg, argv', g') \<longrightarrow>
        mset argv' = mset argv
      \<and> (0 \<le> c \<longrightarrow> left argv' g' < left argv g)
      \<and> (c = 100 \<or> c = 116 \<longrightarrow> arg \<noteq> None)
      \<and> (c < 0 \<longrightarrow> 1 \<le> getopt_optind go g' \<and> getopt_optind go g' \<le> int (length argv)))"

definition usage_line :: string where
  "usage_line = ''usage: mcu-co-cli <subsystem> <verb> <values...> [--options anywhere]'' @ newline"

definition print_help :: string where
  "print_help =
     usage_line @ newline @ mcuco_print_commands @ newline
     @ ''  a pin is two words, port then number: A 5 - ports A-G in capitals, 0-15'' @ newline
     @ ''  edge is off, rising, falling or both - bind takes all but off'' @ newline
     @ ''  action is low, high or toggle'' @ newline
     @ ''  polarity is active-high or active-low'' @ newline
     @ newline
     @ ''pwm pins, by timer (from firmware peripherals/timer.c):'' @ newline
     @ ''  timer 0   TIM2    A5     A1     B10    B11'' @ newline
     @ ''  timer 1   TIM3    C6     C7     C8     C9'' @ newline
     @ ''  timer 2   TIM4    B6     B7     B8     B9'' @ newline
     @ newline
     @ ''  Reference only. The MCU resolves which channel a pin is and refuses a pin'' @ newline
     @ ''  with none; no command takes a timer for a pwm operation.'' @ newline
     @ newline
     @ ''options, valid on every command and in any position:'' @ newline
     @ ''  -d, --device <path>    serial port    [default: /dev/ttyACM0]'' @ newline
     @ ''  -t, --timeout <ms>     deadline       [1000, '' @ decimal TIMEOUT_MIN_MS @ ''-'' @ decimal TIMEOUT_MAX_MS @ '']'' @ newline
     @ ''  -h, --help'' @ newline
     @ ''  -V, --version'' @ newline"

definition bad_timeout :: "string \<Rightarrow> string" where
  "bad_timeout word =
     ''mcu-co-cli: bad timeout '' @ [CHR 0x27] @ word @ [CHR 0x27] @ '' ('' @ decimal TIMEOUT_MIN_MS @ ''-''
     @ decimal TIMEOUT_MAX_MS @ '' ms)'' @ newline"

text \<open>The loop over the options: its result, then \<open>argv\<close>, the state of \<open>getopt\<close>, and \<open>*config\<close>.\<close>

partial_function (option) config_loop ::
  "'g getopt \<Rightarrow> string list \<Rightarrow> 'g \<Rightarrow> config \<Rightarrow> 'k process
   \<Rightarrow> (int \<times> string list \<times> 'g \<times> config \<times> 'k process) option"
where
  "config_loop go argv g config p =
     (case getopt_next go argv g of
        (optc, optarg, msg, argv, g) \<Rightarrow>
          let p = print_err msg p in
          if optc < 0 then Some (getopt_optind go g, argv, g, config, p)
          else if optc = 100 then config_loop go argv g (config\<lparr>cfg_device_path := optarg\<rparr>) p
          else if optc = 116 then do {
            word \<leftarrow> optarg;
            (case parse_timeout word of
               None \<Rightarrow> Some (- 1, argv, g, config, print_err (bad_timeout word) p)
             | Some ms \<Rightarrow> config_loop go argv g (config\<lparr>cfg_timeout := ms\<rparr>) p)
          }
          else if optc = 104 then config_loop go argv g (config\<lparr>cfg_help := True\<rparr>) p
          else if optc = 86 then config_loop go argv g (config\<lparr>cfg_version := True\<rparr>) p
          else Some (- 1, argv, g, config, p))"

definition parse_config ::
  "'g getopt \<Rightarrow> string list \<Rightarrow> 'g \<Rightarrow> 'k process \<Rightarrow> (int \<times> string list \<times> 'g \<times> config \<times> 'k process) option" where
  "parse_config go argv g p =
     config_loop go argv g
       \<lparr>cfg_device_path = Some ''/dev/ttyACM0'', cfg_timeout = 1000, cfg_help = False, cfg_version = False\<rparr> p"

section \<open>The program\<close>

text \<open>
  \<open>&argv[word_index]\<close> has to lie inside the array, which ends with a NULL, or one past it.
\<close>

definition cli_main ::
  "'k os \<Rightarrow> 'g getopt \<Rightarrow> string \<Rightarrow> string \<Rightarrow> string list \<Rightarrow> 'g \<Rightarrow> 'k process \<Rightarrow> (int \<times> 'k process) option" where
  "cli_main os go MCU_CO_CLI_VERSION MCUCO_VERSION argv g p = do {
     (word_index, argv, g, config, p) \<leftarrow> parse_config go argv g p;
     if word_index \<le> 0 then Some (1, print_err usage_line p)
     else if cfg_help config then Some (0, print_out print_help p)
     else if cfg_version config
     then Some (0, print_out (''mcu-co-cli '' @ MCU_CO_CLI_VERSION @ '' (libmcuco '' @ mcuco_version MCUCO_VERSION
                              @ '')'' @ newline) p)
     else if nat word_index > length argv + 1 then None
     else do {
       (r, command, mcuco_args) \<leftarrow>
         args_parse_mcuco (int (length argv) - word_index) (drop (nat word_index) argv) None args_zero;
       if r \<noteq> 0
       then Some (1, print_err (''try '' @ [CHR 0x27] @ ''mcu-co-cli --help'' @ [CHR 0x27] @ newline)
                       (print_err (''mcu-co-cli: bad command'' @ newline) p))
       else do {
         (mcu, p) \<leftarrow> call_in (mcuco_open os (cfg_device_path config) (uint (cfg_timeout config))) p;
         (case mcu of
            None \<Rightarrow> Some (1, print_err (''mcu-co-cli: could not open mcuco device'' @ newline) p)
          | Some m \<Rightarrow> do {
              ((status, out), p) \<leftarrow>
                call_in (\<lambda>w. do { (s, out, w) \<leftarrow> mcuco_run_command os (Some m) command mcuco_args w; Some ((s, out), w) }) p;
              let p = print_err (mcuco_strerror status @ newline) (print_out out p);
                  p = p\<lparr>p_world := mcuco_close os (Some m) (p_world p)\<rparr>
              in Some (if status = MCUCO_STATUS_OK then 0 else 1, p)
            })
       }
     }
   }"

section \<open>Options\<close>

definition config_ok :: "config \<Rightarrow> bool" where
  "config_ok config \<longleftrightarrow> cfg_device_path config \<noteq> None \<and> 20 \<le> cfg_timeout config \<and> cfg_timeout config \<le> 10000"

lemma parse_timeout_bounds: "parse_timeout word = Some t \<Longrightarrow> 20 \<le> t \<and> t \<le> 10000"
  by (auto simp: parse_timeout_def TIMEOUT_MIN_MS_def TIMEOUT_MAX_MS_def word_le_nat_alt unat_of_nat
      split: prod.splits if_splits)

text \<open>C32. \<open>parse_timeout\<close> accepts exactly the words made of white space, an optional sign and digits
  whose value in \<open>unsigned long\<close> is 20 to 10000 milliseconds, and stores that value: nothing is
  cut off by the conversion to 16 bits, and neither an empty word nor a number too large for
  \<open>unsigned long\<close> gets through, but a negative number that wraps into the range does.\<close>

theorem timeout_words_exact:
  "parse_timeout word = Some t \<longleftrightarrow> unsigned_word word (unat t) \<and> 20 \<le> t \<and> t \<le> 10000"
proof -
  have "parse_timeout word = Some t \<longleftrightarrow> (\<exists>erange. strtoul word = (unat t, [], erange) \<and> 20 \<le> unat t \<and> unat t \<le> 10000)"
  proof
    assume "parse_timeout word = Some t"
    then obtain v where v: "strtoul word = (v, [], False)" "20 \<le> v" "v \<le> 10000" "t = word_of_nat v"
      by (auto simp: parse_timeout_def TIMEOUT_MIN_MS_def TIMEOUT_MAX_MS_def split: prod.splits if_splits)
    moreover have "unat t = v" using v by (simp add: unat_of_nat)
    ultimately show "\<exists>erange. strtoul word = (unat t, [], erange) \<and> 20 \<le> unat t \<and> unat t \<le> 10000" by auto
  next
    assume "\<exists>erange. strtoul word = (unat t, [], erange) \<and> 20 \<le> unat t \<and> unat t \<le> 10000"
    then obtain erange where e: "strtoul word = (unat t, [], erange)" "20 \<le> unat t" "unat t \<le> 10000" by blast
    moreover have "\<not> erange \<and> word \<noteq> []"
      using e by (auto simp: strtoul_def Let_def ULONG_MAX_def split: if_splits)
    ultimately show "parse_timeout word = Some t"
      by (auto simp: parse_timeout_def TIMEOUT_MIN_MS_def TIMEOUT_MAX_MS_def)
  qed
  also have "\<dots> \<longleftrightarrow> unsigned_word word (unat t) \<and> 20 \<le> unat t \<and> unat t \<le> 10000"
    by (rule strtoul_between) (simp_all add: ULONG_MAX_def)
  finally show ?thesis by (simp add: word_le_nat_alt)
qed

lemma print_err_err [simp]: "print_err t (print_err s p) = print_err (s @ t) p"
  by (simp add: print_err_def)

text \<open>What the loop can return: -1, or the index of the first operand with a usable configuration.\<close>

definition options_read ::
  "string list \<Rightarrow> 'k process \<Rightarrow> int \<times> string list \<times> 'g \<times> config \<times> 'k process \<Rightarrow> bool" where
  "options_read argv p r \<longleftrightarrow>
     (case r of (i, argv', g, config, p') \<Rightarrow>
        mset argv' = mset argv \<and> config_ok config \<and> (\<exists>msg. p' = print_err msg p)
      \<and> (i = - 1 \<or> 1 \<le> i \<and> i \<le> int (length argv)))"

lemma config_loop_returns:
  assumes "getopt_contract go left" "argv \<noteq> []" "config_ok config"
  shows "\<exists>r. config_loop go argv g config p = Some r \<and> options_read argv p r"
  using assms(2,3)
proof (induction "left argv g" arbitrary: argv g config p rule: less_induct)
  case less
  obtain c arg msg argv' g' where n: "getopt_next go argv g = (c, arg, msg, argv', g')"
    by (metis prod_cases5)
  with assms(1) less.prems have perm: "mset argv' = mset argv" and dec: "0 \<le> c \<Longrightarrow> left argv' g' < left argv g"
    and arg: "c = 100 \<or> c = 116 \<Longrightarrow> arg \<noteq> None"
    and ind: "c < 0 \<Longrightarrow> 1 \<le> getopt_optind go g' \<and> getopt_optind go g' \<le> int (length argv)"
    unfolding getopt_contract_def by blast+
  have ne: "argv' \<noteq> []" using perm less.prems by auto
  have mono: "\<exists>r. x = Some r \<and> options_read argv p r"
    if "\<exists>r. x = Some r \<and> options_read argv' (print_err msg p) r" for x
    using that perm mset_eq_length [OF perm] by (auto simp: options_read_def)
  have step: "\<exists>r. config_loop go argv' g' conf (print_err msg p) = Some r \<and> options_read argv p r"
    if "0 \<le> c" "config_ok conf" for conf
    by (rule mono, rule less.hyps [OF dec [OF that(1)] ne that(2)])
  note unf = config_loop.simps [of go argv g config p]
  consider "c < 0" | "c = 100" | "c = 116" | "c = 104" | "c = 86" | "0 \<le> c" "c \<notin> {100, 116, 104, 86}" by force
  then show ?case
  proof cases
    case 3
    with arg obtain word where word: "arg = Some word" by blast
    show ?thesis
    proof (cases "parse_timeout word")
      case None
      with 3 word n perm less.prems show ?thesis by (subst unf) (auto simp: options_read_def Let_def)
    next
      case (Some t)
      with less.prems have "config_ok (config\<lparr>cfg_timeout := t\<rparr>)"
        using parse_timeout_bounds by (auto simp: config_ok_def)
      with step 3 word n Some show ?thesis by (subst unf) (simp add: Let_def)
    qed
  qed (use n perm ind less.prems arg step in \<open>subst unf; auto simp: options_read_def config_ok_def Let_def\<close>)+
qed

section \<open>Outcomes\<close>

text \<open>
  What a run of the program can be, from the process at the start to the exit code and the
  process at the end: a complaint on stderr, a text on stdout, a failed open, or one command on
  a connection that is then closed, with its answer on stdout and its status on stderr. \<open>msg\<close> is
  what \<open>getopt_long\<close> printed before.
\<close>

inductive cli_outcome :: "'k os \<Rightarrow> string \<Rightarrow> string \<Rightarrow> 'k process \<Rightarrow> int \<Rightarrow> 'k process \<Rightarrow> bool"
  for os :: "'k os" and cv lv :: string and p :: "'k process"
where
  refused: "msg \<noteq> [] \<Longrightarrow> cli_outcome os cv lv p 1 (print_err msg p)"
| helped: "cli_outcome os cv lv p 0 (print_out print_help (print_err msg p))"
| versioned: "cli_outcome os cv lv p 0
    (print_out (''mcu-co-cli '' @ cv @ '' (libmcuco '' @ lv @ '')'' @ newline) (print_err msg p))"
| no_device: "mcuco_open os path t (p_world p) = Some (None, v) \<Longrightarrow> 20 \<le> t \<Longrightarrow> t \<le> 10000
    \<Longrightarrow> cli_outcome os cv lv p 1
          (print_err (msg @ ''mcu-co-cli: could not open mcuco device'' @ newline) (p\<lparr>p_world := v\<rparr>))"
| ran: "mcuco_open os path t (p_world p) = Some (Some m, v) \<Longrightarrow> 20 \<le> t \<Longrightarrow> t \<le> 10000 \<Longrightarrow> valid_command c
    \<Longrightarrow> api_step os m v c s v' \<Longrightarrow> prints c v s out v' \<Longrightarrow> code = (if s = MCUCO_STATUS_OK then 0 else 1)
    \<Longrightarrow> cli_outcome os cv lv p code
          (print_err (msg @ mcuco_strerror s @ newline) (print_out out (p\<lparr>p_world := mcuco_close os (Some m) v'\<rparr>)))"

lemma config_default_ok: "config_ok \<lparr>cfg_device_path = Some d, cfg_timeout = 1000, cfg_help = h, cfg_version = v\<rparr>"
  by (simp add: config_ok_def word_le_nat_alt)

lemma config_ok_timeout: "config_ok config \<Longrightarrow> 20 \<le> uint (cfg_timeout config) \<and> uint (cfg_timeout config) \<le> 10000"
  by (simp add: config_ok_def word_le_def)

text \<open>A row that was parsed, run on an open handle.\<close>

lemma run_row_returns:
  assumes "posix os" "finite_interrupts os rank" "row \<in> set commands" "valid_command (denotes row b)"
  shows "\<exists>s out v. mcuco_run_command os (Some m) (Some row) b w = Some (s, out, v)
     \<and> api_step os m w (denotes row b) s v \<and> prints (denotes row b) w s out v"
proof -
  obtain s v where "api_run os m (denotes row b) w = Some (s, v)"
    using every.terminates [OF assms(1,2), of m "denotes row b" w] by auto
  with rows_run [OF assms(3,1), of m b w] rows_print [OF assms(1,3,4), of m w] show ?thesis
    by (auto simp: mcuco_run_command_def api_step_iff bind_eq_Some_conv)
qed

text \<open>The program once the options are read.\<close>

lemma cli_main_operands:
  assumes "parse_config go argv g p = Some (i, argv', g', config, p1)" "1 \<le> i" "i \<le> int (length argv')"
    and "\<not> cfg_help config" "\<not> cfg_version config"
  shows "cli_main os go cv lv argv g p = do {
         (r, command, b) \<leftarrow> args_parse_mcuco (int (length (drop (nat i) argv'))) (drop (nat i) argv') None args_zero;
         if r \<noteq> 0
         then Some (1, print_err (''try '' @ [CHR 0x27] @ ''mcu-co-cli --help'' @ [CHR 0x27] @ newline)
                         (print_err (''mcu-co-cli: bad command'' @ newline) p1))
         else do {
           (mcu, p) \<leftarrow> call_in (mcuco_open os (cfg_device_path config) (uint (cfg_timeout config))) p1;
           (case mcu of
              None \<Rightarrow> Some (1, print_err (''mcu-co-cli: could not open mcuco device'' @ newline) p)
            | Some m \<Rightarrow> do {
                ((status, out), p) \<leftarrow>
                  call_in (\<lambda>w. do { (s, out, w) \<leftarrow> mcuco_run_command os (Some m) command b w; Some ((s, out), w) }) p;
                let p = print_err (mcuco_strerror status @ newline) (print_out out p);
                    p = p\<lparr>p_world := mcuco_close os (Some m) (p_world p)\<rparr>
                in Some (if status = MCUCO_STATUS_OK then 0 else 1, p)
              })
         }}"
proof -
  have count: "int (length argv') - i = int (length (drop (nat i) argv'))"
    using assms(2,3) by simp
  have inside: "(Suc (length argv') < nat i) = False" and some: "(i \<le> 0) = False"
    using assms(2,3) by auto
  show ?thesis
    unfolding cli_main_def assms(1) by (simp add: inside some assms(4,5) count del: length_drop)
qed

lemma cli_main_runs:
  fixes os :: "'k os"
  assumes os: "posix os" and fin: "finite_interrupts os rank"
    and options: "parse_config go argv g p = Some (i, argv', g', config, print_err msg p)" "1 \<le> i" "i \<le> int (length argv')"
      "\<not> cfg_help config" "\<not> cfg_version config"
    and config: "config_ok config"
  shows "\<exists>code p'. cli_main os go cv lv argv g p = Some (code, p') \<and> cli_outcome os cv lv p code p'"
proof -
  let ?words = "drop (nat i) argv'" and ?t = "uint (cfg_timeout config)"
  note main = cli_main_operands [OF options] and t = config_ok_timeout [OF config]
  show ?thesis
  proof (cases rule: args_parse_cases [of ?words "None :: 'k command_row ptr" args_zero])
    case (refused b)
    then show ?thesis unfolding main by (auto intro!: cli_outcome.refused)
  next
    case (accepted row b)
    obtain h v where op: "mcuco_open os (cfg_device_path config) ?t (p_world p) = Some (h, v)"
      using mcuco_open_terminates [OF os fin] by fastforce
    then have opened: "call_in (mcuco_open os (cfg_device_path config) ?t) (print_err msg p)
        = Some (h, print_err msg (p\<lparr>p_world := v\<rparr>))"
      by (simp add: call_in_def print_err_def)
    show ?thesis
    proof (cases h)
      case None
      with cli_outcome.no_device [OF op [unfolded None], of cv lv msg] t accepted(1) opened show ?thesis
        unfolding main by auto
    next
      case (Some m)
      have valid: "valid_command (denotes row b)"
        using accepted(3) by (intro rows_valid [OF accepted(2,4)]) simp
      obtain s out v' where run: "mcuco_run_command os (Some m) (Some row) b v = Some (s, out, v')"
        "api_step os m v (denotes row b) s v'" "prints (denotes row b) v s out v'"
        using run_row_returns [OF os fin accepted(2) valid] by blast
      note outcome = cli_outcome.ran [OF op [unfolded Some] conjunct1 [OF t] conjunct2 [OF t] valid run(2,3) refl, of cv lv msg]
      let ?said = "(print_err (mcuco_strerror s @ newline) (print_out out (print_err msg (p\<lparr>p_world := v'\<rparr>))))
          \<lparr>p_world := mcuco_close os (Some m) v'\<rparr>"
      have "?said = print_err (msg @ mcuco_strerror s @ newline) (print_out out (p\<lparr>p_world := mcuco_close os (Some m) v'\<rparr>))"
        by (cases p) (simp add: print_err_def print_out_def)
      moreover have "call_in (\<lambda>w. do { (s, out, w) \<leftarrow> mcuco_run_command os (Some m) (Some row) b w; Some ((s, out), w) })
          (print_err msg (p\<lparr>p_world := v\<rparr>)) = Some ((s, out), print_err msg (p\<lparr>p_world := v'\<rparr>))"
        by (cases p) (simp add: call_in_def run(1) print_err_def)
      then have "cli_main os go cv lv argv g p = Some (if s = MCUCO_STATUS_OK then 0 else 1, ?said)"
        unfolding main using accepted(1) opened Some by (simp add: Let_def)
      ultimately show ?thesis using outcome by metis
    qed
  qed
qed

lemma cli_main_returns:
  fixes os :: "'k os"
  assumes os: "posix os" and fin: "finite_interrupts os rank" and go: "getopt_contract go left" and ne: "argv \<noteq> []"
  shows "\<exists>code p'. cli_main os go cv lv argv g p = Some (code, p') \<and> cli_outcome os cv lv p code p'"
proof -
  obtain i argv' g' config p1 where parsed: "parse_config go argv g p = Some (i, argv', g', config, p1)"
    and r: "options_read argv p (i, argv', g', config, p1)"
    using config_loop_returns [OF go ne config_default_ok, where g = g and p = p] unfolding parse_config_def by fastforce
  then obtain msg where p1: "p1 = print_err msg p" by (auto simp: options_read_def)
  from r have config: "config_ok config" and len: "length argv' = length argv"
    and i: "i = - 1 \<or> 1 \<le> i \<and> i \<le> int (length argv)"
    by (auto simp: options_read_def dest: mset_eq_length)
  consider "i \<le> 0" | "1 \<le> i" "cfg_help config" | "1 \<le> i" "\<not> cfg_help config" "cfg_version config"
    | (run) "1 \<le> i" "\<not> cfg_help config" "\<not> cfg_version config" using i by force
  then show ?thesis
  proof cases
    case 1
    then show ?thesis
      unfolding cli_main_def parsed p1 by (auto simp: usage_line_def intro!: cli_outcome.refused)
  next
    case 2
    then show ?thesis
      unfolding cli_main_def parsed p1 by (auto intro: cli_outcome.helped)
  next
    case 3
    then show ?thesis
      unfolding cli_main_def parsed p1 mcuco_version_def using cli_outcome.versioned [of os cv lv p msg] by auto
  next
    case run
    with cli_main_runs [OF os fin parsed [unfolded p1] _ _ _ _ config] i len show ?thesis by auto
  qed
qed

lemma cli_outcome_effect:
  assumes os: "posix os" and outcome: "cli_outcome os cv lv p code p'"
  shows "fds (p_world p') = fds (p_world p) \<and> heap (p_world p') = heap (p_world p) \<and> (code = 0 \<or> code = 1)
     \<and> (code = 0 \<and> tx (p_world p') \<noteq> tx (p_world p) \<longrightarrow>
          (\<exists>c. valid_command c \<and> tx (p_world p') = tx (p_world p) @ encode_command Probe @ encode_command c))"
  using outcome
proof (cases rule: cli_outcome.cases)
  case (no_device path t v msg)
  with mcuco_open_effect [OF os no_device(3)] show ?thesis by simp
next
  case (ran path t m v c s v' out msg)
  note opened = mcuco_open_effect [OF os ran(2), unfolded option.case]
  have step: "step_contract m v c s v'" by (rule api_step_contract [OF os ran(6)])
  note kept = step_inv [OF step] and closed = mcuco_close_does [OF os, of m v']
  have "tx v' = tx v @ encode_command c" if "s = 0"
    using step_on_wire [OF step] ran(5) that by (auto simp: on_wire_def)
  with opened kept closed ran show ?thesis by auto
qed simp_all

section \<open>An option scanner for the witnesses\<close>

text \<open>
  Options come first: \<open>-h\<close>, or \<open>-t\<close> with its argument in the next word; the state is the index of
  the next word.
\<close>

definition demo_getopt :: "nat getopt" where
  "demo_getopt = \<lparr>
     getopt_next = (\<lambda>argv i.
        if 1 \<le> i \<and> i < length argv \<and> argv ! i = ''-h'' then (104, None, [], argv, Suc i)
        else if 1 \<le> i \<and> Suc i < length argv \<and> argv ! i = ''-t'' then (116, Some (argv ! Suc i), [], argv, Suc (Suc i))
        else (- 1, None, [], argv, if 1 \<le> i \<and> i \<le> length argv then i else 1)),
     getopt_optind = int\<rparr>"

lemma getopt_demo: "getopt_contract demo_getopt (\<lambda>argv i. length argv - i)"
  by (auto simp: getopt_contract_def demo_getopt_def Suc_le_eq split: if_splits)

text \<open>C5. The command line tool always ends, with exit code 0 or 1, and leaves no descriptor open
  and nothing allocated, whatever its arguments are and whatever the device answers. Its run
  is one of the outcomes of \<open>cli_outcome\<close>: a complaint on stderr, the help or version text on
  stdout, a device that could not be opened, or exactly one valid command on a connection
  opened with a deadline of 20 to 10000 ms, whose answer and status are all it prints. When it
  exits with 0 after sending anything, it sent the probe and one command.\<close>

theorem cli_main_correct:
  fixes os :: "'k os"
  assumes "posix os" "finite_interrupts os rank" "getopt_contract go left" "argv \<noteq> []"
  shows "\<exists>code p'. cli_main os go cv lv argv g p = Some (code, p') \<and> cli_outcome os cv lv p code p'
     \<and> fds (p_world p') = fds (p_world p) \<and> heap (p_world p') = heap (p_world p) \<and> (code = 0 \<or> code = 1)
     \<and> (code = 0 \<and> tx (p_world p') \<noteq> tx (p_world p) \<longrightarrow>
          (\<exists>c. valid_command c \<and> tx (p_world p') = tx (p_world p) @ encode_command Probe @ encode_command c))"
proof -
  obtain code p' where run: "cli_main os go cv lv argv g p = Some (code, p')"
      "cli_outcome os cv lv p code p'"
    using cli_main_returns [OF assms, of cv lv g p] by blast
  from cli_outcome_effect [OF assms(1) run(2)] run show ?thesis by blast
qed

theorem cli_main_correct_witness:
  "\<exists>code p'. cli_main demo_os demo_getopt ''1.0'' ''1.0'' [''mcu-co-cli'', ''-h''] 1 (demo_process [1]) = Some (code, p')
     \<and> fds (p_world p') = {} \<and> (code = 0 \<or> code = 1)"
  using cli_main_correct [OF posix_demo finite_interrupts_demo getopt_demo, of "[''mcu-co-cli'', ''-h'']" "''1.0''" "''1.0''" 1
      "demo_process [1]"]
  by (auto simp: demo_process_def demo_world_def)

text \<open>C11. A command line typed for a command runs that command: when the operands the options leave
  are the words of \<open>c\<close>, the tool opens the configured device, makes the call of \<open>c\<close>, reports its
  status on stderr, closes the connection, and exits with 0 exactly if the status is OK.\<close>

theorem cli_main_runs_command:
  fixes os :: "'k os" and p :: "'k process"
  assumes "posix os" "typable c"
    and "parse_config go argv g p = Some (i, argv', g', config, p1)" "1 \<le> i" "i \<le> int (length argv')"
    and "\<not> cfg_help config" "\<not> cfg_version config" "drop (nat i) argv' = words_of c"
    and "mcuco_open os (cfg_device_path config) (uint (cfg_timeout config)) (p_world p1) = Some (Some m, v)"
    and "api_run os m c v = Some (s, v')"
  shows "\<exists>out. prints c v s out v' \<and> cli_main os go cv lv argv g p =
     Some (if s = MCUCO_STATUS_OK then 0 else 1,
       p1\<lparr>p_out := p_out p1 @ out, p_err := p_err p1 @ mcuco_strerror s @ newline,
          p_world := mcuco_close os (Some m) v'\<rparr>)"
proof -
  obtain row :: "'k command_row" and b where
    parsed: "args_parse_mcuco (int (length (words_of c))) (words_of c) None args_zero = Some (0, Some row, b)"
    and row: "row \<in> set commands" and c: "denotes row b = c"
    using typable_parsed [OF assms(2)] by blast
  from rows_run [OF row assms(1), of m b v] assms(10) c obtain out
    where run: "row_run row os (Some m) b v = Some (s, out, v')"
    by (auto simp: bind_eq_Some_conv)
  have "valid_command (denotes row b)" using assms(2) c by (simp add: typable_def)
  from rows_print [OF assms(1) row this run] c have printed: "prints c v s out v'" by simp
  have count: "int (length argv') - i = int (length (words_of c))"
    using assms(4,5) by (simp add: assms(8) [symmetric])
  have "cli_main os go cv lv argv g p = Some (if s = MCUCO_STATUS_OK then 0 else 1,
       p1\<lparr>p_out := p_out p1 @ out, p_err := p_err p1 @ mcuco_strerror s @ newline,
          p_world := mcuco_close os (Some m) v'\<rparr>)"
    using assms(4-7) by (simp add: cli_main_def assms(3,8,9) count parsed call_in_def mcuco_run_command_def run Let_def
      print_out_def print_err_def)
  with printed show ?thesis by blast
qed

theorem cli_main_runs_command_witness:
  "\<exists>p'. cli_main demo_os demo_getopt ''1.0'' ''1.0'' [''mcu-co-cli'', ''-t'', ''100'', ''timer'', ''get'', ''2''] 1
        (demo_process (encode_response 1 expected_magic @ encode_response 1 (u32_le 1000))) = Some (0, p')
      \<and> p_out p' = ''1000'' @ newline \<and> p_err p' = ''Success'' @ newline"
proof -
  let ?argv = "[''mcu-co-cli'', ''-t'', ''100'', ''timer'', ''get'', ''2'']"
  let ?p = "demo_process (encode_response 1 expected_magic @ encode_response 1 (u32_le 1000))"
  let ?config = "\<lparr>cfg_device_path = Some ''/dev/ttyACM0'', cfg_timeout = 100, cfg_help = False, cfg_version = False\<rparr>"
  let ?m = "\<lparr>mcu_fd = 3, mcu_timeout_ms = 100\<rparr>" and ?c = "Pwm_Group_Get 2"
  have ms: "parse_timeout ''100'' = Some 100"
    by (simp add: parse_timeout_def strtoul_def is_space_def is_digit_def digits_value_def digit_value_def ULONG_MAX_def
        TIMEOUT_MIN_MS_def TIMEOUT_MAX_MS_def)
  have config: "parse_config demo_getopt ?argv 1 ?p = Some (3, ?argv, 3, ?config, ?p)"
    unfolding parse_config_def
    by (subst config_loop.simps, simp add: demo_getopt_def ms, subst config_loop.simps, simp add: print_err_def numeral_eq_Suc)
  have words: "words_of ?c = [''timer'', ''get'', ''2'']"
    by (simp add: decimal.simps char_of_def bit_0)
  have typable: "typable ?c" by (simp add: typable_def)
  obtain v where op: "mcuco_open demo_os (Some ''/dev/ttyACM0'') 100 (p_world ?p) = Some (Some ?m, v)"
    and v: "rx v = encode_response 1 (u32_le 1000)" "0 \<le> clk v" "clk v < 90"
    using mcuco_open_demo_rest [of "''/dev/ttyACM0''" "encode_response 1 (u32_le 1000)"] by (auto simp: demo_process_def)
  have scan: "scan_response (rx v) = Some (Some (1, u32_le 1000), [])"
    using v by (auto simp: scan_response_frame u32_le_def intro: exI [of _ "[]"])
  from every.answered_by [OF posix_demo finite_interrupts_demo delivers_by_demo [of 90] accepts_by_demo, of v ?m ?c, OF _ _ _ _ scan] v
  obtain v' where run: "api_run demo_os ?m ?c v = Some (0, v')"
    by (auto simp: verdict_def reply_status_def frequency_of_def u32_le_def simp del: api_run.simps)
  have o: "mcuco_open demo_os (cfg_device_path ?config) (uint (cfg_timeout ?config)) (p_world ?p) = Some (Some ?m, v)"
    using op by simp
  from cli_main_runs_command [OF posix_demo typable config _ _ _ _ _ o run, of "''1.0''" "''1.0''"] words
  obtain out where "prints ?c v 0 out v'" and main: "cli_main demo_os demo_getopt ''1.0'' ''1.0'' ?argv 1 ?p =
      Some (0, ?p\<lparr>p_out := p_out ?p @ out, p_err := p_err ?p @ mcuco_strerror 0 @ newline,
        p_world := mcuco_close demo_os (Some ?m) v'\<rparr>)" by auto
  then have "out = decimal 1000 @ newline" using scan by (auto simp: prints_def le_u32_inverse)
  moreover have "decimal 1000 = ''1000''" by (simp add: decimal.simps char_of_def bit_0)
  moreover have "mcuco_strerror 0 = ''Success''" by (simp add: mcuco_strerror_def)
  ultimately show ?thesis using main by (simp add: demo_process_def)
qed

end
