(* ===== verification/Host.thy ===== *)
theory Host
  imports Process Session
begin

text \<open>
  What the four programs of \<^verbatim>\<open>examples/\<close> share: signals, waiting, and the way a program uses a
  connection. Signal delivery and the calls that wait are the operating system's and so a
  parameter, the record \<open>host\<close>, with the hypothesis \<open>host_contract\<close>; the handler, the flag and
  the checks of it are the programs'.
\<close>

section \<open>The host\<close>

text \<open>
  \<open>host_signals\<close>: the signals that arrived since the last look. \<open>host_pause\<close>: the signals whose
  handlers ran before \<open>pause\<close> returned, \<^term>\<open>None\<close> if no signal ever arrives and it never does.
  \<open>host_strerror\<close>: the message \<open>perror\<close> has for an errno value.
\<close>

record 'k host =
  host_signals :: "'k world \<Rightarrow> int list \<times> 'k world"
  host_sleep :: "int \<Rightarrow> 'k world \<Rightarrow> 'k world"
  host_nanosleep :: "timespec \<Rightarrow> 'k world \<Rightarrow> 'k world"
  host_pause :: "'k world \<Rightarrow> (int list \<times> 'k world) option"
  host_strerror :: "int \<Rightarrow> string"

definition SIGINT :: int where
  "SIGINT = 2"

definition SIGTERM :: int where
  "SIGTERM = 15"

text \<open>Waiting moves nothing but time, and \<open>pause\<close> returns only after a handler ran.\<close>

definition host_contract :: "'k host \<Rightarrow> bool" where
  "host_contract h \<longleftrightarrow>
     (\<forall>w. later w (snd (host_signals h w)))
   \<and> (\<forall>s w. later w (host_sleep h s w))
   \<and> (\<forall>t w. later w (host_nanosleep h t w))
   \<and> (\<forall>w sigs w'. host_pause h w = Some (sigs, w') \<longrightarrow>
        later w w' \<and> (SIGINT \<in> set sigs \<or> SIGTERM \<in> set sigs))"

text \<open>The user interrupts the program at time \<open>T\<close>, and waiting takes time.\<close>

definition interrupted_at :: "'k host \<Rightarrow> int \<Rightarrow> bool" where
  "interrupted_at h T \<longleftrightarrow>
     (\<forall>w. T \<le> clk w \<longrightarrow> SIGINT \<in> set (fst (host_signals h w)))
   \<and> (\<forall>s w. clk w < clk (host_sleep h s w))
   \<and> (\<forall>t w. clk w < clk (host_nanosleep h t w))"

section \<open>Signals\<close>

text \<open>The handler, and its installation for the two signals.\<close>

definition request_stop :: "int \<Rightarrow> 'k process \<Rightarrow> 'k process" where
  "request_stop signal_number p = p\<lparr>p_stop := 1\<rparr>"

definition install_signal_handlers :: "'k process \<Rightarrow> 'k process" where
  "install_signal_handlers p =
     p\<lparr>p_handlers := (p_handlers p)(SIGINT \<mapsto> REQUEST_STOP, SIGTERM \<mapsto> REQUEST_STOP)\<rparr>"

text \<open>
  The handlers of the signals that arrived run, in order, before the program goes on. A signal
  without a handler does nothing here: its default action, which for these two would end the
  process, is not modelled, and every program installs the handlers first.
\<close>

definition deliver :: "int list \<Rightarrow> 'k process \<Rightarrow> 'k process" where
  "deliver sigs p =
     fold (\<lambda>s p. case p_handlers p s of None \<Rightarrow> p | Some REQUEST_STOP \<Rightarrow> request_stop s p) sigs p"

definition take_signals :: "'k host \<Rightarrow> 'k process \<Rightarrow> 'k process" where
  "take_signals h p = (case host_signals h (p_world p) of (sigs, w) \<Rightarrow> deliver sigs (p\<lparr>p_world := w\<rparr>))"

text \<open>One evaluation of \<open>stop_requested\<close>; a handler may have run since the last one.\<close>

definition check_stop :: "'k host \<Rightarrow> 'k process \<Rightarrow> bool \<times> 'k process" where
  "check_stop h p = (let p = take_signals h p in (p_stop p \<noteq> 0, p))"

text \<open>\<open>sleep\<close>, \<open>nanosleep\<close> and \<open>pause\<close>; a signal may still arrive between the last check and \<open>pause\<close>.\<close>

definition sleep_for :: "'k host \<Rightarrow> int \<Rightarrow> 'k process \<Rightarrow> 'k process" where
  "sleep_for h s p = p\<lparr>p_world := host_sleep h s (p_world p)\<rparr>"

definition nanosleep_for :: "'k host \<Rightarrow> timespec \<Rightarrow> 'k process \<Rightarrow> 'k process" where
  "nanosleep_for h t p = p\<lparr>p_world := host_nanosleep h t (p_world p)\<rparr>"

definition pause_now :: "'k host \<Rightarrow> 'k process \<Rightarrow> 'k process option" where
  "pause_now h p = do {
     let p = take_signals h p;
     (sigs, w) \<leftarrow> host_pause h (p_world p);
     Some (deliver sigs (p\<lparr>p_world := w\<rparr>))
   }"

section \<open>Shared code of the programs\<close>

definition DEFAULT_DEVICE :: string where
  "DEFAULT_DEVICE = ''/dev/ttyACM0''"

definition MCUCO_TIMEOUT_DEFAULT_MS :: int where
  "MCUCO_TIMEOUT_DEFAULT_MS = 1000"

text \<open>\<open>(argc > 1) ? argv[1] : DEFAULT_DEVICE\<close>.\<close>

definition device_of :: "string list \<Rightarrow> string" where
  "device_of argv = (if length argv > 1 then argv ! 1 else DEFAULT_DEVICE)"

definition perror :: "'k host \<Rightarrow> string \<Rightarrow> 'k process \<Rightarrow> 'k process" where
  "perror h s p = print_err (s @ '': '' @ host_strerror h (errno (p_world p)) @ newline) p"

definition close_in :: "'k os \<Rightarrow> mcuco \<Rightarrow> 'k process \<Rightarrow> 'k process" where
  "close_in os m p = p\<lparr>p_world := mcuco_close os (Some m) (p_world p)\<rparr>"

text \<open>\<open>fprintf (stderr, "<what>: %s\n", mcuco_strerror (status))\<close>.\<close>

definition report :: "string \<Rightarrow> mcu_status \<Rightarrow> 'k process \<Rightarrow> 'k process" where
  "report what status p = print_err (what @ mcuco_strerror status @ newline) p"

text \<open>The end of a run: reset the MCU, report a failure of it, and close.\<close>

definition reset_and_close :: "'k os \<Rightarrow> mcuco \<Rightarrow> 'k process \<Rightarrow> 'k process option" where
  "reset_and_close os m p = do {
     (reset_status, p) \<leftarrow> call_in (mcuco_reset os (Some m)) p;
     let p = (if reset_status \<noteq> MCUCO_STATUS_OK then report ''reset: '' reset_status p else p);
     Some (close_in os m p)
   }"

section \<open>Signals: lemmas\<close>

text \<open>The handler is installed for both signals.\<close>

definition stoppable :: "'k process \<Rightarrow> bool" where
  "stoppable p \<longleftrightarrow> p_handlers p SIGINT = Some REQUEST_STOP \<and> p_handlers p SIGTERM = Some REQUEST_STOP"

lemma installed [simp]:
  "stoppable (install_signal_handlers p)" "p_world (install_signal_handlers p) = p_world p"
  "p_out (install_signal_handlers p) = p_out p" "p_err (install_signal_handlers p) = p_err p"
  "p_stop (install_signal_handlers p) = p_stop p"
  by (simp_all add: stoppable_def install_signal_handlers_def SIGINT_def SIGTERM_def)

lemma stoppable_simps [simp]:
  "stoppable (print_out s p) = stoppable p" "stoppable (print_err s p) = stoppable p"
  "stoppable (p\<lparr>p_world := w\<rparr>) = stoppable p"
  by (simp_all add: stoppable_def)

text \<open>From \<open>p\<close> to \<open>p'\<close> only time passed and texts were printed: the handlers stay, and so does the
  flag once it is set.\<close>

definition waited :: "'k process \<Rightarrow> 'k process \<Rightarrow> bool" where
  "waited p p' \<longleftrightarrow> later (p_world p) (p_world p') \<and> (p_stop p \<noteq> 0 \<longrightarrow> p_stop p' \<noteq> 0)
     \<and> p_handlers p' = p_handlers p"

lemma waited_stoppable: "waited p p' \<Longrightarrow> stoppable p' = stoppable p"
  by (simp add: waited_def stoppable_def)

lemma waited_refl [simp, intro]: "waited p p"
  by (simp add: waited_def)

lemma waited_trans [trans]: "waited p q \<Longrightarrow> waited q r \<Longrightarrow> waited p r"
  by (auto simp: waited_def intro: later_trans)

lemma waited_prints [simp]:
  "waited p (print_err s q) = waited p q" "waited p (print_out s q) = waited p q"
  "waited p (report w st q) = waited p q" "waited p (perror h s q) = waited p q"
  by (simp_all add: waited_def report_def perror_def)

lemma deliver_simps [simp]:
  "deliver [] p = p"
  "deliver (s # sigs) p = deliver sigs (if p_handlers p s = None then p else request_stop s p)"
  by (simp_all add: deliver_def split: option.split signal_handler.split)

lemma deliver_keeps:
  "p_world (deliver sigs p) = p_world p \<and> p_out (deliver sigs p) = p_out p \<and> p_err (deliver sigs p) = p_err p
   \<and> p_handlers (deliver sigs p) = p_handlers p \<and> (p_stop p \<noteq> 0 \<longrightarrow> p_stop (deliver sigs p) \<noteq> 0)"
  by (induction sigs arbitrary: p) (auto simp: request_stop_def)

lemma deliver_stop:
  "stoppable p \<Longrightarrow> SIGINT \<in> set sigs \<or> SIGTERM \<in> set sigs \<Longrightarrow> p_stop (deliver sigs p) \<noteq> 0"
proof (induction sigs arbitrary: p)
  case (Cons s sigs)
  let ?p = "if p_handlers p s = None then p else request_stop s p"
  have "stoppable ?p" using Cons.prems(1) by (simp add: stoppable_def request_stop_def)
  moreover have "p_stop ?p \<noteq> 0" if "s = SIGINT \<or> s = SIGTERM"
    using that Cons.prems(1) by (auto simp: stoppable_def request_stop_def)
  ultimately show ?case using Cons.IH [of ?p] Cons.prems(2) deliver_keeps [of sigs ?p] by auto
qed simp

lemma host_later:
  assumes "host_contract h"
  shows "host_signals h w = (sigs, w') \<Longrightarrow> later w w'" "later w (host_sleep h s w)" "later w (host_nanosleep h t w)"
    "host_pause h w = Some (sigs, w') \<Longrightarrow> later w w' \<and> (SIGINT \<in> set sigs \<or> SIGTERM \<in> set sigs)"
  using assms unfolding host_contract_def by (metis snd_conv)+

lemma take_signals_waited:
  assumes "host_contract h"
  shows "waited p (take_signals h p)"
proof -
  obtain sigs w where s: "host_signals h (p_world p) = (sigs, w)" by fastforce
  with host_later(1) [OF assms s] show ?thesis by (simp add: waited_def take_signals_def deliver_keeps)
qed

lemma check_stop_waited:
  "host_contract h \<Longrightarrow> check_stop h p = (b, q) \<Longrightarrow> waited p q \<and> (b \<longleftrightarrow> p_stop q \<noteq> 0)"
  using take_signals_waited [of h p] by (auto simp: check_stop_def Let_def)

lemma check_stop_interrupted:
  assumes "interrupted_at h T" "stoppable p" "T \<le> clk (p_world p)"
  shows "fst (check_stop h p)"
proof -
  obtain sigs w where s: "host_signals h (p_world p) = (sigs, w)" by fastforce
  then have "SIGINT \<in> set sigs" using assms(1,3) by (metis interrupted_at_def fst_conv)
  with deliver_stop [of "p\<lparr>p_world := w\<rparr>" sigs] assms(2) s show ?thesis
    by (simp add: check_stop_def take_signals_def Let_def)
qed

lemma sleeps_waited:
  "host_contract h \<Longrightarrow> waited p (sleep_for h s p)" "host_contract h \<Longrightarrow> waited p (nanosleep_for h t p)"
  by (simp_all add: waited_def sleep_for_def nanosleep_for_def host_contract_def)

lemma pause_waited:
  assumes "host_contract h" "pause_now h p = Some q"
  shows "waited p q"
proof -
  from assms(2) obtain sigs w where "host_pause h (p_world (take_signals h p)) = Some (sigs, w)"
    and q: "q = deliver sigs ((take_signals h p)\<lparr>p_world := w\<rparr>)"
    by (auto simp: pause_now_def Let_def bind_eq_Some_conv)
  from conjunct1 [OF host_later(4) [OF assms(1) this(1)]] q have "waited (take_signals h p) q"
    by (simp add: waited_def deliver_keeps)
  with take_signals_waited [OF assms(1)] show ?thesis by (rule waited_trans)
qed

section \<open>The life of a connection\<close>

text \<open>Calls on an open handle with waiting in between: a session with time passing.\<close>

inductive activity :: "'k os \<Rightarrow> mcuco \<Rightarrow> 'k world \<Rightarrow> (command \<times> mcu_status) list \<Rightarrow> 'k world \<Rightarrow> bool"
  for os :: "'k os" and m :: mcuco
where
  act_wait: "later w w' \<Longrightarrow> activity os m w [] w'"
| act_call: "later w u \<Longrightarrow> api_step os m u c s v \<Longrightarrow> activity os m v tr w' \<Longrightarrow> activity os m w ((c, s) # tr) w'"

lemma activity_later: "later v w \<Longrightarrow> activity os m w tr w' \<Longrightarrow> activity os m v tr w'"
  by (erule activity.cases) (auto intro: activity.intros later_trans)

lemma activity_append:
  "activity os m u tr v \<Longrightarrow> activity os m v tr' w \<Longrightarrow> activity os m u (tr @ tr') w"
  by (induction rule: activity.induct) (auto intro: act_call activity_later)

lemma activity_one: "api_step os m u c s v \<Longrightarrow> activity os m u [(c, s)] v"
  by (auto intro: activity.intros)

lemma session_inv_later: "later w v \<Longrightarrow> session_inv v tr w' \<Longrightarrow> session_inv w tr w'"
  by (auto simp: session_inv_def later_iff)

lemma activity_inv:
  assumes "posix os" "activity os m w tr w'"
  shows "session_inv w tr w'"
  using assms(2)
proof (induction rule: activity.induct)
  case (act_wait w w')
  then have "session_inv w' [] w'" by (auto simp: session_inv_def intro: exI [of _ "[]"])
  with act_wait show ?case by (rule session_inv_later)
next
  case (act_call w u c s v tr w')
  then show ?case
    using api_step_contract [OF assms(1)] session_inv_step session_inv_later by blast
qed

text \<open>
  What a run of an example can be: the device could not be opened, or the calls \<open>tr\<close> were made
  on a connection that is closed again.
\<close>

inductive example_run :: "'k os \<Rightarrow> string \<Rightarrow> 'k world \<Rightarrow> (command \<times> mcu_status) list \<Rightarrow> int \<Rightarrow> 'k world \<Rightarrow> bool"
  for os :: "'k os" and path :: string and w :: "'k world"
where
  not_opened: "mcuco_open os (Some path) MCUCO_TIMEOUT_DEFAULT_MS w = Some (None, v) \<Longrightarrow> example_run os path w [] 1 v"
| closed: "mcuco_open os (Some path) MCUCO_TIMEOUT_DEFAULT_MS w = Some (Some m, v) \<Longrightarrow> activity os m v tr v'
    \<Longrightarrow> example_run os path w tr code (mcuco_close os (Some m) v')"

lemma example_run_effect:
  assumes os: "posix os" and run: "example_run os path w tr code w'"
  shows "fds w' = fds w \<and> heap w' = heap w
    \<and> (tr \<noteq> [] \<longrightarrow> (\<exists>fs. list_all2 on_wire tr fs \<and> tx w' = tx w @ encode_command Probe @ concat fs))"
  using run
proof (cases rule: example_run.cases)
  case (not_opened)
  with mcuco_open_effect [OF os not_opened(3)] show ?thesis by simp
next
  case (closed m v v')
  note opened = mcuco_open_effect [OF os closed(2), unfolded option.case]
  from activity_inv [OF os closed(3)] have inv: "fds v' = fds v" "heap v' = heap v"
    and "\<exists>fs. list_all2 on_wire tr fs \<and> tx v' = tx v @ concat fs" by (simp_all add: session_inv_def)
  with opened mcuco_close_does [OF os, of m v'] closed show ?thesis by auto
qed

text \<open>
  \<open>example_program\<close>: the contract the four programs share. On a host that ends its waiting
  (\<open>wakes\<close>) the program returns, its run is an \<open>example_run\<close>, and its calls and exit code are as
  \<open>calls\<close> says; then nothing is left open or allocated, and the line got the probe and, call by
  call, the frames.
\<close>

locale example_program =
  fixes main :: "'k os \<Rightarrow> 'k host \<Rightarrow> string list \<Rightarrow> 'k process \<Rightarrow> (int \<times> 'k process) option"
    and wakes :: "'k host \<Rightarrow> bool"
    and calls :: "(command \<times> mcu_status) list \<Rightarrow> int \<Rightarrow> bool"
  assumes returns: "posix os \<Longrightarrow> finite_interrupts os rank \<Longrightarrow> host_contract h \<Longrightarrow> wakes h
    \<Longrightarrow> \<exists>code p' tr. main os h argv p = Some (code, p')
          \<and> example_run os (device_of argv) (p_world p) tr code (p_world p') \<and> calls tr code"
begin

lemma releases:
  assumes "posix os" "finite_interrupts os rank" "host_contract h" "wakes h"
  shows "\<exists>code p' tr. main os h argv p = Some (code, p') \<and> calls tr code
     \<and> example_run os (device_of argv) (p_world p) tr code (p_world p')
     \<and> fds (p_world p') = fds (p_world p) \<and> heap (p_world p') = heap (p_world p)
     \<and> (tr \<noteq> [] \<longrightarrow>
          (\<exists>fs. list_all2 on_wire tr fs \<and> tx (p_world p') = tx (p_world p) @ encode_command Probe @ concat fs))"
  using returns [OF assms, of argv p] example_run_effect [OF assms(1)] by blast

end

text \<open>A call made by a process: it returns, and is one step on the handle.\<close>

lemma call_in_api:
  assumes "posix os" "finite_interrupts os rank" "\<And>w. f w = api_run os m c w"
  shows "\<exists>s q. call_in f p = Some (s, q) \<and> api_step os m (p_world p) c s (p_world q)
     \<and> p_stop q = p_stop p \<and> p_out q = p_out p \<and> p_err q = p_err p \<and> p_handlers q = p_handlers p"
  using api_step_terminates [OF assms(1,2), of m "p_world p" c]
  by (auto simp: call_in_def assms(3) api_step_iff)

lemma reset_and_close_returns:
  assumes "posix os" "finite_interrupts os rank"
  shows "\<exists>s v p'. reset_and_close os m p = Some p' \<and> api_step os m (p_world p) Reset s v
     \<and> p_world p' = mcuco_close os (Some m) v"
proof -
  obtain s q where "call_in (mcuco_reset os (Some m)) p = Some (s, q)" "api_step os m (p_world p) Reset s (p_world q)"
    using call_in_api [OF assms, of "mcuco_reset os (Some m)" m Reset p] by auto
  then show ?thesis by (auto simp: reset_and_close_def close_in_def report_def)
qed

section \<open>A host for the witnesses\<close>

text \<open>SIGINT from time \<open>T\<close> on; waiting takes the time asked for, at least a millisecond.\<close>

definition demo_host :: "int \<Rightarrow> nat host" where
  "demo_host T = \<lparr>
     host_signals = (\<lambda>w. (if T \<le> clk w then [SIGINT] else [], w)),
     host_sleep = (\<lambda>s w. w\<lparr>clk := clk w + max 1 (1000 * s)\<rparr>),
     host_nanosleep = (\<lambda>t w. w\<lparr>clk := clk w + max 1 (1000 * tv_sec t + tv_nsec t div 1000000)\<rparr>),
     host_pause = (\<lambda>w. Some ([SIGINT], w\<lparr>clk := max T (clk w)\<rparr>)),
     host_strerror = (\<lambda>e. ''error '' @ decimal (nat e))\<rparr>"

lemma host_demo: "host_contract (demo_host T)"
  by (auto simp: host_contract_def demo_host_def later_iff split: if_splits)

lemma interrupted_demo: "interrupted_at (demo_host T) T"
  by (auto simp: interrupted_at_def demo_host_def)

end
