(* ===== verification/Blink.thy ===== *)
theory Blink
  imports Host
begin

text \<open>\<^verbatim>\<open>examples/blink.c\<close>: the LED on A5 goes on and off once a second until the program is interrupted.\<close>

section \<open>The program\<close>



section \<open>What the loop does\<close>









end
