(* ===== verification/Irq_Bind.thy ===== *)
theory Irq_Bind
  imports Host
begin

text \<open>
  \<^verbatim>\<open>examples/irq_bind.c\<close>: bind the button on C13 to toggle the LED on A5 and wait to be
  interrupted.
\<close>

section \<open>The program\<close>


text \<open>\<open>while (!stop_requested) pause ();\<close>\<close>

partial_function (option) irq_wait :: "'k host \<Rightarrow> 'k process \<Rightarrow> 'k process option" where
  "irq_wait h p =
     (case check_stop h p of (stop_requested, p) \<Rightarrow>
        if stop_requested then Some p
        else do { p \<leftarrow> pause_now h p; irq_wait h p })"



section \<open>Waiting\<close>


lemma pause_now_stops:
  assumes "host_contract h" "stoppable p" "pause_now h p = Some q"
  shows "p_stop q \<noteq> 0"
proof -
  from assms(3) obtain sigs w where pause: "host_pause h (p_world (take_signals h p)) = Some (sigs, w)"
    and q: "q = deliver sigs ((take_signals h p)\<lparr>p_world := w\<rparr>)"
    by (auto simp: pause_now_def Let_def bind_eq_Some_conv)
  have "stoppable ((take_signals h p)\<lparr>p_world := w\<rparr>)"
    using waited_stoppable [OF take_signals_waited [OF assms(1)]] assms(2) by simp
  with deliver_stop host_later(4) [OF assms(1) pause] q show ?thesis by blast
qed

lemma irq_wait_stopped:
  assumes "host_contract h" "p_stop p \<noteq> 0"
  shows "irq_wait h p = Some (snd (check_stop h p))"
proof -
  obtain b q where c: "check_stop h p = (b, q)" by fastforce
  from check_stop_waited [OF assms(1) c] assms(2) have b by (auto simp: waited_def)
  with c show ?thesis by (subst irq_wait.simps) simp
qed

lemma irq_wait_result:
  assumes "host_contract h" "stoppable p"
  shows "irq_wait h p =
    (case check_stop h p of (b, q) \<Rightarrow> if b then Some q else map_option (\<lambda>q. snd (check_stop h q)) (pause_now h q))"
proof -
  obtain b q where c: "check_stop h p = (b, q)" by fastforce
  show ?thesis
  proof (cases "b \<or> pause_now h q = None")
    case True
    with c show ?thesis by (subst irq_wait.simps) auto
  next
    case False
    then obtain r where r: "pause_now h q = Some r" "\<not> b" by blast
    have "stoppable q" using waited_stoppable [of p q] check_stop_waited [OF assms(1) c] assms(2) by simp
    with c r irq_wait_stopped [OF assms(1) pause_now_stops [OF assms(1) _ r(1)]] show ?thesis
      by (subst irq_wait.simps) simp
  qed
qed

lemma pause_now_None: "pause_now h p = None \<longleftrightarrow> host_pause h (p_world (take_signals h p)) = None"
  by (cases "host_pause h (p_world (take_signals h p))") (auto simp: pause_now_def Let_def)

text \<open>C39. When the wait ends and when it does not, once the handlers are installed: it hangs exactly if the first test finds the flag
  clear and \<open>pause\<close>, called next, never returns. Whether the handler has set the flag in between
  makes no difference, so an interrupt that arrives after the test and before \<open>pause\<close> is lost,
  and the program then never reaches the reset and the close.\<close>

theorem irq_wait_hangs:
  assumes "host_contract h" "stoppable p" "check_stop h p = (stop_requested, q)"
  shows "irq_wait h p = None \<longleftrightarrow> \<not> stop_requested \<and> host_pause h (p_world (take_signals h q)) = None"
  using irq_wait_result [OF assms(1,2)] assms(3) by (simp add: pause_now_None)

text \<open>A host on which one interrupt arrives, and that right before \<open>pause\<close>.\<close>

definition late_host :: "nat host" where
  "late_host = (demo_host 0)\<lparr>
     host_signals := (\<lambda>w. if kern w = 1 then ([SIGINT], w\<lparr>kern := 0\<rparr>) else ([], w\<lparr>kern := kern w - 1\<rparr>)),
     host_pause := (\<lambda>w. None)\<rparr>"

theorem irq_wait_hangs_witness:
  "p_stop (take_signals late_host ((install_signal_handlers (demo_process []))\<lparr>p_world := demo_world [] 1\<rparr>)) = 1
   \<and> irq_wait late_host ((install_signal_handlers (demo_process []))\<lparr>p_world := demo_world [] 2\<rparr>) = None"
proof -
  let ?p = "(install_signal_handlers (demo_process []))\<lparr>p_world := demo_world [] 2\<rparr>"
    and ?q = "(install_signal_handlers (demo_process []))\<lparr>p_world := demo_world [] 1\<rparr>"
  have h: "host_contract late_host"
    using host_demo [of 0] by (auto simp: late_host_def host_contract_def later_iff)
  have c: "check_stop late_host ?p = (False, ?q)" and t: "p_stop (take_signals late_host ?q) = 1"
    by (simp_all add: late_host_def check_stop_def take_signals_def Let_def demo_process_def demo_world_def request_stop_def
        install_signal_handlers_def SIGINT_def SIGTERM_def)
  have "host_pause late_host w = None" for w by (simp add: late_host_def)
  with irq_wait_hangs [OF h _ c] t show ?thesis by simp
qed

section \<open>The program\<close>









end
