(* ===== verification/Pwm_Breathe.thy ===== *)
theory Pwm_Breathe
  imports Host
begin

text \<open>\<^verbatim>\<open>examples/pwm_breathe.c\<close>: the brightness of the LED on A5 goes up and down until the program is interrupted.\<close>

section \<open>The program\<close>

definition LED_PORT :: port_t where "LED_PORT = PORT_A"
definition LED_PIN :: u8 where "LED_PIN = 5"
definition DUTY_STEP :: int where "DUTY_STEP = 20"
definition STEP_MS :: int where "STEP_MS = 20"
definition STEP_NS :: int where "STEP_NS = STEP_MS * 1000000"

definition wait_a_step :: "'k host \<Rightarrow> 'k process \<Rightarrow> 'k process" where
  "wait_a_step h p = nanosleep_for h \<lparr>tv_sec = 0, tv_nsec = STEP_NS\<rparr> p"


text \<open>The next duty: a step on, or \<open>to\<close> when that would overshoot.\<close>

definition next_duty :: "int \<Rightarrow> int \<Rightarrow> int \<Rightarrow> int" where
  "next_duty step to duty =
     (let duty = duty + step in
      if 0 < step \<and> to < duty \<or> step < 0 \<and> duty < to then to else duty)"

partial_function (option) ramp_loop ::
  "'k os \<Rightarrow> 'k host \<Rightarrow> mcuco \<Rightarrow> int \<Rightarrow> int \<Rightarrow> int \<Rightarrow> 'k process \<Rightarrow> (mcu_status \<times> 'k process) option"
where
  "ramp_loop os h m step to duty p =
     (case check_stop h p of (stop_requested, p) \<Rightarrow>
        if stop_requested then Some (MCUCO_STATUS_OK, p)
        else do {
          (status, p) \<leftarrow> call_in (mcuco_pwm_channel_set os (Some m) (word_of_int duty) LED_PORT LED_PIN) p;
          if status \<noteq> MCUCO_STATUS_OK then Some (status, p)
          else if duty = to then Some (MCUCO_STATUS_OK, p)
          else ramp_loop os h m step to (next_duty step to duty) (wait_a_step h p)
        })"

definition ramp ::
  "'k os \<Rightarrow> 'k host \<Rightarrow> mcuco \<Rightarrow> int \<Rightarrow> int \<Rightarrow> 'k process \<Rightarrow> (mcu_status \<times> 'k process) option" where
  "ramp os h m start to p =
     (let step = (if start < to then DUTY_STEP else - DUTY_STEP) in ramp_loop os h m step to start p)"



section \<open>The ramp\<close>

text \<open>The \<open>i\<close>-th duty of a ramp that starts at \<open>duty\<close>, and the number of steps to its end.\<close>

definition duty_at :: "int \<Rightarrow> int \<Rightarrow> int \<Rightarrow> nat \<Rightarrow> int" where
  "duty_at step to duty i = (if 0 < step then min (duty + step * int i) to else max (duty + step * int i) to)"

definition ramp_steps :: "int \<Rightarrow> int \<Rightarrow> nat" where
  "ramp_steps to duty = nat ((\<bar>to - duty\<bar> + 19) div 20)"

definition towards :: "int \<Rightarrow> int \<Rightarrow> int \<Rightarrow> bool" where
  "towards step to duty \<longleftrightarrow> step = 20 \<and> duty \<le> to \<or> step = - 20 \<and> to \<le> duty"

lemma next_duty_eq:
  "towards step to duty \<Longrightarrow> next_duty step to duty = (if 0 < step then min (duty + 20) to else max (duty - 20) to)"
  by (auto simp: towards_def next_duty_def Let_def)

lemma towards_next: "towards step to duty \<Longrightarrow> towards step to (next_duty step to duty)"
  by (auto simp: next_duty_eq) (auto simp: towards_def)

lemma duty_at_next:
  assumes "towards step to duty"
  shows "duty_at step to (next_duty step to duty) i = duty_at step to duty (Suc i)"
  using assms by (auto simp: next_duty_eq [OF assms] duty_at_def towards_def min_def max_def)

lemma duty_at_0: "towards step to duty \<Longrightarrow> duty_at step to duty 0 = duty"
  by (auto simp: towards_def duty_at_def)

lemma ramp_steps_next:
  assumes "towards step to duty" "duty \<noteq> to"
  shows "ramp_steps to duty = Suc (ramp_steps to (next_duty step to duty))"
proof -
  let ?x = "\<bar>to - duty\<bar>"
  have x: "0 < ?x" and n: "\<bar>to - next_duty step to duty\<bar> = max (?x - 20) 0"
    using assms by (auto simp: next_duty_eq [OF assms(1)] towards_def)
  have "nat ((?x + 19) div 20) = Suc (nat ((max (?x - 20) 0 + 19) div 20))"
  proof (cases "20 \<le> ?x")
    case True
    then have "(?x + 19) div 20 = (?x - 20 + 19) div 20 + 1" "0 \<le> (?x - 20 + 19) div 20" by simp_all
    with True show ?thesis by (simp add: nat_add_distrib)
  next
    case False
    with x have "(?x + 19) div 20 = 1" by simp
    with False show ?thesis by simp
  qed
  with n show ?thesis by (simp add: ramp_steps_def)
qed

abbreviation set_duty :: "int \<Rightarrow> command" where
  "set_duty duty \<equiv> Pwm_Channel_Set (word_of_int duty) PORT_A 5"

text \<open>\<open>n\<close> calls that succeeded, and one more that did not if the ramp ends with an error.\<close>

definition ramp_calls :: "(nat \<Rightarrow> int) \<Rightarrow> nat \<Rightarrow> mcu_status \<Rightarrow> (command \<times> mcu_status) list" where
  "ramp_calls f n s =
     map (\<lambda>i. (set_duty (f i), MCUCO_STATUS_OK)) [0..<n] @ (if s = MCUCO_STATUS_OK then [] else [(set_duty (f n), s)])"

lemma ramp_calls_Suc:
  "ramp_calls f (Suc n) s = (set_duty (f 0), MCUCO_STATUS_OK) # ramp_calls (\<lambda>i. f (Suc i)) n s"
  by (simp add: ramp_calls_def upt_conv_Cons map_Suc_upt [symmetric] comp_def del: upt_Suc)

lemma ramp_loop_returns:
  assumes os: "posix os" "finite_interrupts os rank" and host: "host_contract h" and "towards step to duty"
  shows "\<exists>s q n. ramp_loop os h m step to duty p = Some (s, q)
     \<and> activity os m (p_world p) (ramp_calls (duty_at step to duty) n s) (p_world q)
     \<and> (p_stop p \<noteq> 0 \<longrightarrow> p_stop q \<noteq> 0) \<and> p_handlers q = p_handlers p
     \<and> ((\<forall>t w. clk w < clk (host_nanosleep h t w)) \<and> 2 \<le> n \<longrightarrow> clk (p_world p) < clk (p_world q))
     \<and> (if s = MCUCO_STATUS_OK then n = Suc (ramp_steps to duty) \<or> n \<le> ramp_steps to duty \<and> p_stop q \<noteq> 0
        else n \<le> ramp_steps to duty)"
  using assms(4)
proof (induction "ramp_steps to duty" arbitrary: duty p rule: less_induct)
  case less
  obtain b p0 where c: "check_stop h p = (b, p0)" by fastforce
  have w0: "later (p_world p) (p_world p0)" and stop: "b \<longleftrightarrow> p_stop p0 \<noteq> 0" "p_stop p \<noteq> 0 \<Longrightarrow> p_stop p0 \<noteq> 0"
    and handlers: "p_handlers p0 = p_handlers p"
    using check_stop_waited [OF host c] by (simp_all add: waited_def)
  note unf = ramp_loop.simps [of os h m step to duty p]
  show ?case
  proof (cases b)
    case True
    have "activity os m (p_world p) (ramp_calls (duty_at step to duty) 0 MCUCO_STATUS_OK) (p_world p0)"
      using w0 by (simp add: ramp_calls_def act_wait)
    with c True stop handlers show ?thesis by (subst unf) auto
  next
    case False
    obtain s p1 where set: "call_in (mcuco_pwm_channel_set os (Some m) (word_of_int duty) PORT_A 5) p0 = Some (s, p1)"
        "api_step os m (p_world p0) (set_duty duty) s (p_world p1)" "p_stop p1 = p_stop p0"
        "p_handlers p1 = p_handlers p"
      using handlers call_in_api [OF os, of "mcuco_pwm_channel_set os (Some m) (word_of_int duty) PORT_A 5" m "set_duty duty" p0]
      by auto
    have stays: "p_stop p = 0" using False stop by blast
    show ?thesis
    proof (cases "s = MCUCO_STATUS_OK")
      case failed: False
      have "activity os m (p_world p) (ramp_calls (duty_at step to duty) 0 s) (p_world p1)"
        using act_call [OF w0 set(2) act_wait] failed by (simp add: ramp_calls_def duty_at_0 [OF less.prems])
      with c False set(1,4) failed stays show ?thesis by (subst unf) (auto simp: LED_PORT_def LED_PIN_def)
    next
      case ok: True
      show ?thesis
      proof (cases "duty = to")
        case True
        then have steps: "ramp_steps to duty = 0" by (simp add: ramp_steps_def)
        have "activity os m (p_world p) (ramp_calls (duty_at step to duty) 1 MCUCO_STATUS_OK) (p_world p1)"
          using act_call [OF w0 set(2) act_wait] ok by (simp add: ramp_calls_def duty_at_0 [OF less.prems])
        with c False set(1,4) ok True stays steps show ?thesis
          by (subst unf) (auto simp: LED_PORT_def LED_PIN_def intro!: exI [of _ 1])
      next
        case go_on: False
        let ?d = "next_duty step to duty" and ?p2 = "wait_a_step h p1"
        note fewer = ramp_steps_next [OF less.prems go_on]
        have w1: "later (p_world p1) (p_world ?p2)"
          using sleeps_waited(2) [OF host] by (auto simp: waited_def wait_a_step_def)
        obtain s' q n where rest: "ramp_loop os h m step to ?d ?p2 = Some (s', q)"
          "activity os m (p_world ?p2) (ramp_calls (duty_at step to ?d) n s') (p_world q)"
          "if s' = MCUCO_STATUS_OK then n = Suc (ramp_steps to ?d) \<or> n \<le> ramp_steps to ?d \<and> p_stop q \<noteq> 0
           else n \<le> ramp_steps to ?d" "p_handlers q = p_handlers ?p2"
          using less.hyps [OF _ towards_next [OF less.prems], of ?p2] fewer by auto
        have shift: "duty_at step to ?d = (\<lambda>i. duty_at step to duty (Suc i))"
          by (rule ext) (rule duty_at_next [OF less.prems])
        have "activity os m (p_world p) (ramp_calls (duty_at step to duty) (Suc n) s') (p_world q)"
          using act_call [OF w0 set(2) activity_later [OF w1 rest(2)]] ok
          by (simp add: ramp_calls_Suc shift duty_at_0 [OF less.prems])
        moreover have "ramp_loop os h m step to duty p = Some (s', q)"
          using c False set(1) ok go_on rest(1) by (subst unf) (simp add: LED_PORT_def LED_PIN_def)
        moreover have "clk (p_world p) < clk (p_world q)" if "\<forall>t w. clk w < clk (host_nanosleep h t w)"
        proof -
          have "clk (p_world p0) \<le> clk (p_world p1)" "clk (p_world ?p2) \<le> clk (p_world q)"
            using step_inv [OF api_step_contract [OF os(1) set(2)]] activity_inv [OF os(1) rest(2)]
            by (simp_all add: session_inv_def)
          moreover have "clk (p_world p1) < clk (p_world ?p2)"
            using that by (simp add: wait_a_step_def nanosleep_for_def)
          ultimately show ?thesis using w0 by (simp add: later_iff)
        qed
        moreover have "p_handlers q = p_handlers p"
          using rest(4) set(4) by (simp add: wait_a_step_def nanosleep_for_def)
        ultimately show ?thesis using rest(3) fewer stays by (intro exI [of _ s'] exI [of _ q] exI [of _ "Suc n"]) auto
      qed
    qed
  qed
qed

text \<open>C19. A ramp always ends, interrupted or not. From \<open>start\<close> it sets, in order and each only after the
  one before succeeded, the duties 20 tenths of a percent apart towards \<open>to\<close> and then \<open>to\<close>
  itself, never beyond it; it returns OK only if it got to \<open>to\<close> or a signal asked it to stop, and
  otherwise the status of the call that failed, after which it makes no other.\<close>

theorem ramp_correct:
  assumes "posix os" "finite_interrupts os rank" "host_contract h"
  shows "\<exists>s q n. ramp os h m start to p = Some (s, q)
     \<and> activity os m (p_world p)
         (ramp_calls (\<lambda>i. if start < to then min (start + 20 * int i) to else max (start - 20 * int i) to) n s) (p_world q)
     \<and> (if s = MCUCO_STATUS_OK then n = Suc (ramp_steps to start) \<or> n \<le> ramp_steps to start \<and> p_stop q \<noteq> 0
        else n \<le> ramp_steps to start)"
proof -
  let ?step = "if start < to then DUTY_STEP else - DUTY_STEP"
  have "towards ?step to start" by (simp add: towards_def DUTY_STEP_def)
  note ran = ramp_loop_returns [OF assms this, of m p]
  have duties: "duty_at ?step to start = (\<lambda>i. if start < to then min (start + 20 * int i) to else max (start - 20 * int i) to)"
    by (auto simp: duty_at_def DUTY_STEP_def)
  show ?thesis
    unfolding ramp_def Let_def using ran [unfolded duties] by blast
qed

theorem ramp_correct_witness:
  "\<exists>s q n. ramp demo_os (demo_host 5000) \<lparr>mcu_fd = 3, mcu_timeout_ms = 100\<rparr> 0 50 (demo_process [1]) = Some (s, q)
     \<and> activity demo_os \<lparr>mcu_fd = 3, mcu_timeout_ms = 100\<rparr> (p_world (demo_process [1]))
         (ramp_calls (\<lambda>i. min (0 + 20 * int i) 50) n s) (p_world q)
     \<and> (if s = MCUCO_STATUS_OK then n = 4 \<or> n \<le> 3 \<and> p_stop q \<noteq> 0 else n \<le> 3)"
proof -
  have "ramp_steps 50 0 = 3" by (simp add: ramp_steps_def)
  with ramp_correct [OF posix_demo finite_interrupts_demo host_demo, of 5000 "\<lparr>mcu_fd = 3, mcu_timeout_ms = 100\<rparr>" 0 50
      "demo_process [1]"]
  show ?thesis by (simp cong: if_cong)
qed

section \<open>The program\<close>

text \<open>Every call of the loop sets a duty of 0 to 100 percent.\<close>

definition duties_only :: "(command \<times> mcu_status) list \<Rightarrow> bool" where
  "duties_only tr \<longleftrightarrow> (\<forall>(c, s) \<in> set tr. \<exists>d. 0 \<le> d \<and> d \<le> 1000 \<and> c = set_duty d)"

lemma duties_only_append [simp]: "duties_only (tr @ tr') \<longleftrightarrow> duties_only tr \<and> duties_only tr'"
  by (auto simp: duties_only_def)














end
