(* ===== verification/Pwm_Frequency.thy ===== *)
theory Pwm_Frequency
  imports Host
begin

text \<open>
  \<^verbatim>\<open>examples/pwm_frequency.c\<close>: configure the three timers and print how far the achieved
  frequencies are from the requested ones.
\<close>

section \<open>The program\<close>

definition GROUP_1KHZ :: u8 where "GROUP_1KHZ = 0"
definition GROUP_60KHZ :: u8 where "GROUP_60KHZ = 1"
definition GROUP_7777 :: u8 where "GROUP_7777 = 2"

text \<open>\<open>%7u\<close> and \<open>%+ld\<close> of \<open>printf\<close>.\<close>

definition right7 :: "string \<Rightarrow> string" where
  "right7 s = replicate (7 - length s) CHR '' '' @ s"

definition signed_decimal :: "int \<Rightarrow> string" where
  "signed_decimal i = (if i < 0 then ''-'' else ''+'') @ decimal (nat \<bar>i\<bar>)"

definition report_group :: "'k os \<Rightarrow> mcuco \<Rightarrow> u8 \<Rightarrow> u32 \<Rightarrow> 'k process \<Rightarrow> 'k process option" where
  "report_group os m grp requested_hz p = do {
     (status, p) \<leftarrow> call_in (mcuco_pwm_group_cfg os (Some m) requested_hz grp) p;
     if status \<noteq> MCUCO_STATUS_OK \<and> status \<noteq> MCUCO_STATUS_ERR_BUSY
     then Some (report (''group '' @ decimal (unat grp) @ '' cfg: '') status p)
     else do {
       ((status, cell), p) \<leftarrow> call_in (\<lambda>w. do {
          (status, cell, w) \<leftarrow> mcuco_pwm_group_get os (Some m) grp (Some 0) w; Some ((status, cell), w) }) p;
       if status \<noteq> MCUCO_STATUS_OK
       then Some (report (''group '' @ decimal (unat grp) @ '' get: '') status p)
       else do {
         achieved_hz \<leftarrow> cell;
         let drift_hz = uint achieved_hz - uint requested_hz;
         Some (print_out (''group '' @ decimal (unat grp) @ '': requested '' @ right7 (decimal (unat requested_hz))
           @ '' Hz -> achieved '' @ right7 (decimal (unat achieved_hz)) @ '' Hz  ('' @ signed_decimal drift_hz @ '')''
           @ newline) p)
       }
     }
   }"

definition frequency_main :: "'k os \<Rightarrow> 'k host \<Rightarrow> string list \<Rightarrow> 'k process \<Rightarrow> (int \<times> 'k process) option" where
  "frequency_main os h argv p = do {
     let device_path = device_of argv;
     let p = install_signal_handlers p;
     let p = print_err (''opening '' @ device_path @ newline) p;
     (mcu, p) \<leftarrow> call_in (mcuco_open os (Some device_path) MCUCO_TIMEOUT_DEFAULT_MS) p;
     (case mcu of
        None \<Rightarrow> Some (1, perror h ''mcuco_open'' p)
      | Some m \<Rightarrow> do {
          p \<leftarrow> report_group os m GROUP_1KHZ 1000 p;
          p \<leftarrow> (case check_stop h p of (stop_requested, p) \<Rightarrow>
                  if \<not> stop_requested then report_group os m GROUP_60KHZ 60000 p else Some p);
          p \<leftarrow> (case check_stop h p of (stop_requested, p) \<Rightarrow>
                  if \<not> stop_requested then report_group os m GROUP_7777 7777 p else Some p);
          p \<leftarrow> reset_and_close os m p;
          Some (0, p)
        })
   }"

section \<open>One group\<close>

definition group_line :: "u8 \<Rightarrow> u32 \<Rightarrow> u32 \<Rightarrow> string" where
  "group_line grp requested_hz achieved_hz =
     ''group '' @ decimal (unat grp) @ '': requested '' @ right7 (decimal (unat requested_hz))
     @ '' Hz -> achieved '' @ right7 (decimal (unat achieved_hz)) @ '' Hz  (''
     @ signed_decimal (uint achieved_hz - uint requested_hz) @ '')'' @ newline"

text \<open>
  What one group's report does: the group is configured; if that succeeds or the group is busy,
  its frequency is read, and printed when that succeeds, as the MCU's answer carried it.
\<close>

definition reports ::
  "'k os \<Rightarrow> mcuco \<Rightarrow> u8 \<Rightarrow> u32 \<Rightarrow> 'k world \<Rightarrow> (command \<times> mcu_status) list \<Rightarrow> string \<Rightarrow> 'k world \<Rightarrow> bool" where
  "reports os m grp hz w tr out w' \<longleftrightarrow>
     (\<exists>s u. api_step os m w (Pwm_Group_Cfg hz grp) s u
        \<and> (if s = MCUCO_STATUS_OK \<or> s = MCUCO_STATUS_ERR_BUSY
           then \<exists>s'. api_step os m u (Pwm_Group_Get grp) s' w'
              \<and> tr = [(Pwm_Group_Cfg hz grp, s), (Pwm_Group_Get grp, s')]
              \<and> (if s' = MCUCO_STATUS_OK
                 then \<exists>b d f. scan_response (rx u) = Some (Some (b, d), rx w') \<and> frequency_of d = Some f \<and> out = group_line grp hz f
                 else out = [])
           else w' = u \<and> out = [] \<and> tr = [(Pwm_Group_Cfg hz grp, s)]))"

lemma group_get_returns:
  assumes os: "posix os" "finite_interrupts os rank" and "grp \<le> 2"
  shows "\<exists>s f w'. mcuco_pwm_group_get os (Some m) grp (Some 0) w = Some (s, Some f, w')
     \<and> api_step os m w (Pwm_Group_Get grp) s w'
     \<and> (s = MCUCO_STATUS_OK \<longrightarrow> (\<exists>b d. scan_response (rx w) = Some (Some (b, d), rx w') \<and> frequency_of d = Some f))"
proof -
  obtain s w' where "api_step os m w (Pwm_Group_Get grp) s w'"
    using api_step_terminates [OF os] by blast
  then obtain cell where get: "mcuco_pwm_group_get os (Some m) grp (Some 0) w = Some (s, cell, w')"
    and step: "api_step os m w (Pwm_Group_Get grp) s w'"
    by (auto simp: api_step_iff bind_eq_Some_conv)
  obtain f where f: "cell = Some f" using pwm_group_get_call.cell_stays [OF os(1) get] by blast
  have "valid_command (Pwm_Group_Get grp)" using assms(3) by simp
  from pwm_group_get_call.cell_written [OF os(1) this get] f have
    "s = MCUCO_STATUS_OK \<longrightarrow> (\<exists>b d. scan_response (rx w) = Some (Some (b, d), rx w') \<and> frequency_of d = Some f)"
    by auto
  with get step f show ?thesis by blast
qed

lemma report_group_returns:
  assumes os: "posix os" "finite_interrupts os rank" and grp: "grp \<le> 2"
  shows "\<exists>q tr out. report_group os m grp hz p = Some q \<and> reports os m grp hz (p_world p) tr out (p_world q)
     \<and> p_out q = p_out p @ out"
proof -
  obtain s p1 where cfg: "call_in (mcuco_pwm_group_cfg os (Some m) hz grp) p = Some (s, p1)"
      "api_step os m (p_world p) (Pwm_Group_Cfg hz grp) s (p_world p1)" "p_out p1 = p_out p"
    using call_in_api [OF os, of "mcuco_pwm_group_cfg os (Some m) hz grp" m "Pwm_Group_Cfg hz grp" p] by auto
  obtain s' f w where get: "mcuco_pwm_group_get os (Some m) grp (Some 0) (p_world p1) = Some (s', Some f, w)"
      "api_step os m (p_world p1) (Pwm_Group_Get grp) s' w"
      "s' = MCUCO_STATUS_OK \<longrightarrow> (\<exists>b d. scan_response (rx (p_world p1)) = Some (Some (b, d), rx w) \<and> frequency_of d = Some f)"
    using group_get_returns [OF os grp] by blast
  have q: "call_in (\<lambda>w. do { (status, cell, w) \<leftarrow> mcuco_pwm_group_get os (Some m) grp (Some 0) w; Some ((status, cell), w) }) p1
      = Some ((s', Some f), p1\<lparr>p_world := w\<rparr>)"
    by (simp add: call_in_def get(1))
  show ?thesis
  proof (cases "s = MCUCO_STATUS_OK \<or> s = MCUCO_STATUS_ERR_BUSY")
    case False
    then have "report_group os m grp hz p = Some (report (''group '' @ decimal (unat grp) @ '' cfg: '') s p1)"
      by (simp add: report_group_def cfg(1))
    moreover have "reports os m grp hz (p_world p) [(Pwm_Group_Cfg hz grp, s)] [] (p_world p1)"
      using cfg(2) False by (auto simp: reports_def)
    ultimately show ?thesis using cfg(3) by (auto simp: report_def)
  next
    case True
    let ?tr = "[(Pwm_Group_Cfg hz grp, s), (Pwm_Group_Get grp, s')]"
    show ?thesis
    proof (cases "s' = MCUCO_STATUS_OK")
      case False
      have "report_group os m grp hz p = Some (report (''group '' @ decimal (unat grp) @ '' get: '') s' (p1\<lparr>p_world := w\<rparr>))"
        using True False by (auto simp: report_group_def cfg(1) q Let_def)
      moreover have "reports os m grp hz (p_world p) ?tr [] w"
        unfolding reports_def using cfg(2) get(2) True False by metis
      ultimately show ?thesis using cfg(3) by (auto simp: report_def)
    next
      case ok: True
      have "report_group os m grp hz p = Some (print_out (group_line grp hz f) (p1\<lparr>p_world := w\<rparr>))"
        using True ok by (auto simp: report_group_def cfg(1) q Let_def group_line_def)
      moreover have "reports os m grp hz (p_world p) ?tr (group_line grp hz f) w"
        unfolding reports_def using cfg(2) get(2,3) True ok by metis
      ultimately show ?thesis using cfg(3) by auto
    qed
  qed
qed

lemma reports_activity: "reports os m grp hz w tr out w' \<Longrightarrow> activity os m w tr w'"
  by (auto simp: reports_def intro: activity_one act_call [OF later_refl] split: if_splits)

section \<open>The program\<close>

text \<open>A report, or nothing once a stop was requested.\<close>

definition reports_or_stops ::
  "'k os \<Rightarrow> mcuco \<Rightarrow> u8 \<Rightarrow> u32 \<Rightarrow> 'k world \<Rightarrow> (command \<times> mcu_status) list \<Rightarrow> string \<Rightarrow> 'k world \<Rightarrow> bool" where
  "reports_or_stops os m grp hz w tr out w' \<longleftrightarrow>
     (\<exists>u. later w u \<and> (reports os m grp hz u tr out w' \<or> w' = u \<and> tr = [] \<and> out = []))"

lemma reports_or_stops_activity: "reports_or_stops os m grp hz w tr out w' \<Longrightarrow> activity os m w tr w'"
  by (auto simp: reports_or_stops_def intro: act_wait activity_later dest: reports_activity)

lemma guarded_report:
  assumes os: "posix os" "finite_interrupts os rank" and host: "host_contract h" and grp: "grp \<le> 2"
  shows "\<exists>q tr out. (case check_stop h p of (stop_requested, p) \<Rightarrow>
        if \<not> stop_requested then report_group os m grp hz p else Some p) = Some q
     \<and> reports_or_stops os m grp hz (p_world p) tr out (p_world q) \<and> p_out q = p_out p @ out"
proof -
  obtain b p0 where c: "check_stop h p = (b, p0)" by fastforce
  have w0: "later (p_world p) (p_world p0)" using check_stop_waited [OF host c] by (simp add: waited_def)
  have o: "p_out p0 = p_out p"
    using c by (auto simp: check_stop_def take_signals_def Let_def deliver_keeps split: prod.splits)
  show ?thesis
    using report_group_returns [OF os grp, of m hz p0] c w0 o
    by (cases b) (auto simp: reports_or_stops_def)
qed

text \<open>The outcome of a run that opened the device: the reports, one reset, and the close.\<close>

definition frequency_run ::
  "'k os \<Rightarrow> string \<Rightarrow> 'k world \<Rightarrow> (command \<times> mcu_status) list \<Rightarrow> string \<Rightarrow> 'k world \<Rightarrow> bool" where
  "frequency_run os path w tr out w' \<longleftrightarrow>
     (\<exists>m v v1 v2 v3 v4 tr1 tr2 tr3 out1 out2 out3 r.
        mcuco_open os (Some path) MCUCO_TIMEOUT_DEFAULT_MS w = Some (Some m, v)
      \<and> reports os m GROUP_1KHZ 1000 v tr1 out1 v1
      \<and> reports_or_stops os m GROUP_60KHZ 60000 v1 tr2 out2 v2
      \<and> reports_or_stops os m GROUP_7777 7777 v2 tr3 out3 v3
      \<and> api_step os m v3 Reset r v4 \<and> w' = mcuco_close os (Some m) v4
      \<and> tr = tr1 @ tr2 @ tr3 @ [(Reset, r)] \<and> out = out1 @ out2 @ out3)"

lemma frequency_run_example: "frequency_run os path w tr out w' \<Longrightarrow> example_run os path w tr 0 w'"
  unfolding frequency_run_def
  by (elim exE conjE, simp, rule closed, assumption)
    (intro activity_append activity_one | erule reports_activity reports_or_stops_activity | assumption)+

lemma reset_and_close_out: "reset_and_close os m p = Some p' \<Longrightarrow> p_out p' = p_out p"
  by (auto simp: reset_and_close_def call_in_def bind_eq_Some_conv close_in_def report_def split: if_splits)

lemma frequency_main_returns:
  assumes os: "posix os" "finite_interrupts os rank" and host: "host_contract h"
  shows "\<exists>code p' tr out. frequency_main os h argv p = Some (code, p') \<and> p_out p' = p_out p @ out
     \<and> (code = 1 \<and> tr = [] \<and> out = [] \<and> example_run os (device_of argv) (p_world p) tr code (p_world p')
        \<or> code = 0 \<and> frequency_run os (device_of argv) (p_world p) tr out (p_world p'))"
proof -
  let ?banner = "print_err (''opening '' @ device_of argv @ newline) (install_signal_handlers p)"
  obtain mcu v where op: "mcuco_open os (Some (device_of argv)) MCUCO_TIMEOUT_DEFAULT_MS (p_world p) = Some (mcu, v)"
    using mcuco_open_terminates [OF os] by fastforce
  then have opened: "call_in (mcuco_open os (Some (device_of argv)) MCUCO_TIMEOUT_DEFAULT_MS) ?banner
      = Some (mcu, ?banner\<lparr>p_world := v\<rparr>)"
    by (simp add: call_in_def)
  show ?thesis
  proof (cases mcu)
    case None
    with op opened not_opened [OF op [unfolded None]] show ?thesis
      by (auto simp: frequency_main_def perror_def)
  next
    case (Some m)
    have groups: "GROUP_1KHZ \<le> 2" "GROUP_60KHZ \<le> 2" "GROUP_7777 \<le> 2"
      by (simp_all add: GROUP_1KHZ_def GROUP_60KHZ_def GROUP_7777_def)
    obtain p1 tr1 out1 where 1: "report_group os m GROUP_1KHZ 1000 (?banner\<lparr>p_world := v\<rparr>) = Some p1"
        "reports os m GROUP_1KHZ 1000 v tr1 out1 (p_world p1)" "p_out p1 = p_out p @ out1"
      using report_group_returns [OF os groups(1), of m 1000 "?banner\<lparr>p_world := v\<rparr>"] by (auto simp: print_err_def)
    obtain p2 tr2 out2 where 2: "(case check_stop h p1 of (stop_requested, p) \<Rightarrow>
          if \<not> stop_requested then report_group os m GROUP_60KHZ 60000 p else Some p) = Some p2"
        "reports_or_stops os m GROUP_60KHZ 60000 (p_world p1) tr2 out2 (p_world p2)" "p_out p2 = p_out p1 @ out2"
      using guarded_report [OF os host groups(2)] by blast
    obtain p3 tr3 out3 where 3: "(case check_stop h p2 of (stop_requested, p) \<Rightarrow>
          if \<not> stop_requested then report_group os m GROUP_7777 7777 p else Some p) = Some p3"
        "reports_or_stops os m GROUP_7777 7777 (p_world p2) tr3 out3 (p_world p3)" "p_out p3 = p_out p2 @ out3"
      using guarded_report [OF os host groups(3)] by blast
    obtain r w p' where reset: "reset_and_close os m p3 = Some p'" "api_step os m (p_world p3) Reset r w"
        "p_world p' = mcuco_close os (Some m) w"
      using reset_and_close_returns [OF os] by blast
    have "frequency_main os h argv p = Some (0, p')"
      using opened Some 1(1) 2(1) 3(1) reset(1) by (simp add: frequency_main_def)
    moreover have "p_out p' = p_out p @ out1 @ out2 @ out3"
      using reset_and_close_out [OF reset(1)] 1(3) 2(3) 3(3) by simp
    moreover have "frequency_run os (device_of argv) (p_world p) (tr1 @ tr2 @ tr3 @ [(Reset, r)]) (out1 @ out2 @ out3) (p_world p')"
      unfolding frequency_run_def using op [unfolded Some] 1(2) 2(2) 3(2) reset(2,3) by blast
    ultimately show ?thesis by blast
  qed
qed

definition frequency_calls :: "(command \<times> mcu_status) list \<Rightarrow> int \<Rightarrow> bool" where
  "frequency_calls tr code \<longleftrightarrow> tr = [] \<and> code = 1 \<or> (\<exists>reports r. tr = reports @ [(Reset, r)] \<and> code = 0)"

interpretation frequency_prog: example_program frequency_main "\<lambda>_. True" frequency_calls
proof
  fix os :: "'k os" and rank and h :: "'k host" and argv and p :: "'k process"
  assume os: "posix os" "finite_interrupts os rank" and host: "host_contract h"
  obtain code p' tr out where run: "frequency_main os h argv p = Some (code, p')"
      "code = 1 \<and> tr = [] \<and> out = [] \<and> example_run os (device_of argv) (p_world p) tr code (p_world p')
       \<or> code = 0 \<and> frequency_run os (device_of argv) (p_world p) tr out (p_world p')"
    using frequency_main_returns [OF os host, of argv p] by blast
  then have "frequency_calls tr code"
    unfolding frequency_calls_def frequency_run_def by (metis append_assoc)
  with run show "\<exists>code p' tr. frequency_main os h argv p = Some (code, p')
      \<and> example_run os (device_of argv) (p_world p) tr code (p_world p') \<and> frequency_calls tr code"
    using frequency_run_example by blast
qed



end
