(* ===== verification/Spec2Isabelle.thy ===== *)
theory Spec2Isabelle
  imports Cli_Main Blink Irq_Bind Pwm_Breathe Pwm_Frequency
begin

text \<open>
  Verification library of the mcu-co SDK: the host side of a link to a microcontroller over a
  serial port, with its command line tool and its examples.

  \<^bold>\<open>The program.\<close> \<^verbatim>\<open>library/src\<close> is a stack. \<^verbatim>\<open>mcuco.c\<close> is the public API: sixteen calls, each of
  which builds a command frame (\<^verbatim>\<open>protocol.c\<close>, with the checksum of \<^verbatim>\<open>crc16.c\<close> and the byte order
  of \<^verbatim>\<open>endianess.c\<close>), sends it, waits for one response frame under a deadline
  (\<^verbatim>\<open>command_transport.c\<close>), and turns the response into a status (\<^verbatim>\<open>status.c\<close>) and perhaps a
  value. The port itself is \<^verbatim>\<open>uart.c\<close>. On top are the command line tool (\<^verbatim>\<open>cli/commands.c\<close>,
  \<^verbatim>\<open>cli/main.c\<close>) and four example programs (\<^verbatim>\<open>examples/\<close>).

  \<^bold>\<open>How it is modelled.\<close> A function of the code is a HOL function of the same name. The outside
  world is passed explicitly: functions that touch it take a world and return the new one. A
  result of type option is \<^term>\<open>None\<close> when the C code has no defined result (an access outside an
  array, or a loop that never ends), so a theorem that a function is \<^term>\<open>Some\<close> of something states
  memory safety and termination along with the result. C integers are words of their width;
  \<open>int\<close> and \<open>long\<close> quantities that stay small by their bounds are \<^typ>\<open>int\<close> and \<^typ>\<open>nat\<close>. Loops that
  depend on the outside world are partial functions, and their termination is a theorem.

  \<^bold>\<open>Theories and what they model.\<close>
  \<^item> Prelude: words, pointers that may be NULL, checked array accesses.
  \<^item> Crc16: \<^verbatim>\<open>crc16.c\<close>. Lemmas: the routine computes the remainder of the message polynomial
    modulo the CCITT generator, and so detects every burst within two neighbouring bytes.
  \<^item> Endianess: \<^verbatim>\<open>endianess.c\<close>. Storing and loading are inverse.
  \<^item> Status: the enums of \<^verbatim>\<open>mcuco.h\<close> and the messages of \<^verbatim>\<open>status.c\<close>.
  \<^item> Wire: the constants of \<^verbatim>\<open>protocol_defs.h\<close>, and as the abstract specification the commands of
    the protocol with their validity, their frames, and the receiver's decoder.
  \<^item> Protocol and Response: \<^verbatim>\<open>protocol.c\<close>, the sixteen builders and the response parser. The
    builders write exactly the frame of the command or refuse; the parser is equivalent to the
    declarative format. Builders share the interface \<open>command_builder\<close>, interpreted on all sixteen.
  \<^item> Posix: the operating system, a parameter (below), and the kernel the witnesses run on.
  \<^item> Uart: \<^verbatim>\<open>uart.c\<close>. Reading under a deadline is the interface \<open>timed_reader\<close>.
  \<^item> Transport: \<^verbatim>\<open>command_transport.c\<close>, against \<open>scan_response\<close>, a function of the bytes on the
    line that says which response is received.
  \<^item> Mcuco: \<^verbatim>\<open>mcuco.c\<close>. The interfaces \<open>api_call\<close>, \<open>simple_call\<close> and \<open>query_call\<close> state once what a
    call promises; every public call is an interpretation of one of them.
  \<^item> Session: any sequence of calls on an open handle, as a step relation with its invariant, and
    the receiver's view of the whole byte stream.
  \<^item> Process: the programs' side, a process with its output streams and signal handlers around the
    world.
  \<^item> Commands and Command\_Line: \<^verbatim>\<open>commands.c\<close> and \<^verbatim>\<open>commands.h\<close>, and what they promise. The word
    parsers share the interface \<open>value_parser\<close>, interpreted on all eleven.
  \<^item> Cli\_Main: \<^verbatim>\<open>main.c\<close>, every path with its output and exit code.
  \<^item> Host, Blink, Irq\_Bind, Pwm\_Breathe, Pwm\_Frequency: the examples. \<open>activity\<close> is a session with
    time passing between its calls; each program's run is an \<open>example_run\<close>, and all four are interpretations of the interface
    \<open>example_program\<close>.

  \<^bold>\<open>Parameters and hypotheses.\<close> What is not code of the repository is an argument of the
  definitions, and what the code relies on is a named hypothesis:
  \<^item> \<open>posix os\<close>: the documented behaviour of the system calls; \<open>finite_interrupts\<close>: only finitely many
    calls are interrupted (without it no call need ever return); \<open>delivers_by\<close> and \<open>accepts_by\<close>:
    the line delivers, and the kernel accepts, before a deadline (only for the theorems that
    promise an answer). The witnesses use \<open>demo_os\<close>, for which all of them are proved.
  \<^item> \<open>getopt_contract\<close>: \<open>getopt_long\<close> permutes \<open>argv\<close>, finds finitely many options, and leaves
    \<open>optind\<close> at the first operand. Witness: \<open>demo_getopt\<close>.
  \<^item> \<open>host_contract\<close>: signals and waiting change nothing but time, and \<open>pause\<close> returns only after a
    handler ran; \<open>interrupted_at\<close>: the user interrupts the program at some time. Witness: \<open>demo_host\<close>.
  \<^item> The version strings, which the build generates, are arguments.
  The C library functions whose results matter are modelled as the standard has them: \<open>strtoul\<close>
  (for a 64-bit \<open>unsigned long\<close>), the \<open>printf\<close> conversions used, \<open>memset\<close>, \<open>strcmp\<close>.

  \<^bold>\<open>What the theorems show together.\<close> A command line is accepted exactly as a command (theory
  Command\_Line); the tool makes the call of that command on a connection it opens and closes
  (Cli\_Main); the call puts exactly the frame of the command on the wire and reports the verdict
  on the response, or a failure (Session, Mcuco); the bytes of a whole session decode to its
  valid requests (Session); no run leaks a descriptor or an allocation; and every loop ends
  under the hypotheses above. Where the code does something else than it means to, that is a
  theorem as well: a negative acknowledgement with reason 0 counts as success, a late reply
  answers the next command, an open port may keep control flags that were not asked for, the
  frequency and timeout parsers take negative numbers that wrap, and the wait of the interrupt example can lose its signal.

  \<^bold>\<open>Bounds.\<close> There is no fuel. The clock is in milliseconds as an unbounded integer, so the overflow
  of a 32-bit \<open>long\<close> in \<open>now_ms\<close> is not in the model; nor is that of the \<open>int\<close> of a ramp's duty in \<open>next_duty\<close>, which the
  program only calls between 0 and 1000. The 32-bit timeout given to \<open>poll\<close> is
  (\<open>mcu_timeout_ms m < 2 ^ 31\<close> in the theorems on deadlines).

  \<^bold>\<open>Not modelled.\<close> The tests (C++ and shell), the build files, and the firmware at the other end of
  the line, which is not in the repository: theorems speak of the bytes the line delivers. Of
  signals, only those with a handler: a process carries the handlers it has installed, and the
  default action of a signal without one, which for SIGINT and SIGTERM ends the program, is left
  out. The four
  copies of the signal handler are one definition.
\<close>

end
